(* ===== verification/Go_Prelude.thy ===== *)
theory Go_Prelude
  imports Main "HOL-Library.Word" "HOL-Library.State_Monad"
begin

text \<open>
  What every component shares: the collections that carry the proofs, Go's \<open>error\<close>
  values, the fixed-width integers, durations and times.  A Go call that returns
  \<open>(T, error)\<close> is a value of \<open>err + T\<close>: \<open>Inl\<close> is the error branch, whose \<open>T\<close> is the
  zero value no caller reads.
\<close>

named_theorems wp_simps "weakest preconditions of the effectful operations"
named_theorems emits_intros "which events an operation can append to the trace"
named_theorems ordered_intros "which events an operation appends after which others"
named_theorems quiet_simps "classification of events"

section \<open>Errors\<close>

text \<open>
  The kinds the code tells apart with \<open>apierrors.IsNotFound\<close> and
  \<open>apierrors.IsAlreadyExists\<close>; everything else is only propagated or printed.
\<close>

datatype err_kind = NotFound | AlreadyExists | OtherError

record err =
  err_kind :: err_kind
  err_msg :: string

definition isNotFound :: "err \<Rightarrow> bool" where
  "isNotFound e \<longleftrightarrow> err_kind e = NotFound"

definition isAlreadyExists :: "err \<Rightarrow> bool" where
  "isAlreadyExists e \<longleftrightarrow> err_kind e = AlreadyExists"

text \<open>\<open>fmt.Errorf\<close> without \<open>%w\<close> makes a fresh error; with \<open>%w\<close> the wrapped error keeps its kind.\<close>

definition errorf :: "string \<Rightarrow> err" where
  "errorf m = \<lparr>err_kind = OtherError, err_msg = m\<rparr>"

definition wrapf :: "string \<Rightarrow> err \<Rightarrow> err" where
  "wrapf p e = e\<lparr>err_msg := p @ '': '' @ err_msg e\<rparr>"

lemma errorf_kind [simp]: "isNotFound (errorf m) = False" "isAlreadyExists (errorf m) = False"
  by (simp_all add: isNotFound_def isAlreadyExists_def errorf_def)

lemma wrapf_kind [simp]: "isNotFound (wrapf p e) = isNotFound e"
  "isAlreadyExists (wrapf p e) = isAlreadyExists e"
  by (simp_all add: isNotFound_def isAlreadyExists_def wrapf_def)

section \<open>Fixed-width integers, durations, times\<close>

text \<open>
  Go's \<open>int\<close>, \<open>int64\<close> and \<open>time.Duration\<close> are 64-bit two's complement; a conversion
  \<open>int32(x)\<close> keeps the low 32 bits.  A value is an \<open>int\<close> in range and the operations that
  can leave the range wrap it.
\<close>

definition wrap64 :: "int \<Rightarrow> int" where
  "wrap64 x = signed_take_bit 63 x"

definition wrap32 :: "int \<Rightarrow> int" where
  "wrap32 x = signed_take_bit 31 x"

lemma wrap64_id: "- (2 ^ 63) \<le> x \<Longrightarrow> x < 2 ^ 63 \<Longrightarrow> wrap64 x = x"
  by (simp add: wrap64_def signed_take_bit_int_eq_self)

lemma wrap32_id: "- (2 ^ 31) \<le> x \<Longrightarrow> x < 2 ^ 31 \<Longrightarrow> wrap32 x = x"
  by (simp add: wrap32_def signed_take_bit_int_eq_self)

lemma wrap32_range: "- (2 ^ 31) \<le> wrap32 x" "wrap32 x < 2 ^ 31"
  using signed_take_bit_int_greater_eq_minus_exp [of 31 x] signed_take_bit_int_less_exp [of 31 x]
  by (simp_all add: wrap32_def)

lemma wrap64_word: "wrap64 x = sint (word_of_int x :: 64 word)"
  by (simp add: wrap64_def sint_sbintrunc')

lemma wrap32_word: "wrap32 x = sint (word_of_int x :: 32 word)"
  by (simp add: wrap32_def sint_sbintrunc')

text \<open>Durations are in nanoseconds.\<close>

definition second :: int where
  "second = 1000000000"

definition minute :: int where
  "minute = 60 * second"

definition hour :: int where
  "hour = 60 * minute"

text \<open>
  A \<open>time.Time\<close> is the number of nanoseconds since the Unix epoch; the zero \<open>Time\<close> is
  January 1 of year 1.  \<open>Sub\<close> saturates to the range of a \<open>Duration\<close>.
\<close>

definition zeroTime :: int where
  "zeroTime = - 62135596800 * second"

definition isZeroTime :: "int \<Rightarrow> bool" where
  "isZeroTime t \<longleftrightarrow> t = zeroTime"

definition timeSub :: "int \<Rightarrow> int \<Rightarrow> int" where
  "timeSub t u = max (- (2 ^ 63)) (min (2 ^ 63 - 1) (t - u))"

lemma timeSub_exact: "\<bar>t - u\<bar> < 2 ^ 63 \<Longrightarrow> timeSub t u = t - u"
  by (simp add: timeSub_def)

section \<open>Lists, maps and options\<close>

text \<open>Reading a nil or missing map entry yields the zero value, here the empty string.\<close>

definition lookupS :: "('k \<rightharpoonup> string) \<Rightarrow> 'k \<Rightarrow> string" where
  "lookupS m k = (case m k of None \<Rightarrow> [] | Some v \<Rightarrow> v)"

lemma lookupS_upd [simp]: "lookupS (m(k \<mapsto> v)) k' = (if k' = k then v else lookupS m k')"
  by (simp add: lookupS_def)

lemma lookupS_empty [simp]: "lookupS Map.empty k = []"
  by (simp add: lookupS_def)

lemma lookupS_None: "m k = None \<Longrightarrow> lookupS m k = []"
  by (simp add: lookupS_def)

lemma lookupS_nonempty: "lookupS m k = v \<Longrightarrow> v \<noteq> [] \<Longrightarrow> m k = Some v"
  by (auto simp: lookupS_def split: option.splits)

fun enumerate_from :: "nat \<Rightarrow> 'a list \<Rightarrow> (nat \<times> 'a) list" where
  "enumerate_from i [] = []"
| "enumerate_from i (x # xs) = (i, x) # enumerate_from (Suc i) xs"

lemma map_fst_enumerate_from [simp]: "map fst (enumerate_from i xs) = [i..<i + length xs]"
  by (induction xs arbitrary: i) (simp_all add: upt_rec)

lemma map_snd_enumerate_from [simp]: "map snd (enumerate_from i xs) = xs"
  by (induction xs arbitrary: i) simp_all

lemma length_enumerate_from [simp]: "length (enumerate_from i xs) = length xs"
  by (induction xs arbitrary: i) simp_all

end
