(* ===== verification/Go_Strings.thy ===== *)
theory Go_Strings
  imports Go_Prelude "HOL-Library.Char_ord" "HOL-Library.List_Lexorder" "HOL-Library.Sublist"
begin

text \<open>
  The functions of Go's \<open>strings\<close>, \<open>strconv\<close>, \<open>fmt\<close>, \<open>sort\<close> and \<open>encoding/hex\<close> the
  program uses, over byte strings (\<open>string\<close>, one \<open>char\<close> per byte).  \<open>TrimSpace\<close> drops the
  ASCII white space.  \<open>sort.Strings\<close> is the library's \<open>sort\<close> at the bytewise lexicographic
  order of \<open>List_Lexorder\<close>.
\<close>

section \<open>Prefixes, suffixes, trimming\<close>

definition HasPrefix :: "string \<Rightarrow> string \<Rightarrow> bool" where
  "HasPrefix s p \<longleftrightarrow> take (length p) s = p"

definition TrimPrefix :: "string \<Rightarrow> string \<Rightarrow> string" where
  "TrimPrefix s p = (if HasPrefix s p then drop (length p) s else s)"

definition TrimSuffix :: "string \<Rightarrow> string \<Rightarrow> string" where
  "TrimSuffix s p = rev (TrimPrefix (rev s) (rev p))"

definition TrimRight :: "string \<Rightarrow> char \<Rightarrow> string" where
  "TrimRight s c = rev (dropWhile (\<lambda>x. x = c) (rev s))"

definition isSpace :: "char \<Rightarrow> bool" where
  "isSpace c \<longleftrightarrow> c \<in> {CHR 0x09, CHR 0x0A, CHR 0x0B, CHR 0x0C, CHR 0x0D, CHR 0x20}"

definition TrimSpace :: "string \<Rightarrow> string" where
  "TrimSpace s = rev (dropWhile isSpace (rev (dropWhile isSpace s)))"

lemma HasPrefix_append [simp]: "HasPrefix (p @ s) p"
  by (simp add: HasPrefix_def)

lemma HasPrefix_iff: "HasPrefix s p \<longleftrightarrow> (\<exists>r. s = p @ r)"
  by (metis HasPrefix_def HasPrefix_append append_take_drop_id)

lemma TrimPrefix_append [simp]: "TrimPrefix (p @ s) p = s"
  by (simp add: TrimPrefix_def)

lemma TrimPrefix_eq: "TrimPrefix s p = s \<longleftrightarrow> \<not> HasPrefix s p \<or> p = []"
  by (auto simp: TrimPrefix_def HasPrefix_iff)

lemma TrimSpace_id:
  assumes "s \<noteq> [] \<Longrightarrow> \<not> isSpace (hd s)" and "s \<noteq> [] \<Longrightarrow> \<not> isSpace (last s)"
  shows "TrimSpace s = s"
proof (cases "s = []")
  case False
  with assms have "dropWhile isSpace s = s" "dropWhile isSpace (rev s) = rev s"
    by (simp_all add: dropWhile_eq_self_iff hd_rev)
  then show ?thesis by (simp add: TrimSpace_def)
qed (simp add: TrimSpace_def)

lemma TrimSpace_idem [simp]: "TrimSpace (TrimSpace s) = TrimSpace s"
proof (rule TrimSpace_id)
  let ?d = "dropWhile isSpace s"
  assume ne: "TrimSpace s \<noteq> []"
  then have r: "dropWhile isSpace (rev ?d) \<noteq> []" by (simp add: TrimSpace_def)
  then show "\<not> isSpace (last (TrimSpace s))"
    using hd_dropWhile [OF r] by (simp add: TrimSpace_def last_rev)
  have d: "?d \<noteq> []" using r by (metis dropWhile.simps(1) rev.simps(1))
  obtain us where us: "rev ?d = us @ dropWhile isSpace (rev ?d)"
    by (metis takeWhile_dropWhile_id)
  then have "?d = TrimSpace s @ rev us"
    by (metis TrimSpace_def rev_append rev_rev_ident)
  then have "hd (TrimSpace s) = hd ?d" using ne by (metis hd_append2)
  then show "\<not> isSpace (hd (TrimSpace s))" using hd_dropWhile [OF d] by simp
qed

lemma TrimRight_last: "TrimRight s c = [] \<or> last (TrimRight s c) \<noteq> c"
proof (cases "TrimRight s c = []")
  case False
  then have "dropWhile (\<lambda>x. x = c) (rev s) \<noteq> []" by (auto simp: TrimRight_def)
  from hd_dropWhile [OF this] have "last (TrimRight s c) \<noteq> c"
    by (simp add: TrimRight_def last_rev)
  then show ?thesis by simp
qed simp

section \<open>Splitting and joining\<close>

fun Join :: "string list \<Rightarrow> string \<Rightarrow> string" where
  "Join [] sep = []"
| "Join [x] sep = x"
| "Join (x # y # ys) sep = x @ sep @ Join (y # ys) sep"

text \<open>\<open>strings.Split\<close> at a one-byte separator: always at least one part.\<close>

fun Split :: "string \<Rightarrow> char \<Rightarrow> string list" where
  "Split [] c = [[]]"
| "Split (x # xs) c =
     (if x = c then [] # Split xs c
      else (case Split xs c of [] \<Rightarrow> [[x]] | p # ps \<Rightarrow> (x # p) # ps))"

text \<open>\<open>strings.SplitN(s, c, 2)\<close>: cut at the first separator.\<close>

fun SplitN2 :: "string \<Rightarrow> char \<Rightarrow> string list" where
  "SplitN2 [] c = [[]]"
| "SplitN2 (x # xs) c =
     (if x = c then [[], xs]
      else (case SplitN2 xs c of [] \<Rightarrow> [[x]] | p # ps \<Rightarrow> (x # p) # ps))"

lemma Split_nonempty [simp]: "Split s c \<noteq> []"
  by (induction s) (auto split: list.splits)

lemma Split_no_sep: "c \<notin> set s \<Longrightarrow> Split s c = [s]"
  by (induction s) auto

lemma Split_append: "c \<notin> set p \<Longrightarrow> Split (p @ c # s) c = p # Split s c"
  by (induction p) auto

lemma Split_Join:
  "xs \<noteq> [] \<Longrightarrow> \<forall>x \<in> set xs. c \<notin> set x \<Longrightarrow> Split (Join xs [c]) c = xs"
  by (induction xs "[c]" rule: Join.induct) (auto simp: Split_no_sep Split_append)

section \<open>Decimal and hexadecimal\<close>

definition digit :: "nat \<Rightarrow> char" where
  "digit n = char_of (48 + n)"

fun natToString :: "nat \<Rightarrow> string" where
  "natToString n = (if n < 10 then [digit n] else natToString (n div 10) @ [digit (n mod 10)])"

declare natToString.simps [simp del]

definition Itoa :: "int \<Rightarrow> string" where
  "Itoa i = (if i < 0 then ''-'' @ natToString (nat (- i)) else natToString (nat i))"

definition hexDigit :: "nat \<Rightarrow> char" where
  "hexDigit n = (if n < 10 then char_of (48 + n) else char_of (87 + n))"

definition hexByte :: "char \<Rightarrow> string" where
  "hexByte c = [hexDigit (of_char c div 16), hexDigit (of_char c mod 16)]"

definition hexEncode :: "string \<Rightarrow> string" where
  "hexEncode s = concat (map hexByte s)"

definition isHexDigit :: "char \<Rightarrow> bool" where
  "isHexDigit c \<longleftrightarrow> c \<in> set ''0123456789abcdef''"

lemma of_char_lt: "(of_char c :: nat) < 256"
  by (rule nat_of_char_less_256)

lemma of_char_div16 [simp]: "(of_char c :: nat) div 16 < 16"
  using of_char_lt [of c] by (simp add: less_mult_imp_div_less)

lemma of_char_digit: "n < 10 \<Longrightarrow> (of_char (digit n) :: nat) = 48 + n"
  by (simp add: digit_def)

lemma of_char_hexDigit: "n < 16 \<Longrightarrow> (of_char (hexDigit n) :: nat) = (if n < 10 then 48 + n else 87 + n)"
  by (simp add: hexDigit_def)

lemma hexDigit_inj:
  assumes "m < 16" "n < 16" "hexDigit m = hexDigit n"
  shows "m = n"
proof -
  have "(if m < 10 then 48 + m else 87 + m) = (if n < 10 then 48 + n else 87 + n)"
    using arg_cong [OF assms(3), of "of_char :: char \<Rightarrow> nat"] assms(1,2)
    by (simp only: of_char_hexDigit)
  with assms(1,2) show ?thesis by (auto split: if_splits)
qed

lemma hexByte_inj: "hexByte c = hexByte d \<Longrightarrow> c = d"
proof -
  assume "hexByte c = hexByte d"
  then have d: "hexDigit (of_char c div 16) = hexDigit (of_char d div 16)"
    "hexDigit (of_char c mod 16) = hexDigit (of_char d mod 16)"
    by (simp_all add: hexByte_def)
  have "(of_char c :: nat) div 16 = of_char d div 16"
    by (intro hexDigit_inj [OF _ _ d(1)]) simp_all
  moreover have "(of_char c :: nat) mod 16 = of_char d mod 16"
    by (intro hexDigit_inj [OF _ _ d(2)]) simp_all
  ultimately have "(of_char c :: nat) = of_char d"
    by (metis div_mult_mod_eq)
  then show ?thesis by simp
qed

lemma length_hexByte [simp]: "length (hexByte c) = 2"
  by (simp add: hexByte_def)

lemma length_hexEncode [simp]: "length (hexEncode s) = 2 * length s"
  by (induction s) (simp_all add: hexEncode_def)

lemma hexEncode_Cons [simp]: "hexEncode (c # s) = hexByte c @ hexEncode s"
  by (simp add: hexEncode_def)

lemma hexEncode_inj: "hexEncode s = hexEncode t \<Longrightarrow> s = t"
proof (induction s arbitrary: t)
  case Nil
  then have "length (hexEncode t) = 0" by (metis length_hexEncode list.size(3) mult_0_right)
  then show ?case by simp
next
  case (Cons c s)
  then obtain d t' where t: "t = d # t'"
    by (cases t) (auto simp: hexByte_def hexEncode_def)
  with Cons.prems have "hexByte c = hexByte d" "hexEncode s = hexEncode t'"
    by simp_all
  with Cons.IH t show ?case by (simp add: hexByte_inj)
qed

lemma hexDigit_isHex: "n < 16 \<Longrightarrow> isHexDigit (hexDigit n)"
proof -
  assume "n < 16"
  then have "n \<in> set [0..<16]" by simp
  moreover have "list_all (\<lambda>n. isHexDigit (hexDigit n)) [0..<16]" by code_simp
  ultimately show ?thesis by (auto simp: list_all_iff)
qed

lemma hexEncode_isHex: "list_all isHexDigit (hexEncode s)"
proof (induction s)
  case (Cons c s)
  have "list_all isHexDigit (hexByte c)"
    by (auto simp: hexByte_def intro!: hexDigit_isHex)
  with Cons show ?case by simp
qed (simp add: hexEncode_def)

text \<open>Decimal text determines the number.\<close>

definition decValue :: "string \<Rightarrow> nat" where
  "decValue s = foldl (\<lambda>a c. a * 10 + (of_char c - 48)) 0 s"

lemma decValue_natToString [simp]: "decValue (natToString n) = n"
proof (induction n rule: natToString.induct)
  case (1 n)
  then show ?case
    by (subst natToString.simps) (auto simp: decValue_def of_char_digit)
qed

lemma natToString_inj [simp]: "natToString m = natToString n \<longleftrightarrow> m = n"
  by (metis decValue_natToString)

lemma Itoa_of_nat_inj [simp]: "Itoa (int m) = Itoa (int n) \<longleftrightarrow> m = n"
  by (simp add: Itoa_def)

section \<open>Quoting\<close>

text \<open>
  \<open>%q\<close>: the quote and the backslash are escaped, control bytes print as escapes, other
  bytes print as they are.
\<close>

definition quoteChar :: "char \<Rightarrow> string" where
  "quoteChar c =
     (if c = CHR 0x22 then [CHR 0x5C, CHR 0x22]
      else if c = CHR 0x5C then [CHR 0x5C, CHR 0x5C]
      else if c = CHR 0x0A then [CHR 0x5C, CHR 0x6E]
      else if c = CHR 0x0D then [CHR 0x5C, CHR 0x72]
      else if c = CHR 0x09 then [CHR 0x5C, CHR 0x74]
      else if c = CHR 0x07 then [CHR 0x5C, CHR 0x61]
      else if c = CHR 0x08 then [CHR 0x5C, CHR 0x62]
      else if c = CHR 0x0C then [CHR 0x5C, CHR 0x66]
      else if c = CHR 0x0B then [CHR 0x5C, CHR 0x76]
      else if (of_char c :: nat) < 32 \<or> (of_char c :: nat) = 127
        then [CHR 0x5C, CHR 0x78] @ hexByte c
      else [c])"

definition Quote :: "string \<Rightarrow> string" where
  "Quote s = [CHR 0x22] @ concat (map quoteChar s) @ [CHR 0x22]"

section \<open>Sorted keys of a map held as an association list\<close>

text \<open>
  A Go map filled from a list of entries, the later entry winning, and its keys in
  \<open>sort.Strings\<close> order.
\<close>

definition mapOfEntries :: "(string \<times> 'a) list \<Rightarrow> (string \<rightharpoonup> 'a)" where
  "mapOfEntries kvs = map_of (rev kvs)"

definition sortedKeys :: "(string \<times> 'a) list \<Rightarrow> string list" where
  "sortedKeys kvs = sort (remdups (map fst kvs))"

lemma dom_mapOfEntries: "dom (mapOfEntries kvs) = fst ` set kvs"
  by (simp add: mapOfEntries_def dom_map_of_conv_image_fst)

lemma set_sortedKeys: "set (sortedKeys kvs) = dom (mapOfEntries kvs)"
  by (simp add: sortedKeys_def dom_mapOfEntries)

lemma distinct_sortedKeys: "distinct (sortedKeys kvs)"
  by (simp add: sortedKeys_def)

lemma sorted_sortedKeys: "sorted (sortedKeys kvs)"
  by (simp add: sortedKeys_def)

end
