(* ===== verification/Crd_Types.thy ===== *)
theory Crd_Types
  imports Go_Strings
begin

text \<open>
  The custom resources of \<open>go/api/v1alpha1\<close>: one record per Go struct, with the struct's
  fields (a prefix is added where two structs share a field name).  A pointer is an option,
  a slice a list, a map a partial function; a nil slice and a nil map are the empty ones.
  \<open>ObjectMeta\<close> has the fields of \<open>metav1.ObjectMeta\<close> the program reads or writes.
  Kubebuilder's constraints on these types are checked by the API server, not by this code,
  so every value of the Go type is a value here.
\<close>

section \<open>JSON values\<close>

text \<open>
  \<open>runtime.RawExtension\<close> holds JSON text.  The text is represented by what
  \<open>encoding/json\<close> reads in it: a value, or the syntax error it reports.  A number is an
  integer literal or a decimal \<open>JDec m e = m * 10 ^ e\<close>; an object keeps its entries in order.
\<close>

datatype json =
    JNull
  | JBool bool
  | JInt int
  | JDec int int
  | JStr string
  | JArr "json list"
  | JObj "(string \<times> json) list"

datatype rawJson = BadJson string | GoodJson json

record RawExtension =
  Raw :: "rawJson option"

section \<open>Object metadata\<close>

record OwnerReference =
  ownerKind :: string
  ownerName :: string

record ObjectMeta =
  Name :: string
  Namespace :: string
  Labels :: "string \<rightharpoonup> string"
  Annotations :: "string \<rightharpoonup> string"
  Finalizers :: "string list"
  DeletionTimestamp :: "int option"
  CreationTimestamp :: int
  Generation :: int
  OwnerReferences :: "OwnerReference list"
  ResourceVersion :: string

definition zeroMeta :: ObjectMeta where
  "zeroMeta = \<lparr>Name = [], Namespace = [], Labels = Map.empty, Annotations = Map.empty,
     Finalizers = [], DeletionTimestamp = None, CreationTimestamp = zeroTime, Generation = 0,
     OwnerReferences = [], ResourceVersion = []\<rparr>"

definition objectMeta :: "string \<Rightarrow> string \<Rightarrow> ObjectMeta" where
  "objectMeta n ns = zeroMeta\<lparr>Name := n, Namespace := ns\<rparr>"

lemma objectMeta_simps [simp]:
  "Name (objectMeta n ns) = n" "Namespace (objectMeta n ns) = ns"
  "Labels (objectMeta n ns) = Map.empty" "Annotations (objectMeta n ns) = Map.empty"
  "Finalizers (objectMeta n ns) = []" "DeletionTimestamp (objectMeta n ns) = None"
  by (simp_all add: objectMeta_def zeroMeta_def)

text \<open>\<open>types.NamespacedName\<close>\<close>

record NamespacedName =
  keyNamespace :: string
  keyName :: string

definition nsName :: "string \<Rightarrow> string \<Rightarrow> NamespacedName" where
  "nsName ns n = \<lparr>keyNamespace = ns, keyName = n\<rparr>"

lemma nsName_simps [simp]:
  "keyName (nsName ns n) = n" "keyNamespace (nsName ns n) = ns"
  "nsName a b = nsName c d \<longleftrightarrow> a = c \<and> b = d"
  by (auto simp: nsName_def)

definition keyOf :: "ObjectMeta \<Rightarrow> NamespacedName" where
  "keyOf m = nsName (Namespace m) (Name m)"

section \<open>Claims\<close>

record ClaimEndpoint =
  Host :: string
  Port :: int

record BoilerhouseClaimSpec =
  claimTenantId :: string
  claimWorkloadRef :: string
  claimResume :: "bool option"

record BoilerhouseClaimStatus =
  claimPhase :: string
  InstanceId :: string
  Endpoint :: "ClaimEndpoint option"
  Source :: string
  ClaimedAt :: "int option"
  claimDetail :: string

record BoilerhouseClaim =
  claimMeta :: ObjectMeta
  claimSpec :: BoilerhouseClaimSpec
  claimStatus :: BoilerhouseClaimStatus

definition emptyClaimStatus :: BoilerhouseClaimStatus where
  "emptyClaimStatus = \<lparr>claimPhase = [], InstanceId = [], Endpoint = None, Source = [],
     ClaimedAt = None, claimDetail = []\<rparr>"

section \<open>Pools\<close>

record BoilerhousePoolSpec =
  poolWorkloadRef :: string
  poolSize :: int
  MaxFillConcurrency :: "int option"

record BoilerhousePoolStatus =
  poolReady :: int
  poolWarming :: int
  poolPhase :: string

record BoilerhousePool =
  poolMeta :: ObjectMeta
  poolSpec :: BoilerhousePoolSpec
  poolStatus :: BoilerhousePoolStatus

section \<open>Triggers\<close>

record TriggerTenant =
  Static :: string
  From :: string
  Prefix :: string

record TriggerGuard =
  guardType :: string
  guardConfig :: "RawExtension option"

record BoilerhouseTriggerSpec =
  triggerType :: string
  triggerWorkloadRef :: string
  triggerTenant :: "TriggerTenant option"
  triggerDriver :: string
  DriverOptions :: "RawExtension option"
  Guards :: "TriggerGuard list"
  triggerConfig :: "RawExtension option"

record BoilerhouseTriggerStatus =
  triggerPhase :: string
  triggerDetail :: string

record BoilerhouseTrigger =
  triggerMeta :: ObjectMeta
  triggerSpec :: BoilerhouseTriggerSpec
  triggerStatus :: BoilerhouseTriggerStatus

section \<open>Workloads\<close>

record WorkloadImage =
  imageRef :: string
  Dockerfile :: string

record WorkloadResources =
  VCPUs :: int
  MemoryMb :: int
  DiskGb :: int

record NetworkExposePort =
  Guest :: int

record SecretKeyRef =
  refName :: string
  refKey :: string

record HeaderValueSource =
  headerSecretKeyRef :: "SecretKeyRef option"

record HeaderEntry =
  headerName :: string
  headerValue :: string
  headerValueFrom :: "HeaderValueSource option"

record NetworkCredential =
  credDomain :: string
  credHeaders :: "HeaderEntry list"

record WorkloadNetwork =
  Access :: string
  Expose :: "NetworkExposePort list"
  Allowlist :: "string list"
  Credentials :: "NetworkCredential list"
  Websocket :: string

record WorkloadFilesystem =
  OverlayDirs :: "string list"
  EncryptOverlays :: "bool option"

record WorkloadIdle =
  TimeoutSeconds :: int
  idleAction :: string
  WatchDirs :: "string list"

record HealthHTTPGet =
  healthPath :: string
  healthPort :: int

record HealthExec =
  healthCommand :: "string list"

record WorkloadHealth =
  IntervalSeconds :: int
  UnhealthyThreshold :: int
  healthHTTPGet :: "HealthHTTPGet option"
  healthExec :: "HealthExec option"

record WorkloadEntrypoint =
  entryCmd :: string
  entryArgs :: "string list"
  entryEnv :: "RawExtension option"
  entryWorkdir :: string

record WorkloadAPIAccess =
  apiScopes :: "string list"

record BoilerhouseWorkloadSpec =
  wlVersion :: string
  wlImage :: WorkloadImage
  wlResources :: WorkloadResources
  wlNetwork :: "WorkloadNetwork option"
  wlFilesystem :: "WorkloadFilesystem option"
  wlIdle :: "WorkloadIdle option"
  wlHealth :: "WorkloadHealth option"
  wlEntrypoint :: "WorkloadEntrypoint option"
  wlAPIAccess :: "WorkloadAPIAccess option"

record BoilerhouseWorkloadStatus =
  wlPhase :: string
  wlDetail :: string
  ObservedGeneration :: int

record BoilerhouseWorkload =
  wlMeta :: ObjectMeta
  wlSpec :: BoilerhouseWorkloadSpec
  wlStatus :: BoilerhouseWorkloadStatus

text \<open>The zero values a Go variable declaration gives.\<close>

definition zeroWorkloadSpec :: BoilerhouseWorkloadSpec where
  "zeroWorkloadSpec = \<lparr>wlVersion = [], wlImage = \<lparr>imageRef = [], Dockerfile = []\<rparr>,
     wlResources = \<lparr>VCPUs = 0, MemoryMb = 0, DiskGb = 0\<rparr>, wlNetwork = None,
     wlFilesystem = None, wlIdle = None, wlHealth = None, wlEntrypoint = None,
     wlAPIAccess = None\<rparr>"

definition zeroWorkload :: BoilerhouseWorkload where
  "zeroWorkload = \<lparr>wlMeta = zeroMeta, wlSpec = zeroWorkloadSpec,
     wlStatus = \<lparr>wlPhase = [], wlDetail = [], ObservedGeneration = 0\<rparr>\<rparr>"

text \<open>The overlay directories of a workload: none without a \<open>filesystem\<close> section.\<close>

definition overlayDirs :: "BoilerhouseWorkload \<Rightarrow> string list" where
  "overlayDirs wl = (case wlFilesystem (wlSpec wl) of None \<Rightarrow> [] | Some fs \<Rightarrow> OverlayDirs fs)"

lemma overlayDirs_zero [simp]: "overlayDirs zeroWorkload = []"
  by (simp add: overlayDirs_def zeroWorkload_def zeroWorkloadSpec_def)

end
