(* ===== verification/Kube_Types.thy ===== *)
theory Kube_Types
  imports Crd_Types
begin

text \<open>
  The Kubernetes objects the program builds or reads (\<open>corev1\<close>, \<open>networkingv1\<close>), with the
  fields it uses.  A \<open>resource.Quantity\<close> is the text given to \<open>resource.MustParse\<close>; a pod
  phase is the string of \<open>corev1.PodPhase\<close>.
\<close>

section \<open>Containers\<close>

record SecretKeySelector =
  selSecret :: string
  selKey :: string

record EnvVar =
  envName :: string
  envValue :: string
  envFrom :: "SecretKeySelector option"

record ContainerPort =
  ContainerPort :: int
  portProtocol :: string

record ResourceList =
  rlCPU :: string
  rlMemory :: string

record ResourceRequirements =
  Limits :: ResourceList
  Requests :: ResourceList

record VolumeMount =
  mountName :: string
  MountPath :: string
  SubPath :: string
  mountReadOnly :: bool

record SecurityContext =
  RunAsUser :: "int option"
  capDrop :: "string list"
  capAdd :: "string list"
  AllowPrivilegeEscalation :: "bool option"
  ReadOnlyRootFilesystem :: "bool option"

datatype ProbeHandler = NoProbe | ProbeHTTPGet string int | ProbeExec "string list"

record Probe =
  PeriodSeconds :: int
  FailureThreshold :: int
  probeHandler :: ProbeHandler

record Container =
  ctrName :: string
  ctrImage :: string
  ImagePullPolicy :: string
  ctrCommand :: "string list"
  ctrArgs :: "string list"
  WorkingDir :: string
  ctrEnv :: "EnvVar list"
  ctrPorts :: "ContainerPort list"
  ctrResources :: "ResourceRequirements option"
  VolumeMounts :: "VolumeMount list"
  ctrSecurity :: "SecurityContext option"
  ReadinessProbe :: "Probe option"

section \<open>Pods\<close>

datatype VolumeSource = EmptyDir | ConfigMapVolume string | PvcVolume string

record Volume =
  volName :: string
  volSource :: VolumeSource

record PodSecurityContext =
  podRunAsNonRoot :: "bool option"
  podRunAsUser :: "int option"
  podRunAsGroup :: "int option"
  FSGroup :: "int option"
  SeccompProfile :: string

record PodSpec =
  Containers :: "Container list"
  InitContainers :: "Container list"
  Volumes :: "Volume list"
  RestartPolicy :: string
  AutomountServiceAccountToken :: "bool option"
  TerminationGracePeriodSeconds :: "int option"
  podSecurity :: "PodSecurityContext option"

record PodCondition =
  condType :: string
  condStatus :: string

record PodStatus =
  podPhase :: string
  PodIP :: string
  Conditions :: "PodCondition list"

record Pod =
  podMeta :: ObjectMeta
  podSpec :: PodSpec
  podStatus :: PodStatus

definition newPodStatus :: PodStatus where
  "newPodStatus = \<lparr>podPhase = [], PodIP = [], Conditions = []\<rparr>"

abbreviation podName :: "Pod \<Rightarrow> string" where
  "podName p \<equiv> Name (podMeta p)"

abbreviation podKey :: "Pod \<Rightarrow> NamespacedName" where
  "podKey p \<equiv> keyOf (podMeta p)"

section \<open>Other objects\<close>

record Secret =
  secretMeta :: ObjectMeta
  secretData :: "string \<rightharpoonup> string"

record ConfigMap =
  cmMeta :: ObjectMeta
  cmData :: "string \<rightharpoonup> string"

record PersistentVolumeClaim =
  pvcMeta :: ObjectMeta
  AccessModes :: "string list"
  storageRequest :: string

record ServicePort =
  svcPort :: int
  svcTargetPort :: int
  svcPortName :: string
  svcProtocol :: string

record Service =
  svcMeta :: ObjectMeta
  svcSelector :: "string \<rightharpoonup> string"
  svcPorts :: "ServicePort list"
  svcType :: string

datatype NetworkPolicyPeer = IPBlock string "string list" | AllNamespaces

record NetworkPolicyPort =
  npProtocol :: string
  npPort :: int

record EgressRule =
  egressPorts :: "NetworkPolicyPort list"
  egressTo :: "NetworkPolicyPeer list"

record NetworkPolicy =
  npMeta :: ObjectMeta
  npPodSelector :: "string \<rightharpoonup> string"
  npPolicyTypes :: "string list"
  npEgress :: "EgressRule list"

section \<open>Labels\<close>

text \<open>\<open>client.MatchingLabels\<close>: every listed label has the listed value.\<close>

definition matchesLabels :: "(string \<times> string) list \<Rightarrow> ObjectMeta \<Rightarrow> bool" where
  "matchesLabels sel m \<longleftrightarrow> list_all (\<lambda>(k, v). Labels m k = Some v) sel"

text \<open>\<open>controllerutil.ContainsFinalizer\<close>, \<open>AddFinalizer\<close>, \<open>RemoveFinalizer\<close>\<close>

definition ContainsFinalizer :: "ObjectMeta \<Rightarrow> string \<Rightarrow> bool" where
  "ContainsFinalizer m f \<longleftrightarrow> f \<in> set (Finalizers m)"

definition AddFinalizer :: "ObjectMeta \<Rightarrow> string \<Rightarrow> ObjectMeta" where
  "AddFinalizer m f = (if ContainsFinalizer m f then m else m\<lparr>Finalizers := Finalizers m @ [f]\<rparr>)"

definition RemoveFinalizer :: "ObjectMeta \<Rightarrow> string \<Rightarrow> ObjectMeta" where
  "RemoveFinalizer m f = m\<lparr>Finalizers := filter (\<lambda>x. x \<noteq> f) (Finalizers m)\<rparr>"

lemma ContainsFinalizer_Add [simp]: "ContainsFinalizer (AddFinalizer m f) f"
  by (simp add: ContainsFinalizer_def AddFinalizer_def)

lemma ContainsFinalizer_Remove [simp]: "\<not> ContainsFinalizer (RemoveFinalizer m f) f"
  by (simp add: ContainsFinalizer_def RemoveFinalizer_def)

text \<open>\<open>!DeletionTimestamp.IsZero()\<close>\<close>

definition isDeleting :: "ObjectMeta \<Rightarrow> bool" where
  "isDeleting m = (case DeletionTimestamp m of None \<Rightarrow> False | Some t \<Rightarrow> \<not> isZeroTime t)"

end
