(* ===== verification/World.thy ===== *)
theory World
  imports Kube_Types
begin

text \<open>
  The code around the program.  The Kubernetes API server (through controller-runtime's
  \<open>client.Client\<close>), \<open>kubectl\<close>, the clock, the random source, HTTP and WebSocket peers and
  the X.509 routines are not part of the repository, so they are the parameter \<open>env\<close> of
  every definition that calls them.

  An operation of the program is a computation over the trace of the calls made so far:
  each external call appends one event, its request together with the answer, and \<open>env\<close>
  answers it from the whole trace.  A value of \<open>env\<close> is thus an arbitrary environment,
  one where other actors change the cluster between two calls, updates conflict, calls
  fail and clocks jump included; a theorem for every \<open>env\<close> assumes nothing of it.

  \<open>wp\<close> is the weakest precondition of such a computation, with one rewrite rule per
  construct (collection \<open>wp_simps\<close>); \<open>emits\<close> bounds the events a computation can append
  (collection \<open>emits_intros\<close>).
\<close>

section \<open>Events\<close>

text \<open>The verbs of \<open>client.Client\<close> on one kind, with the answers.\<close>

datatype 'o kev =
    GetEv NamespacedName "err + 'o"
  | ListEv string "(string \<times> string) list" "err + 'o list"
  | CreateEv 'o "err + 'o"
  | UpdateEv 'o "err + 'o"
  | StatusEv 'o "err + 'o"
  | DeleteEv NamespacedName "err option"

datatype exec_result =
    ExecOk string string   \<comment> \<open>exit code 0, standard output, standard error\<close>
  | ExecExit int string string \<comment> \<open>another exit code, standard output, standard error\<close>
  | ExecError err          \<comment> \<open>the command did not run\<close>

record HttpRequest =
  httpMethod :: string
  httpURL :: string
  httpHeaders :: "(string \<times> string) list"
  httpBody :: "json option"

record HttpResponse =
  StatusCode :: int
  respBody :: string

record CertTemplate =
  certSerial :: string
  certCommonName :: string
  certDNSNames :: "string list"
  certNotBefore :: int
  certNotAfter :: int
  certKeyUsage :: "string list"
  certIsCA :: bool

datatype crypto_call =
    GenerateKey
  | RandomInt nat
  | CreateCertificate CertTemplate "CertTemplate + string" string string
    \<comment> \<open>template, parent (a template or a parsed certificate), key pair, signing key\<close>
  | ParseCertificate string
  | MarshalECPrivateKey string

text \<open>Calls of the program's own \<open>Snapshotter\<close> interface, observed at the caller.\<close>

datatype snap_event =
    HasEv string string "err + bool"
  | InjectEv string string string "err option"
  | ExtractEv string string string "string list" "err option"
  | DropEv string string "err option"

datatype event =
    ClaimEv "BoilerhouseClaim kev"
  | WorkloadEv "BoilerhouseWorkload kev"
  | PoolEv "BoilerhousePool kev"
  | TriggerEv "BoilerhouseTrigger kev"
  | PodEv "Pod kev"
  | SecretEv "Secret kev"
  | ConfigMapEv "ConfigMap kev"
  | PvcEv "PersistentVolumeClaim kev"
  | ServiceEv "Service kev"
  | NetworkPolicyEv "NetworkPolicy kev"
  | RandEv nat "err + string"
  | TimeEv int
  | WaitEv int bool
  | ExecEv "string list" string exec_result
  | HttpEv HttpRequest "err + HttpResponse"
  | WsDialEv string "err option"
  | WsWriteEv json "err option"
  | WsReadEv "err + json"
  | CryptoEv crypto_call "err + string"
  | SnapEv snap_event

type_synonym trace = "event list"

section \<open>The environment\<close>

record 'o kind_api =
  k_get :: "trace \<Rightarrow> NamespacedName \<Rightarrow> err + 'o"
  k_list :: "trace \<Rightarrow> string \<Rightarrow> (string \<times> string) list \<Rightarrow> err + 'o list"
  k_create :: "trace \<Rightarrow> 'o \<Rightarrow> err + 'o"
  k_update :: "trace \<Rightarrow> 'o \<Rightarrow> err + 'o"
  k_status :: "trace \<Rightarrow> 'o \<Rightarrow> err + 'o"
  k_delete :: "trace \<Rightarrow> NamespacedName \<Rightarrow> err option"

record env =
  claims :: "BoilerhouseClaim kind_api"
  workloads :: "BoilerhouseWorkload kind_api"
  pools :: "BoilerhousePool kind_api"
  triggers :: "BoilerhouseTrigger kind_api"
  pods :: "Pod kind_api"
  secrets :: "Secret kind_api"
  configMaps :: "ConfigMap kind_api"
  pvcs :: "PersistentVolumeClaim kind_api"
  rand_read :: "trace \<Rightarrow> nat \<Rightarrow> err + string"
  time_now :: "trace \<Rightarrow> int"
  timer_first :: "trace \<Rightarrow> int \<Rightarrow> bool"
    \<comment> \<open>\<open>select\<close> of \<open>ctx.Done()\<close> and a timer of this length: whether the timer came first\<close>
  run_cmd :: "trace \<Rightarrow> string list \<Rightarrow> string \<Rightarrow> exec_result"
  http_do :: "trace \<Rightarrow> HttpRequest \<Rightarrow> err + HttpResponse"
  ws_dial :: "trace \<Rightarrow> string \<Rightarrow> err option"
  ws_write :: "trace \<Rightarrow> json \<Rightarrow> err option"
  ws_read :: "trace \<Rightarrow> err + json"
  crypto :: "trace \<Rightarrow> crypto_call \<Rightarrow> err + string"
  \<comment> \<open>pure library functions\<close>
  sha256 :: "string \<Rightarrow> string"
  pem_encode :: "string \<Rightarrow> string \<Rightarrow> string"
  parse_rfc3339 :: "string \<Rightarrow> int option"
  format_rfc3339 :: "int \<Rightarrow> string"
  json_parse :: "string \<Rightarrow> rawJson"
  url_scheme :: "string \<Rightarrow> string option"
    \<comment> \<open>\<open>url.Parse\<close>: the scheme, empty for a relative URL, or the text does not parse\<close>
  parse_duration :: "string \<Rightarrow> err + int"
  \<comment> \<open>left open by the Go specification or by the other side of a connection\<close>
  int64_beyond :: "int \<Rightarrow> int"
    \<comment> \<open>\<open>int64(f)\<close> for a float64 that does not fit: amd64 gives the least \<open>int64\<close>, arm64 saturates\<close>
  shutdown_returns :: "trace \<Rightarrow> string \<Rightarrow> bool"
    \<comment> \<open>\<open>Shutdown\<close> with a context that never ends, of the HTTP server on this address: whether it returns, that is
      whether the requests in progress end\<close>

section \<open>Computations\<close>

type_synonym 'a io = "(trace, 'a) state"

abbreviation ret :: "'a \<Rightarrow> 'a io" where
  "ret \<equiv> State_Monad.return"

definition call :: "(trace \<Rightarrow> 'a) \<Rightarrow> ('a \<Rightarrow> event) \<Rightarrow> 'a io" where
  "call f ev = State (\<lambda>tr. (f tr, tr @ [ev (f tr)]))"

text \<open>What was observed so far, for what depends on it without being a call that is observed.\<close>

definition history :: "trace io" where
  "history = State (\<lambda>tr. (tr, tr))"

text \<open>Appending an observation of a call of the program's own.\<close>

definition observe :: "event \<Rightarrow> unit io" where
  "observe e = State (\<lambda>tr. ((), tr @ [e]))"

definition getObj :: "('o kev \<Rightarrow> event) \<Rightarrow> 'o kind_api \<Rightarrow> NamespacedName \<Rightarrow> (err + 'o) io" where
  "getObj ev api k = call (\<lambda>tr. k_get api tr k) (\<lambda>r. ev (GetEv k r))"

definition listObj :: "('o kev \<Rightarrow> event) \<Rightarrow> 'o kind_api \<Rightarrow> string \<Rightarrow> (string \<times> string) list
    \<Rightarrow> (err + 'o list) io" where
  "listObj ev api ns sel = call (\<lambda>tr. k_list api tr ns sel) (\<lambda>r. ev (ListEv ns sel r))"

definition createObj :: "('o kev \<Rightarrow> event) \<Rightarrow> 'o kind_api \<Rightarrow> 'o \<Rightarrow> (err + 'o) io" where
  "createObj ev api x = call (\<lambda>tr. k_create api tr x) (\<lambda>r. ev (CreateEv x r))"

definition updateObj :: "('o kev \<Rightarrow> event) \<Rightarrow> 'o kind_api \<Rightarrow> 'o \<Rightarrow> (err + 'o) io" where
  "updateObj ev api x = call (\<lambda>tr. k_update api tr x) (\<lambda>r. ev (UpdateEv x r))"

definition statusObj :: "('o kev \<Rightarrow> event) \<Rightarrow> 'o kind_api \<Rightarrow> 'o \<Rightarrow> (err + 'o) io" where
  "statusObj ev api x = call (\<lambda>tr. k_status api tr x) (\<lambda>r. ev (StatusEv x r))"

definition deleteObj :: "('o kev \<Rightarrow> event) \<Rightarrow> 'o kind_api \<Rightarrow> NamespacedName \<Rightarrow> err option io" where
  "deleteObj ev api k = call (\<lambda>tr. k_delete api tr k) (\<lambda>r. ev (DeleteEv k r))"

definition randRead :: "env \<Rightarrow> nat \<Rightarrow> (err + string) io" where
  "randRead E n = call (\<lambda>tr. rand_read E tr n) (RandEv n)"

definition timeNow :: "env \<Rightarrow> int io" where
  "timeNow E = call (time_now E) TimeEv"

definition waitTimer :: "env \<Rightarrow> int \<Rightarrow> bool io" where
  "waitTimer E d = call (\<lambda>tr. timer_first E tr d) (WaitEv d)"

definition execCmd :: "env \<Rightarrow> string list \<Rightarrow> string \<Rightarrow> exec_result io" where
  "execCmd E args stdin = call (\<lambda>tr. run_cmd E tr args stdin) (ExecEv args stdin)"

definition httpDo :: "env \<Rightarrow> HttpRequest \<Rightarrow> (err + HttpResponse) io" where
  "httpDo E q = call (\<lambda>tr. http_do E tr q) (HttpEv q)"

definition wsDial :: "env \<Rightarrow> string \<Rightarrow> err option io" where
  "wsDial E u = call (\<lambda>tr. ws_dial E tr u) (WsDialEv u)"

definition wsWrite :: "env \<Rightarrow> json \<Rightarrow> err option io" where
  "wsWrite E j = call (\<lambda>tr. ws_write E tr j) (WsWriteEv j)"

definition wsRead :: "env \<Rightarrow> (err + json) io" where
  "wsRead E = call (ws_read E) WsReadEv"

definition cryptoDo :: "env \<Rightarrow> crypto_call \<Rightarrow> (err + string) io" where
  "cryptoDo E c = call (\<lambda>tr. crypto E tr c) (CryptoEv c)"

lemmas api_defs = getObj_def listObj_def createObj_def updateObj_def statusObj_def deleteObj_def
  randRead_def timeNow_def waitTimer_def execCmd_def httpDo_def wsDial_def wsWrite_def
  wsRead_def cryptoDo_def

lemma run_call [simp]: "run_state (call f ev) tr = (f tr, tr @ [ev (f tr)])"
  by (simp add: call_def)

lemma run_observe [simp]: "run_state (observe e) tr = ((), tr @ [e])"
  by (simp add: observe_def)

lemma run_history [simp]: "run_state history tr = (tr, tr)"
  by (simp add: history_def)

section \<open>Weakest preconditions\<close>

definition wp :: "'a io \<Rightarrow> ('a \<Rightarrow> trace \<Rightarrow> bool) \<Rightarrow> trace \<Rightarrow> bool" where
  "wp m Q tr = (case run_state m tr of (a, tr') \<Rightarrow> Q a tr')"

lemma wp_ret [wp_simps]: "wp (ret a) Q tr = Q a tr"
  by (simp add: wp_def)

lemma wp_bind [wp_simps]: "wp (State_Monad.bind m f) Q tr = wp m (\<lambda>a. wp (f a) Q) tr"
  by (simp add: wp_def split: prod.splits)

lemma wp_call [wp_simps]: "wp (call f ev) Q tr = Q (f tr) (tr @ [ev (f tr)])"
  by (simp add: wp_def)

lemma wp_observe [wp_simps]: "wp (observe e) Q tr = Q () (tr @ [e])"
  by (simp add: wp_def)

lemma wp_history [wp_simps]: "wp history Q tr = Q tr tr"
  by (simp add: wp_def)

lemma wp_if [wp_simps]: "wp (if b then m else n) Q tr = (if b then wp m Q tr else wp n Q tr)"
  by simp

lemma wp_case_sum [wp_simps]:
  "wp (case x of Inl a \<Rightarrow> f a | Inr b \<Rightarrow> g b) Q tr =
     (case x of Inl a \<Rightarrow> wp (f a) Q tr | Inr b \<Rightarrow> wp (g b) Q tr)"
  by (simp split: sum.split)

lemma wp_case_option [wp_simps]:
  "wp (case x of None \<Rightarrow> m | Some a \<Rightarrow> f a) Q tr =
     (case x of None \<Rightarrow> wp m Q tr | Some a \<Rightarrow> wp (f a) Q tr)"
  by (simp split: option.split)

lemma wp_case_prod [wp_simps]:
  "wp (case x of (a, b) \<Rightarrow> f a b) Q tr = (case x of (a, b) \<Rightarrow> wp (f a b) Q tr)"
  by (simp split: prod.split)

lemma wp_case_list [wp_simps]:
  "wp (case x of [] \<Rightarrow> m | y # ys \<Rightarrow> f y ys) Q tr =
     (case x of [] \<Rightarrow> wp m Q tr | y # ys \<Rightarrow> wp (f y ys) Q tr)"
  by (simp split: list.split)

lemma wp_Let [wp_simps]: "wp (Let x f) Q tr = (let y = x in wp (f y) Q tr)"
  by simp

lemma wp_mono: "wp m P tr \<Longrightarrow> (\<And>a tr'. P a tr' \<Longrightarrow> Q a tr') \<Longrightarrow> wp m Q tr"
  by (auto simp: wp_def split: prod.splits)

lemma wp_conj: "wp m P tr \<Longrightarrow> wp m Q tr \<Longrightarrow> wp m (\<lambda>a tr'. P a tr' \<and> Q a tr') tr"
  by (auto simp: wp_def split: prod.splits)

lemma wpD: "wp m Q tr \<Longrightarrow> run_state m tr = (a, tr') \<Longrightarrow> Q a tr'"
  by (simp add: wp_def)

lemma wpI: "(\<And>a tr'. run_state m tr = (a, tr') \<Longrightarrow> Q a tr') \<Longrightarrow> wp m Q tr"
  by (simp add: wp_def split: prod.splits)

section \<open>The events a computation appends\<close>

definition result :: "'a io \<Rightarrow> trace \<Rightarrow> 'a" where
  "result m tr = fst (run_state m tr)"

definition appended :: "'a io \<Rightarrow> trace \<Rightarrow> event list" where
  "appended m tr = drop (length tr) (snd (run_state m tr))"

definition emits :: "(event \<Rightarrow> bool) \<Rightarrow> 'a io \<Rightarrow> bool" where
  "emits P m \<longleftrightarrow> (\<forall>tr. \<exists>evs. snd (run_state m tr) = tr @ evs \<and> list_all P evs)"

lemma emitsI: "(\<And>tr. \<exists>evs. snd (run_state m tr) = tr @ evs \<and> list_all P evs) \<Longrightarrow> emits P m"
  by (simp add: emits_def)

lemma emits_appended: "emits P m \<Longrightarrow> list_all P (appended m tr)"
  unfolding emits_def appended_def by (metis append_eq_conv_conj)

lemma emits_extends: "emits P m \<Longrightarrow> snd (run_state m tr) = tr @ appended m tr"
  unfolding emits_def appended_def by (metis append_eq_conv_conj)

lemma emits_run:
  "emits P m \<Longrightarrow> run_state m tr = (a, tr') \<Longrightarrow> tr' = tr @ appended m tr \<and> list_all P (appended m tr)"
  using emits_extends [of P m tr] emits_appended [of P m tr] by simp

lemma emits_wp: "emits P m \<Longrightarrow> wp m (\<lambda>a tr'. \<exists>evs. tr' = tr @ evs \<and> list_all P evs) tr"
  unfolding emits_def wp_def by (auto split: prod.splits dest!: spec [of _ tr])

text \<open>From what a computation appends to what it and the events before it are.\<close>

lemma wp_shift:
  assumes "wp m (\<lambda>r tr'. \<exists>evs. tr' = (tr @ pre) @ evs \<and> P r evs) (tr @ pre)"
    and "\<And>r evs. P r evs \<Longrightarrow> Q r (pre @ evs)"
  shows "wp m (\<lambda>r tr'. \<exists>evs. tr' = tr @ evs \<and> Q r evs) (tr @ pre)"
  by (rule wp_mono [OF assms(1)]) (use assms(2) in fastforce)

lemma emits_wpI:
  "emits P m \<Longrightarrow> (\<And>a evs. list_all P evs \<Longrightarrow> Q a (tr @ evs)) \<Longrightarrow> wp m Q tr"
  using emits_wp [of P m tr] by (auto elim: wp_mono)

lemma emits_mono: "emits P m \<Longrightarrow> (\<And>e. P e \<Longrightarrow> Q e) \<Longrightarrow> emits Q m"
  unfolding emits_def list_all_iff by metis

lemma emits_ret [emits_intros]: "emits P (ret a)"
  by (simp add: emits_def)

lemma emits_bind [emits_intros]:
  assumes "emits P m" and "\<And>a. emits P (f a)"
  shows "emits P (State_Monad.bind m f)"
proof (rule emitsI)
  fix tr
  obtain a tr1 where m: "run_state m tr = (a, tr1)" by fastforce
  obtain evs1 where "tr1 = tr @ evs1" "list_all P evs1"
    using assms(1) m unfolding emits_def by (metis snd_conv)
  moreover obtain evs2 where "snd (run_state (f a) tr1) = tr1 @ evs2" "list_all P evs2"
    using assms(2) unfolding emits_def by metis
  ultimately show "\<exists>evs. snd (run_state (State_Monad.bind m f) tr) = tr @ evs \<and> list_all P evs"
    using m by auto
qed

lemma emits_call [emits_intros]: "(\<And>r. P (ev r)) \<Longrightarrow> emits P (call f ev)"
  by (simp add: emits_def)

lemma emits_observe [emits_intros]: "P e \<Longrightarrow> emits P (observe e)"
  by (simp add: emits_def)

lemma emits_history [emits_intros]: "emits P history"
  by (simp add: emits_def)

lemma emits_if [emits_intros]:
  "(b \<Longrightarrow> emits P m) \<Longrightarrow> (\<not> b \<Longrightarrow> emits P n) \<Longrightarrow> emits P (if b then m else n)"
  by simp

lemma emits_case_sum [emits_intros]:
  "(\<And>a. x = Inl a \<Longrightarrow> emits P (f a)) \<Longrightarrow> (\<And>b. x = Inr b \<Longrightarrow> emits P (g b))
    \<Longrightarrow> emits P (case x of Inl a \<Rightarrow> f a | Inr b \<Rightarrow> g b)"
  by (simp split: sum.split)

lemma emits_case_option [emits_intros]:
  "(x = None \<Longrightarrow> emits P m) \<Longrightarrow> (\<And>a. x = Some a \<Longrightarrow> emits P (f a))
    \<Longrightarrow> emits P (case x of None \<Rightarrow> m | Some a \<Rightarrow> f a)"
  by (simp split: option.split)

lemma emits_case_list [emits_intros]:
  "(x = [] \<Longrightarrow> emits P m) \<Longrightarrow> (\<And>y ys. x = y # ys \<Longrightarrow> emits P (f y ys))
    \<Longrightarrow> emits P (case x of [] \<Rightarrow> m | y # ys \<Rightarrow> f y ys)"
  by (simp split: list.split)

lemma emits_case_prod [emits_intros]:
  "(\<And>a b. x = (a, b) \<Longrightarrow> emits P (f a b)) \<Longrightarrow> emits P (case x of (a, b) \<Rightarrow> f a b)"
  by (simp split: prod.split)

lemma emits_Let [emits_intros]: "(\<And>y. y = x \<Longrightarrow> emits P (f y)) \<Longrightarrow> emits P (Let x f)"
  by simp

text \<open>A call whose answer is constrained by the environment.\<close>

lemma emits_bind_result:
  assumes "emits P m" and "\<And>tr. emits P (f (result m tr))"
  shows "emits P (State_Monad.bind m f)"
proof (rule emitsI)
  fix tr
  obtain a tr1 where m: "run_state m tr = (a, tr1)" by fastforce
  then have a: "result m tr = a" by (simp add: result_def)
  obtain evs1 where "tr1 = tr @ evs1" "list_all P evs1"
    using assms(1) m unfolding emits_def by (metis snd_conv)
  moreover obtain evs2 where "snd (run_state (f a) tr1) = tr1 @ evs2" "list_all P evs2"
    using assms(2) [of tr] a unfolding emits_def by metis
  ultimately show "\<exists>evs. snd (run_state (State_Monad.bind m f) tr) = tr @ evs \<and> list_all P evs"
    using m by auto
qed

lemma result_getObj [simp]: "result (getObj ev api k) tr = k_get api tr k"
  by (simp add: result_def getObj_def)

lemma result_listObj [simp]: "result (listObj ev api ns sel) tr = k_list api tr ns sel"
  by (simp add: result_def listObj_def)

text \<open>The events of a whole computation, from those of its parts.\<close>

lemma appended_ret [simp]: "appended (ret a) tr = []"
  by (simp add: appended_def)

lemma appended_call [simp]: "appended (call f ev) tr = [ev (f tr)]"
  by (simp add: appended_def)

lemma wp_appended: "wp m (\<lambda>a tr'. Q a (drop (length tr) tr')) tr \<longleftrightarrow> Q (result m tr) (appended m tr)"
  by (simp add: wp_def result_def appended_def split: prod.splits)

text \<open>
  A loop over a list that stops at the first error, as \<open>for ... { if err != nil { return err } }\<close>.
\<close>

fun forEach :: "('a \<Rightarrow> (err + unit) io) \<Rightarrow> 'a list \<Rightarrow> (err + unit) io" where
  "forEach f [] = ret (Inr ())"
| "forEach f (x # xs) = do {
     r \<leftarrow> f x;
     case r of Inl e \<Rightarrow> ret (Inl e) | Inr _ \<Rightarrow> forEach f xs
   }"

lemma emits_forEach [emits_intros]:
  "(\<And>x. x \<in> set xs \<Longrightarrow> emits P (f x)) \<Longrightarrow> emits P (forEach f xs)"
  by (induction xs) (auto intro!: emits_intros)

text \<open>A part that ends a computation appends its own events after those before it.\<close>

lemma appended_after:
  assumes "emits P m" and "run_state m' tr = run_state m (tr @ evs)"
  shows "appended m' tr = evs @ appended m (tr @ evs)"
proof -
  have "snd (run_state m (tr @ evs)) = (tr @ evs) @ appended m (tr @ evs)"
    by (rule emits_extends [OF assms(1)])
  with assms(2) have "snd (run_state m' tr) = tr @ evs @ appended m (tr @ evs)" by simp
  then show ?thesis unfolding appended_def [of m'] by simp
qed

section \<open>Ordering\<close>

text \<open>Every event satisfies \<open>G\<close> of the events before it.\<close>

fun guarded :: "(event list \<Rightarrow> event \<Rightarrow> bool) \<Rightarrow> event list \<Rightarrow> event list \<Rightarrow> bool" where
  "guarded G pre [] = True"
| "guarded G pre (e # es) \<longleftrightarrow> G pre e \<and> guarded G (pre @ [e]) es"

lemma guarded_append [simp]:
  "guarded G pre (xs @ ys) \<longleftrightarrow> guarded G pre xs \<and> guarded G (pre @ xs) ys"
  by (induction xs arbitrary: pre) simp_all

lemma guarded_all: "list_all (\<lambda>e. \<forall>pre. G pre e) xs \<Longrightarrow> guarded G pre xs"
  by (induction xs arbitrary: pre) simp_all

lemma guarded_list_all: "list_all P xs \<Longrightarrow> (\<And>pre e. P e \<Longrightarrow> G pre e) \<Longrightarrow> guarded G pre xs"
  by (induction xs arbitrary: pre) simp_all

lemma guarded_from:
  assumes "list_all P xs" and "\<And>pre' e. set pre \<subseteq> set pre' \<Longrightarrow> P e \<Longrightarrow> G pre' e"
  shows "guarded G pre xs"
  using assms
proof (induction xs arbitrary: pre)
  case (Cons x xs)
  have "guarded G (pre @ [x]) xs"
    by (rule Cons.IH) (use Cons.prems in auto)
  with Cons.prems show ?case by simp
qed simp

lemma guarded_split: "guarded G [] (xs @ e # ys) \<Longrightarrow> G xs e"
  by simp

lemma guarded_mono: "guarded G pre xs \<Longrightarrow> (\<And>p e. G p e \<Longrightarrow> H p e) \<Longrightarrow> guarded H pre xs"
  by (induction xs arbitrary: pre) simp_all

lemma guarded_appendedI:
  "wp m (\<lambda>_ tr'. guarded G [] (drop (length tr) tr')) tr \<Longrightarrow> guarded G [] (appended m tr)"
  by (simp add: wp_appended [where Q = "\<lambda>_ evs. guarded G [] evs"])

text \<open>
  \<open>ordered G m\<close>: wherever \<open>m\<close> is run, the events it appends satisfy \<open>G\<close> of those before them.
\<close>

definition ordered :: "(event list \<Rightarrow> event \<Rightarrow> bool) \<Rightarrow> 'a io \<Rightarrow> bool" where
  "ordered G m \<longleftrightarrow> (\<forall>tr. \<exists>evs. snd (run_state m tr) = tr @ evs \<and> (\<forall>pre. guarded G pre evs))"

lemma ordered_emits: "emits P m \<Longrightarrow> (\<And>pre e. P e \<Longrightarrow> G pre e) \<Longrightarrow> ordered G m"
  unfolding emits_def ordered_def by (meson guarded_list_all)

lemma ordered_ret [ordered_intros]: "ordered G (ret a)"
  by (simp add: ordered_def)

lemma ordered_bind [ordered_intros]:
  assumes "ordered G m" and "\<And>a. ordered G (f a)"
  shows "ordered G (State_Monad.bind m f)"
  unfolding ordered_def
proof
  fix tr
  obtain a tr1 where m: "run_state m tr = (a, tr1)" by fastforce
  obtain evs1 where "tr1 = tr @ evs1" "\<forall>pre. guarded G pre evs1"
    using assms(1) m unfolding ordered_def by (metis snd_conv)
  moreover obtain evs2 where "snd (run_state (f a) tr1) = tr1 @ evs2" "\<forall>pre. guarded G pre evs2"
    using assms(2) unfolding ordered_def by metis
  ultimately show "\<exists>evs. snd (run_state (State_Monad.bind m f) tr) = tr @ evs \<and> (\<forall>pre. guarded G pre evs)"
    using m by (intro exI [of _ "evs1 @ evs2"]) simp
qed

text \<open>A call after whose event the rest is ordered.\<close>

lemma ordered_call_bind:
  assumes "\<And>tr. \<exists>P. emits P (k (f tr)) \<and> (\<forall>pre e. ev (f tr) \<in> set pre \<longrightarrow> P e \<longrightarrow> G pre e)"
    and "\<And>pre r. G pre (ev r)"
  shows "ordered G (State_Monad.bind (call f ev) k)"
  unfolding ordered_def
proof
  fix tr
  obtain P where P: "emits P (k (f tr))" "\<And>pre e. ev (f tr) \<in> set pre \<Longrightarrow> P e \<Longrightarrow> G pre e"
    using assms(1) by blast
  obtain evs where evs: "snd (run_state (k (f tr)) (tr @ [ev (f tr)])) = (tr @ [ev (f tr)]) @ evs" "list_all P evs"
    using P(1) unfolding emits_def by blast
  have "guarded G pre (ev (f tr) # evs)" for pre
    using assms(2) guarded_from [OF evs(2), of "pre @ [ev (f tr)]" G] P(2) by fastforce
  with evs(1) show "\<exists>evs. snd (run_state (State_Monad.bind (call f ev) k) tr) = tr @ evs \<and> (\<forall>pre. guarded G pre evs)"
    by (intro exI [of _ "ev (f tr) # evs"]) simp
qed

lemma ordered_if [ordered_intros]:
  "(b \<Longrightarrow> ordered G m) \<Longrightarrow> (\<not> b \<Longrightarrow> ordered G n) \<Longrightarrow> ordered G (if b then m else n)"
  by simp

lemma ordered_case_sum [ordered_intros]:
  "(\<And>a. x = Inl a \<Longrightarrow> ordered G (f a)) \<Longrightarrow> (\<And>b. x = Inr b \<Longrightarrow> ordered G (g b)) \<Longrightarrow>
   ordered G (case x of Inl a \<Rightarrow> f a | Inr b \<Rightarrow> g b)"
  by (simp split: sum.split)

lemma ordered_case_option [ordered_intros]:
  "(x = None \<Longrightarrow> ordered G m) \<Longrightarrow> (\<And>a. x = Some a \<Longrightarrow> ordered G (f a)) \<Longrightarrow>
   ordered G (case x of None \<Rightarrow> m | Some a \<Rightarrow> f a)"
  by (simp split: option.split)

lemma ordered_appended: "ordered G m \<Longrightarrow> guarded G pre (appended m tr)"
  unfolding ordered_def appended_def by (metis append_eq_conv_conj)

lemma guarded_take: "guarded G pre xs \<Longrightarrow> guarded G pre (take n xs)"
  using guarded_append [of G pre "take n xs" "drop n xs"] by simp

section \<open>An environment without answers\<close>

text \<open>Every call fails; a starting point for the environments of examples.\<close>

definition offline :: err where
  "offline = errorf ''offline''"

definition offlineKind :: "'o kind_api" where
  "offlineKind = \<lparr>k_get = \<lambda>_ _. Inl offline, k_list = \<lambda>_ _ _. Inl offline,
     k_create = \<lambda>_ _. Inl offline, k_update = \<lambda>_ _. Inl offline, k_status = \<lambda>_ _. Inl offline,
     k_delete = \<lambda>_ _. Some offline\<rparr>"

definition offlineEnv :: env where
  "offlineEnv = \<lparr>claims = offlineKind, workloads = offlineKind, pools = offlineKind,
     triggers = offlineKind, pods = offlineKind, secrets = offlineKind, configMaps = offlineKind,
     pvcs = offlineKind, rand_read = \<lambda>_ _. Inl offline, time_now = \<lambda>_. 0,
     timer_first = \<lambda>_ _. True, run_cmd = \<lambda>_ _ _. ExecError offline,
     http_do = \<lambda>_ _. Inl offline, ws_dial = \<lambda>_ _. Some offline, ws_write = \<lambda>_ _. Some offline,
     ws_read = \<lambda>_. Inl offline, crypto = \<lambda>_ _. Inl offline,
     sha256 = \<lambda>s. s, pem_encode = \<lambda>_ s. s, parse_rfc3339 = \<lambda>_. None,
     format_rfc3339 = \<lambda>_. [], json_parse = \<lambda>_. BadJson [], url_scheme = \<lambda>_. None,
     parse_duration = \<lambda>_. Inl offline, int64_beyond = \<lambda>_. - (2 ^ 63), shutdown_returns = \<lambda>_ _. True\<rparr>"

lemmas offline_defs = offlineEnv_def offlineKind_def

section \<open>Reconcile results\<close>

record Result =
  Requeue :: bool
  RequeueAfter :: int

definition noResult :: Result where
  "noResult = \<lparr>Requeue = False, RequeueAfter = 0\<rparr>"

definition requeueNow :: Result where
  "requeueNow = \<lparr>Requeue = True, RequeueAfter = 0\<rparr>"

definition requeueAfter :: "int \<Rightarrow> Result" where
  "requeueAfter d = \<lparr>Requeue = False, RequeueAfter = d\<rparr>"

text \<open>\<open>return reconcile.Result{}, err\<close> for the error of a call, nil included.\<close>

definition resultOf :: "err + 'a \<Rightarrow> err + Result" where
  "resultOf r = (case r of Inl e \<Rightarrow> Inl e | Inr _ \<Rightarrow> Inr noResult)"

text \<open>\<open>r.Delete(...)\<close> followed by \<open>err != nil && !apierrors.IsNotFound(err)\<close>\<close>

definition deleteFailed :: "err option \<Rightarrow> err option" where
  "deleteFailed r = (case r of None \<Rightarrow> None | Some e \<Rightarrow> if isNotFound e then None else Some e)"

lemma deleteFailed_simps [simp]:
  "deleteFailed None = None"
  "deleteFailed (Some e) = (if isNotFound e then None else Some e)"
  by (simp_all add: deleteFailed_def)

end
