(* ===== verification/Envoy_Config.thy ===== *)
theory Envoy_Config
  imports World
begin

text \<open>
  \<open>internal/envoy\<close>: the TLS material and the bootstrap YAML of the Envoy sidecar.  The
  template of \<open>config.go\<close> is rendered as \<open>text/template\<close> renders it: \<open>{{- \<close> drops the
  white space before it, and a range over a map visits the keys in sorted order.  A header
  map is the list of its assignments (\<open>mapOfEntries\<close>, \<open>sortedKeys\<close>).
\<close>

section \<open>TLS material (tls.go)\<close>

record DomainCert =
  dcDomain :: string
  dcCert :: string
  dcKey :: string

record TLSMaterial =
  CACert :: string
  CAKey :: string
  Certs :: "DomainCert list"

definition randomSerial :: "env \<Rightarrow> (err + string) io" where
  "randomSerial E = do {
     r \<leftarrow> cryptoDo E (RandomInt (2 ^ 128));
     case r of
       Inl e \<Rightarrow> ret (Inl (wrapf ''generating serial number'' e))
     | Inr s \<Rightarrow> ret (Inr s)
   }"

definition caTemplate :: "string \<Rightarrow> int \<Rightarrow> CertTemplate" where
  "caTemplate serial now = \<lparr>certSerial = serial, certCommonName = ''Boilerhouse Proxy CA'',
     certDNSNames = [], certNotBefore = now, certNotAfter = now + 365 * 24 * hour,
     certKeyUsage = [''CertSign'', ''CRLSign''], certIsCA = True\<rparr>"

definition leafTemplate :: "string \<Rightarrow> int \<Rightarrow> string \<Rightarrow> CertTemplate" where
  "leafTemplate serial now domain = \<lparr>certSerial = serial, certCommonName = domain,
     certDNSNames = [domain], certNotBefore = now, certNotAfter = now + 365 * 24 * hour,
     certKeyUsage = [''DigitalSignature'', ''ServerAuth''], certIsCA = False\<rparr>"

definition generateLeaf :: "env \<Rightarrow> string \<Rightarrow> string \<Rightarrow> int \<Rightarrow> string \<Rightarrow> (err + DomainCert) io" where
  "generateLeaf E caCert caKey now domain = do {
     r \<leftarrow> cryptoDo E GenerateKey;
     case r of
       Inl e \<Rightarrow> ret (Inl (wrapf (''generating leaf key for '' @ domain) e))
     | Inr leafKey \<Rightarrow> do {
         r \<leftarrow> randomSerial E;
         case r of
           Inl e \<Rightarrow> ret (Inl e)
         | Inr leafSerial \<Rightarrow> do {
             r \<leftarrow> cryptoDo E (CreateCertificate (leafTemplate leafSerial now domain)
                   (Inr caCert) leafKey caKey);
             case r of
               Inl e \<Rightarrow> ret (Inl (wrapf (''creating leaf certificate for '' @ domain) e))
             | Inr leafCertDER \<Rightarrow> do {
                 r \<leftarrow> cryptoDo E (MarshalECPrivateKey leafKey);
                 case r of
                   Inl e \<Rightarrow> ret (Inl (wrapf (''marshalling leaf key for '' @ domain) e))
                 | Inr leafKeyDER \<Rightarrow> ret (Inr \<lparr>dcDomain = domain,
                     dcCert = pem_encode E ''CERTIFICATE'' leafCertDER,
                     dcKey = pem_encode E ''EC PRIVATE KEY'' leafKeyDER\<rparr>)
               }
           }
       }
   }"

fun generateLeaves :: "env \<Rightarrow> string \<Rightarrow> string \<Rightarrow> int \<Rightarrow> string list \<Rightarrow> (err + DomainCert list) io" where
  "generateLeaves E caCert caKey now [] = ret (Inr [])"
| "generateLeaves E caCert caKey now (d # ds) = do {
     r \<leftarrow> generateLeaf E caCert caKey now d;
     case r of
       Inl e \<Rightarrow> ret (Inl e)
     | Inr c \<Rightarrow> do {
         r \<leftarrow> generateLeaves E caCert caKey now ds;
         case r of Inl e \<Rightarrow> ret (Inl e) | Inr cs \<Rightarrow> ret (Inr (c # cs))
       }
   }"

definition GenerateTLS :: "env \<Rightarrow> string list \<Rightarrow> (err + TLSMaterial) io" where
  "GenerateTLS E domains = do {
     r \<leftarrow> cryptoDo E GenerateKey;
     case r of
       Inl e \<Rightarrow> ret (Inl (wrapf ''generating CA key'' e))
     | Inr caKey \<Rightarrow> do {
         r \<leftarrow> randomSerial E;
         case r of
           Inl e \<Rightarrow> ret (Inl e)
         | Inr caSerial \<Rightarrow> do {
             now \<leftarrow> timeNow E;
             r \<leftarrow> cryptoDo E (CreateCertificate (caTemplate caSerial now)
                   (Inl (caTemplate caSerial now)) caKey caKey);
             case r of
               Inl e \<Rightarrow> ret (Inl (wrapf ''creating CA certificate'' e))
             | Inr caCertDER \<Rightarrow> do {
                 r \<leftarrow> cryptoDo E (MarshalECPrivateKey caKey);
                 case r of
                   Inl e \<Rightarrow> ret (Inl (wrapf ''marshalling CA key'' e))
                 | Inr caKeyDER \<Rightarrow> do {
                     r \<leftarrow> cryptoDo E (ParseCertificate caCertDER);
                     case r of
                       Inl e \<Rightarrow> ret (Inl (wrapf ''parsing CA certificate'' e))
                     | Inr caCert \<Rightarrow> do {
                         r \<leftarrow> generateLeaves E caCert caKey now domains;
                         case r of
                           Inl e \<Rightarrow> ret (Inl e)
                         | Inr cs \<Rightarrow> ret (Inr \<lparr>
                             CACert = pem_encode E ''CERTIFICATE'' caCertDER,
                             CAKey = pem_encode E ''EC PRIVATE KEY'' caKeyDER,
                             Certs = cs\<rparr>)
                       }
                   }
               }
           }
       }
   }"

section \<open>Bootstrap YAML (config.go)\<close>

record ResolvedCredential =
  rcDomain :: string
  rcHeaders :: "(string \<times> string) list"

record EnvoyConfig =
  cfgAllowlist :: "string list"
  cfgCredentials :: "ResolvedCredential list"
  cfgTLS :: "TLSMaterial option"

definition SafeDomain :: "string \<Rightarrow> string" where
  "SafeDomain domain = map (\<lambda>c. if c = CHR ''.'' \<or> c = CHR ''*'' then CHR ''_'' else c) domain"

text \<open>Lines, each after its newline; \<open>dq\<close> is a double quote.\<close>

definition lns :: "string list \<Rightarrow> string" where
  "lns ls = concat (map (\<lambda>l. CHR 0x0A # l) ls)"

definition dq :: "string \<Rightarrow> string" where
  "dq s = [CHR 0x22] @ s @ [CHR 0x22]"

definition tmplHeaders :: "(string \<times> string) list \<Rightarrow> string" where
  "tmplHeaders hs = concat (map (\<lambda>key. lns
     [''                            - header:'',
      ''                                key: '' @ dq key,
      ''                                value: '' @ dq (lookupS (mapOfEntries hs) key),
      ''                              append_action: OVERWRITE_IF_EXISTS_OR_ADD''])
     (sortedKeys hs))"

definition tmplVirtualHost :: "ResolvedCredential \<Rightarrow> string" where
  "tmplVirtualHost c = lns
     [''                    - name: '' @ SafeDomain (rcDomain c),
      ''                      domains:'',
      ''                        - '' @ dq (rcDomain c),
      ''                      routes:'',
      ''                        - match:'',
      ''                            prefix: '' @ dq ''/'',
      ''                          route:'',
      ''                            cluster: upstream_'' @ SafeDomain (rcDomain c),
      ''                            # LLM streaming responses can take minutes.'',
      ''                            timeout: 600s'',
      ''                          request_headers_to_add:'']
     @ tmplHeaders (rcHeaders c)"

definition tmplFilterChain :: "ResolvedCredential \<Rightarrow> string" where
  "tmplFilterChain c = lns
     [''        - filter_chain_match:'',
      ''            server_names:'',
      ''              - '' @ dq (rcDomain c),
      ''          transport_socket:'',
      ''            name: envoy.transport_sockets.tls'',
      ''            typed_config:'',
      ''              '' @ dq ''@type'' @ '': type.googleapis.com/envoy.extensions.transport_sockets.tls.v3.DownstreamTlsContext'',
      ''              common_tls_context:'',
      ''                tls_certificates:'',
      ''                  - certificate_chain:'',
      ''                      filename: /etc/envoy/'' @ SafeDomain (rcDomain c) @ ''.crt'',
      ''                    private_key:'',
      ''                      filename: /etc/envoy/'' @ SafeDomain (rcDomain c) @ ''.key'',
      ''          filters:'',
      ''            - name: envoy.filters.network.http_connection_manager'',
      ''              typed_config:'',
      ''                '' @ dq ''@type'' @ '': type.googleapis.com/envoy.extensions.filters.network.http_connection_manager.v3.HttpConnectionManager'',
      ''                stat_prefix: egress_tls_'' @ SafeDomain (rcDomain c),
      ''                route_config:'',
      ''                  virtual_hosts:'',
      ''                    - name: '' @ SafeDomain (rcDomain c) @ ''_tls'',
      ''                      domains:'',
      ''                        - '' @ dq (rcDomain c),
      ''                      routes:'',
      ''                        - match:'',
      ''                            prefix: '' @ dq ''/'',
      ''                          route:'',
      ''                            cluster: upstream_'' @ SafeDomain (rcDomain c),
      ''                            # LLM streaming responses can take minutes.'',
      ''                            timeout: 600s'',
      ''                          request_headers_to_add:'']
     @ tmplHeaders (rcHeaders c)
     @ lns
     [''                http_filters:'',
      ''                  - name: envoy.filters.http.router'',
      ''                    typed_config:'',
      ''                      '' @ dq ''@type'' @ '': type.googleapis.com/envoy.extensions.filters.http.router.v3.Router'']"

definition tmplCluster :: "ResolvedCredential \<Rightarrow> string" where
  "tmplCluster c = lns
     [''    - name: upstream_'' @ SafeDomain (rcDomain c),
      ''      type: STRICT_DNS'',
      ''      dns_lookup_family: V4_ONLY'',
      ''      load_assignment:'',
      ''        cluster_name: upstream_'' @ SafeDomain (rcDomain c),
      ''        endpoints:'',
      ''          - lb_endpoints:'',
      ''              - endpoint:'',
      ''                  address:'',
      ''                    socket_address:'',
      ''                      address: '' @ rcDomain c,
      ''                      port_value: 443'',
      ''      transport_socket:'',
      ''        name: envoy.transport_sockets.tls'',
      ''        typed_config:'',
      ''          '' @ dq ''@type'' @ '': type.googleapis.com/envoy.extensions.transport_sockets.tls.v3.UpstreamTlsContext'',
      ''          sni: '' @ rcDomain c]"

definition tmplHttpHead :: string where
  "tmplHttpHead = ''admin:'' @ lns
     [''  address:'',
      ''    socket_address:'',
      ''      address: 127.0.0.1'',
      ''      port_value: 18081'',
      [],
      ''static_resources:'',
      ''  listeners:'',
      ''    - name: egress_http'',
      ''      address:'',
      ''        socket_address:'',
      ''          address: 127.0.0.1'',
      ''          port_value: 18080'',
      ''      filter_chains:'',
      ''        - filters:'',
      ''            - name: envoy.filters.network.http_connection_manager'',
      ''              typed_config:'',
      ''                '' @ dq ''@type'' @ '': type.googleapis.com/envoy.extensions.filters.network.http_connection_manager.v3.HttpConnectionManager'',
      ''                stat_prefix: egress_http'',
      ''                route_config:'',
      ''                  virtual_hosts:'']"

definition tmplDenyAll :: string where
  "tmplDenyAll = lns
     [''                    - name: deny_all'',
      ''                      domains:'',
      ''                        - '' @ dq ''*'',
      ''                      routes:'',
      ''                        - match:'',
      ''                            prefix: '' @ dq ''/'',
      ''                          direct_response:'',
      ''                            status: 403'',
      ''                            body:'',
      ''                              inline_string: '' @ dq ''blocked by boilerhouse proxy'',
      ''                http_filters:'',
      ''                  - name: envoy.filters.http.router'',
      ''                    typed_config:'',
      ''                      '' @ dq ''@type'' @ '': type.googleapis.com/envoy.extensions.filters.http.router.v3.Router'']"

definition tmplTlsHead :: string where
  "tmplTlsHead = lns
     [''    - name: egress_tls'',
      ''      address:'',
      ''        socket_address:'',
      ''          address: 127.0.0.1'',
      ''          port_value: 18443'',
      ''      listener_filters:'',
      ''        - name: envoy.filters.listener.tls_inspector'',
      ''          typed_config:'',
      ''            '' @ dq ''@type'' @ '': type.googleapis.com/envoy.extensions.filters.listener.tls_inspector.v3.TlsInspector'',
      ''      filter_chains:'']"

definition envoyTemplate :: "EnvoyConfig \<Rightarrow> string" where
  "envoyTemplate cfg =
     tmplHttpHead
     @ concat (map tmplVirtualHost (cfgCredentials cfg))
     @ tmplDenyAll
     @ (case cfgTLS cfg of
          None \<Rightarrow> []
        | Some _ \<Rightarrow> tmplTlsHead @ concat (map tmplFilterChain (cfgCredentials cfg)))
     @ lns [[], ''  clusters:'']
     @ concat (map tmplCluster (cfgCredentials cfg))
     @ [CHR 0x0A]"

definition GenerateEnvoyYAML :: "EnvoyConfig \<Rightarrow> err + string" where
  "GenerateEnvoyYAML cfg = Inr (envoyTemplate cfg)"

section \<open>Lemmas\<close>

lemma length_SafeDomain [simp]: "length (SafeDomain d) = length d"
  by (simp add: SafeDomain_def)

lemma SafeDomain_chars: "CHR ''.'' \<notin> set (SafeDomain d)" "CHR ''*'' \<notin> set (SafeDomain d)"
  by (auto simp: SafeDomain_def)

lemma SafeDomain_idem [simp]: "SafeDomain (SafeDomain d) = SafeDomain d"
  by (auto simp: SafeDomain_def)

definition cryptoOnly :: "event \<Rightarrow> bool" where
  "cryptoOnly e \<longleftrightarrow> (case e of CryptoEv _ _ \<Rightarrow> True | TimeEv _ \<Rightarrow> True | _ \<Rightarrow> False)"

lemma cryptoOnly_simps [simp, quiet_simps]:
  "cryptoOnly (CryptoEv c r)" "cryptoOnly (TimeEv t)"
  by (simp_all add: cryptoOnly_def)

lemma emits_randomSerial: "emits cryptoOnly (randomSerial E)"
  by (auto simp: randomSerial_def api_defs intro!: emits_intros)

lemma emits_generateLeaf: "emits cryptoOnly (generateLeaf E cc ck now d)"
  by (auto simp: generateLeaf_def api_defs intro!: emits_intros emits_randomSerial)

lemma emits_generateLeaves: "emits cryptoOnly (generateLeaves E cc ck now ds)"
  by (induction ds) (auto intro!: emits_intros emits_generateLeaf)

lemma emits_GenerateTLS: "emits cryptoOnly (GenerateTLS E ds)"
  by (auto simp: GenerateTLS_def api_defs
      intro!: emits_intros emits_randomSerial emits_generateLeaves)

lemma wp_generateLeaf_domain:
  "wp (generateLeaf E cc ck now d) (\<lambda>r _. case r of Inl _ \<Rightarrow> True | Inr c \<Rightarrow> dcDomain c = d) tr"
  by (simp add: generateLeaf_def randomSerial_def api_defs wp_simps split: sum.splits)

lemma wp_generateLeaves_domains:
  "wp (generateLeaves E cc ck now ds)
     (\<lambda>r _. case r of Inl _ \<Rightarrow> True | Inr cs \<Rightarrow> map dcDomain cs = ds) tr"
proof (induction ds arbitrary: tr)
  case Nil
  then show ?case by (simp add: wp_simps)
next
  case (Cons d ds)
  have step: "wp (generateLeaves E cc ck now ds) (\<lambda>r. wp (case r of Inl e \<Rightarrow> ret (Inl e)
      | Inr cs \<Rightarrow> ret (Inr (c # cs))) (\<lambda>r _. case r of Inl _ \<Rightarrow> True
      | Inr cs \<Rightarrow> map dcDomain cs = d # ds)) tr'" if "dcDomain c = d" for c tr'
    by (rule wp_mono [OF Cons.IH]) (use that in \<open>auto simp: wp_simps split: sum.splits\<close>)
  show ?case
    unfolding generateLeaves.simps wp_bind
    by (rule wp_mono [OF wp_generateLeaf_domain])
       (auto simp: wp_simps step split: sum.splits)
qed

end
