(* ===== verification/Sidecar.thy ===== *)
theory Sidecar
  imports Envoy_Config
begin

text \<open>
  \<open>internal/operator/sidecar.go\<close>: the Envoy sidecar of a pod whose workload injects
  credentials, and the resolution of those credentials from Secrets of the operator's
  namespace.
\<close>

section \<open>Constants\<close>

definition EnvoyImage :: string where "EnvoyImage = ''docker.io/envoyproxy/envoy:v1.32-latest''"
definition IPTablesImage :: string where "IPTablesImage = ''docker.io/alpine:3.21''"
definition EnvoyProxyPort :: int where "EnvoyProxyPort = 18080"
definition EnvoyTLSPort :: int where "EnvoyTLSPort = 18443"
definition EnvoyAdminPort :: int where "EnvoyAdminPort = 18081"
definition EnvoyRunAsUID :: int where "EnvoyRunAsUID = 101"

record ProxyConfig =
  EnvoyYAML :: string
  pcCACert :: "string option"
  pcTLS :: "TLSMaterial option"

section \<open>Injection\<close>

definition buildIPTablesScript :: string where
  "buildIPTablesScript = Join
     [''set -eu'',
      ''apk add --no-cache -q iptables >/dev/null 2>&1'',
      ''iptables -A OUTPUT -d 169.254.0.0/16 -j DROP'',
      ''iptables -t nat -A OUTPUT -m owner --uid-owner '' @ Itoa EnvoyRunAsUID @ '' -j RETURN'',
      ''iptables -t nat -A OUTPUT -p tcp --dport 80  -j REDIRECT --to-port '' @ Itoa EnvoyProxyPort,
      ''iptables -t nat -A OUTPUT -p tcp --dport 443 -j REDIRECT --to-port '' @ Itoa EnvoyTLSPort,
      ''echo '' @ dq ''iptables rules installed'',
      []] [CHR 0x0A]"

definition initContainer :: Container where
  "initContainer = \<lparr>ctrName = ''iptables-init'', ctrImage = IPTablesImage, ImagePullPolicy = [],
     ctrCommand = [''sh'', ''-c'', buildIPTablesScript], ctrArgs = [], WorkingDir = [],
     ctrEnv = [], ctrPorts = [],
     ctrResources = Some \<lparr>Limits = \<lparr>rlCPU = ''100m'', rlMemory = ''64Mi''\<rparr>,
                          Requests = \<lparr>rlCPU = ''10m'', rlMemory = ''16Mi''\<rparr>\<rparr>,
     VolumeMounts = [],
     ctrSecurity = Some \<lparr>RunAsUser = Some 0, capDrop = [''ALL''], capAdd = [''NET_ADMIN''],
                         AllowPrivilegeEscalation = Some False, ReadOnlyRootFilesystem = None\<rparr>,
     ReadinessProbe = None\<rparr>"

definition envoyContainer :: Container where
  "envoyContainer = \<lparr>ctrName = ''envoy'', ctrImage = EnvoyImage, ImagePullPolicy = [],
     ctrCommand = [''envoy'', ''-c'', ''/etc/envoy/envoy.yaml'', ''--log-level'', ''warn''],
     ctrArgs = [], WorkingDir = [], ctrEnv = [],
     ctrPorts = [\<lparr>ContainerPort = wrap32 EnvoyProxyPort, portProtocol = ''TCP''\<rparr>,
                 \<lparr>ContainerPort = wrap32 EnvoyTLSPort, portProtocol = ''TCP''\<rparr>],
     ctrResources = Some \<lparr>Limits = \<lparr>rlCPU = ''200m'', rlMemory = ''128Mi''\<rparr>,
                          Requests = \<lparr>rlCPU = ''50m'', rlMemory = ''32Mi''\<rparr>\<rparr>,
     VolumeMounts = [\<lparr>mountName = ''proxy-config'', MountPath = ''/etc/envoy'', SubPath = [],
                      mountReadOnly = True\<rparr>],
     ctrSecurity = Some \<lparr>RunAsUser = Some EnvoyRunAsUID, capDrop = [''ALL''], capAdd = [],
                         AllowPrivilegeEscalation = Some False, ReadOnlyRootFilesystem = Some True\<rparr>,
     ReadinessProbe = None\<rparr>"

definition trustCA :: "Container \<Rightarrow> Container" where
  "trustCA c = c\<lparr>
     ctrEnv := ctrEnv c @ [\<lparr>envName = ''NODE_EXTRA_CA_CERTS'', envValue = ''/etc/envoy/ca.crt'',
                            envFrom = None\<rparr>],
     VolumeMounts := VolumeMounts c @ [\<lparr>mountName = ''proxy-config'',
                       MountPath = ''/etc/envoy/ca.crt'', SubPath = ''ca.crt'', mountReadOnly = True\<rparr>]\<rparr>"

definition InjectSidecar :: "Pod \<Rightarrow> string \<Rightarrow> Pod" where
  "InjectSidecar pod configMapName =
     (let spec = podSpec pod;
          inits = InitContainers spec @ [initContainer];
          ctrs = Containers spec @ [envoyContainer];
          vols = Volumes spec @ [\<lparr>volName = ''proxy-config'', volSource = ConfigMapVolume configMapName\<rparr>];
          ctrs' = (case ctrs of [] \<Rightarrow> [] | c # cs \<Rightarrow> trustCA c # cs)
      in pod\<lparr>podSpec := spec\<lparr>InitContainers := inits, Containers := ctrs', Volumes := vols\<rparr>\<rparr>)"

section \<open>Credentials\<close>

type_synonym secret_cache = "string \<rightharpoonup> (string \<rightharpoonup> string)"

text \<open>The value and the cache after the call (Go fills the caller's cache map in place).\<close>

definition resolveSecretKeyRef :: "env \<Rightarrow> string \<Rightarrow> SecretKeyRef option \<Rightarrow> secret_cache
    \<Rightarrow> ((err + string) \<times> secret_cache) io" where
  "resolveSecretKeyRef E ns ref cache =
     (case ref of
        None \<Rightarrow> ret (Inl (errorf ''valueFrom.secretKeyRef is nil''), cache)
      | Some ref \<Rightarrow>
          if refName ref = [] \<or> refKey ref = []
          then ret (Inl (errorf ''secretKeyRef requires name and key''), cache)
          else do {
            d \<leftarrow> (case cache (refName ref) of
                   Some data \<Rightarrow> ret (Inr data, cache)
                 | None \<Rightarrow> do {
                     r \<leftarrow> getObj SecretEv (secrets E) (nsName ns (refName ref));
                     case r of
                       Inl e \<Rightarrow> ret (Inl (wrapf (''secret '' @ Quote (refName ref)) e), cache)
                     | Inr secret \<Rightarrow>
                         ret (Inr (secretData secret), cache(refName ref \<mapsto> secretData secret))
                   });
            case d of
              (Inl e, cache') \<Rightarrow> ret (Inl e, cache')
            | (Inr data, cache') \<Rightarrow>
                (case data (refKey ref) of
                   None \<Rightarrow> ret (Inl (errorf (''secret '' @ Quote (refName ref) @ '': key '' @
                             Quote (refKey ref) @ '' not found'')), cache')
                 | Some v \<Rightarrow> ret (Inr v, cache'))
          })"

definition resolveHeader :: "env \<Rightarrow> string \<Rightarrow> string \<Rightarrow> HeaderEntry \<Rightarrow> secret_cache
    \<Rightarrow> ((err + string) \<times> secret_cache) io" where
  "resolveHeader E ns domain h cache =
     (if headerName h = []
      then ret (Inl (errorf (''credential for domain '' @ domain @ '': header entry missing name'')), cache)
      else case headerValueFrom h of
        None \<Rightarrow>
          if headerValue h = []
          then ret (Inl (errorf (''credential for domain '' @ domain @ '': header '' @
                 Quote (headerName h) @ '' has neither value nor valueFrom'')), cache)
          else ret (Inr (headerValue h), cache)
      | Some src \<Rightarrow>
          if headerValue h \<noteq> []
          then ret (Inl (errorf (''credential for domain '' @ domain @ '': header '' @
                 Quote (headerName h) @ '' sets both value and valueFrom'')), cache)
          else do {
            r \<leftarrow> resolveSecretKeyRef E ns (headerSecretKeyRef src) cache;
            case r of
              (Inl e, cache') \<Rightarrow> ret (Inl (wrapf (''credential for domain '' @ domain @
                  '', header '' @ Quote (headerName h)) e), cache')
            | (Inr v, cache') \<Rightarrow> ret (Inr v, cache')
          })"

fun resolveHeaders :: "env \<Rightarrow> string \<Rightarrow> string \<Rightarrow> HeaderEntry list \<Rightarrow> (string \<times> string) list
    \<Rightarrow> secret_cache \<Rightarrow> ((err + (string \<times> string) list) \<times> secret_cache) io" where
  "resolveHeaders E ns domain [] acc cache = ret (Inr acc, cache)"
| "resolveHeaders E ns domain (h # hs) acc cache = do {
     r \<leftarrow> resolveHeader E ns domain h cache;
     case r of
       (Inl e, cache') \<Rightarrow> ret (Inl e, cache')
     | (Inr v, cache') \<Rightarrow> resolveHeaders E ns domain hs (acc @ [(headerName h, v)]) cache'
   }"

fun resolveCredentialsFrom :: "env \<Rightarrow> string \<Rightarrow> NetworkCredential list \<Rightarrow> ResolvedCredential list
    \<Rightarrow> secret_cache \<Rightarrow> (err + ResolvedCredential list) io" where
  "resolveCredentialsFrom E ns [] acc cache = ret (Inr acc)"
| "resolveCredentialsFrom E ns (cred # creds) acc cache =
     (if credDomain cred = [] then resolveCredentialsFrom E ns creds acc cache
      else do {
        r \<leftarrow> resolveHeaders E ns (credDomain cred) (credHeaders cred) [] cache;
        case r of
          (Inl e, cache') \<Rightarrow> ret (Inl e)
        | (Inr hs, cache') \<Rightarrow> resolveCredentialsFrom E ns creds
            (acc @ [\<lparr>rcDomain = credDomain cred, rcHeaders = hs\<rparr>]) cache'
      })"

definition ResolveCredentials :: "env \<Rightarrow> string \<Rightarrow> NetworkCredential list
    \<Rightarrow> (err + ResolvedCredential list) io" where
  "ResolveCredentials E ns credentials = resolveCredentialsFrom E ns credentials [] Map.empty"

section \<open>Lemmas\<close>

subsection \<open>What resolving credentials may do\<close>

text \<open>Only Secrets of the given namespace are read, nothing else happens.\<close>

definition readsSecretIn :: "string \<Rightarrow> event \<Rightarrow> bool" where
  "readsSecretIn ns e \<longleftrightarrow>
     (case e of SecretEv (GetEv k _) \<Rightarrow> keyNamespace k = ns | _ \<Rightarrow> False)"

lemma readsSecretIn_simps [simp]: "readsSecretIn ns (SecretEv (GetEv k r)) \<longleftrightarrow> keyNamespace k = ns"
  by (simp add: readsSecretIn_def)

lemma emits_resolveSecretKeyRef: "emits (readsSecretIn ns) (resolveSecretKeyRef E ns ref cache)"
  by (auto simp: resolveSecretKeyRef_def api_defs intro!: emits_intros)

lemma emits_resolveHeader: "emits (readsSecretIn ns) (resolveHeader E ns d h cache)"
  by (auto simp: resolveHeader_def intro!: emits_intros emits_resolveSecretKeyRef)

lemma emits_resolveHeaders: "emits (readsSecretIn ns) (resolveHeaders E ns d hs acc cache)"
  by (induction hs arbitrary: acc cache) (auto intro!: emits_intros emits_resolveHeader)

lemma emits_resolveCredentialsFrom:
  "emits (readsSecretIn ns) (resolveCredentialsFrom E ns creds acc cache)"
  by (induction creds arbitrary: acc cache) (auto intro!: emits_intros emits_resolveHeaders)

lemma emits_ResolveCredentials: "emits (readsSecretIn ns) (ResolveCredentials E ns creds)"
  by (simp add: ResolveCredentials_def emits_resolveCredentialsFrom)

subsection \<open>The cache is transparent\<close>

text \<open>
  Each Secret is fetched at most once: once a name is in the cache, a later reference is
  answered from it without a call.
\<close>

lemma resolveSecretKeyRef_cached:
  assumes "cache (refName ref) = Some data" and "refName ref \<noteq> []" and "refKey ref \<noteq> []"
  shows "run_state (resolveSecretKeyRef E ns (Some ref) cache) tr =
    ((case data (refKey ref) of
        None \<Rightarrow> Inl (errorf (''secret '' @ Quote (refName ref) @ '': key '' @
                  Quote (refKey ref) @ '' not found''))
      | Some v \<Rightarrow> Inr v, cache), tr)"
  using assms by (simp add: resolveSecretKeyRef_def split: option.splits)

text \<open>The value a header gets: the literal, or the referenced key of some Secret read.\<close>

lemma wp_resolveHeader_names:
  "wp (resolveHeaders E ns d hs acc cache)
     (\<lambda>(r, _) _. case r of Inl _ \<Rightarrow> True | Inr kvs \<Rightarrow> map fst kvs = map fst acc @ map headerName hs) tr"
proof (induction hs arbitrary: acc cache tr)
  case Nil
  then show ?case by (simp add: wp_simps)
next
  case (Cons h hs)
  have step: "wp (resolveHeaders E ns d hs (acc @ [(headerName h, v)]) c)
     (\<lambda>(r, _) _. case r of Inl _ \<Rightarrow> True
        | Inr kvs \<Rightarrow> map fst kvs = map fst acc @ map headerName (h # hs)) tr'" for v c tr'
    using Cons.IH [of "acc @ [(headerName h, v)]" c tr'] by (rule wp_mono) (auto split: sum.splits)
  show ?case
    apply (simp only: resolveHeaders.simps wp_bind)
    apply (rule wpI)
    subgoal for a tr' using step by (cases a) (auto simp: wp_simps split: sum.splits)
    done
qed

subsection \<open>What injection does to a pod\<close>

lemma InjectSidecar_meta [simp]: "podMeta (InjectSidecar p cm) = podMeta p"
  by (simp add: InjectSidecar_def Let_def)

lemma InjectSidecar_status [simp]: "podStatus (InjectSidecar p cm) = podStatus p"
  by (simp add: InjectSidecar_def Let_def)

lemma InjectSidecar_containers:
  "Containers (podSpec p) = c # cs \<Longrightarrow>
   Containers (podSpec (InjectSidecar p cm)) = trustCA c # cs @ [envoyContainer]"
  by (simp add: InjectSidecar_def Let_def)

lemma InjectSidecar_inits [simp]:
  "InitContainers (podSpec (InjectSidecar p cm)) = InitContainers (podSpec p) @ [initContainer]"
  by (simp add: InjectSidecar_def Let_def)

lemma InjectSidecar_volumes [simp]:
  "Volumes (podSpec (InjectSidecar p cm)) =
     Volumes (podSpec p) @ [\<lparr>volName = ''proxy-config'', volSource = ConfigMapVolume cm\<rparr>]"
  by (simp add: InjectSidecar_def Let_def)

lemma InjectSidecar_pod_fields [simp]:
  "RestartPolicy (podSpec (InjectSidecar p cm)) = RestartPolicy (podSpec p)"
  "AutomountServiceAccountToken (podSpec (InjectSidecar p cm)) = AutomountServiceAccountToken (podSpec p)"
  "TerminationGracePeriodSeconds (podSpec (InjectSidecar p cm)) = TerminationGracePeriodSeconds (podSpec p)"
  "podSecurity (podSpec (InjectSidecar p cm)) = podSecurity (podSpec p)"
  by (simp_all add: InjectSidecar_def Let_def)

lemma trustCA_fields [simp]:
  "ctrName (trustCA c) = ctrName c" "ctrPorts (trustCA c) = ctrPorts c"
  "ctrSecurity (trustCA c) = ctrSecurity c" "ctrResources (trustCA c) = ctrResources c"
  "ctrImage (trustCA c) = ctrImage c"
  by (simp_all add: trustCA_def)

text \<open>Every credential with a domain is resolved, in order; the others are skipped.\<close>

lemma wp_resolveCredentialsFrom_domains:
  "wp (resolveCredentialsFrom E ns creds acc cache) (\<lambda>r _. case r of Inl _ \<Rightarrow> True
     | Inr rs \<Rightarrow> map rcDomain rs = map rcDomain acc @ filter (\<lambda>d. d \<noteq> []) (map credDomain creds)) tr"
proof (induction creds arbitrary: acc cache tr)
  case Nil
  then show ?case by (simp add: wp_simps)
next
  case (Cons c creds)
  have step: "wp (resolveCredentialsFrom E ns creds (acc @ [\<lparr>rcDomain = credDomain c, rcHeaders = hs\<rparr>]) cache')
     (\<lambda>r _. case r of Inl _ \<Rightarrow> True
      | Inr rs \<Rightarrow> map rcDomain rs = map rcDomain acc @ filter (\<lambda>d. d \<noteq> []) (map credDomain (c # creds))) tr'"
    if "credDomain c \<noteq> []" for hs cache' tr'
    by (rule wp_mono [OF Cons.IH]) (use that in \<open>auto split: sum.splits\<close>)
  show ?case
  proof (cases "credDomain c = []")
    case True
    then show ?thesis using Cons.IH [of acc cache] by (simp cong: sum.case_cong)
  next
    case False
    show ?thesis
      unfolding resolveCredentialsFrom.simps if_not_P [OF False] wp_bind
      by (rule wpI) (use step [OF False] in \<open>auto simp: wp_simps split: prod.splits sum.splits\<close>)
  qed
qed

end
