(* ===== verification/Translator.thy ===== *)
theory Translator
  imports Sidecar
begin

text \<open>
  \<open>internal/operator/translator.go\<close>: a workload specification becomes a Pod, a Service, a
  NetworkPolicy and, with a proxy, the sidecar and its ConfigMap.
\<close>

section \<open>Labels\<close>

definition LabelManaged :: string where "LabelManaged = ''boilerhouse.dev/managed''"
definition LabelWorkload :: string where "LabelWorkload = ''boilerhouse.dev/workload''"
definition LabelInstance :: string where "LabelInstance = ''boilerhouse.dev/instance''"
definition LabelTenant :: string where "LabelTenant = ''boilerhouse.dev/tenant''"
definition LabelPoolStatus :: string where "LabelPoolStatus = ''boilerhouse.dev/pool-status''"
definition linkLocalCIDR :: string where "linkLocalCIDR = ''169.254.0.0/16''"

lemmas label_defs = LabelManaged_def LabelWorkload_def LabelInstance_def LabelTenant_def
  LabelPoolStatus_def

lemma labels_distinct [simp]:
  "LabelManaged \<noteq> LabelWorkload" "LabelManaged \<noteq> LabelInstance" "LabelManaged \<noteq> LabelTenant"
  "LabelManaged \<noteq> LabelPoolStatus" "LabelWorkload \<noteq> LabelInstance" "LabelWorkload \<noteq> LabelTenant"
  "LabelWorkload \<noteq> LabelPoolStatus" "LabelInstance \<noteq> LabelTenant"
  "LabelInstance \<noteq> LabelPoolStatus" "LabelTenant \<noteq> LabelPoolStatus"
  "LabelWorkload \<noteq> LabelManaged" "LabelInstance \<noteq> LabelManaged" "LabelTenant \<noteq> LabelManaged"
  "LabelPoolStatus \<noteq> LabelManaged" "LabelInstance \<noteq> LabelWorkload" "LabelTenant \<noteq> LabelWorkload"
  "LabelPoolStatus \<noteq> LabelWorkload" "LabelTenant \<noteq> LabelInstance"
  "LabelPoolStatus \<noteq> LabelInstance" "LabelPoolStatus \<noteq> LabelTenant"
  by (simp_all add: label_defs)

record TranslateOpts =
  optInstanceId :: string
  WorkloadName :: string
  TenantId :: string
  optNamespace :: string
  PoolStatus :: string
  ImageRef :: string
  optProxyConfig :: "ProxyConfig option"
  ClaimTokenSecret :: string
  optAPIServiceURL :: string

record TranslateResult =
  resPod :: Pod
  resService :: "Service option"
  resNetworkPolicy :: NetworkPolicy
  resConfigMap :: "ConfigMap option"

definition buildLabels :: "TranslateOpts \<Rightarrow> (string \<rightharpoonup> string)" where
  "buildLabels opts =
     (let labels = [LabelManaged \<mapsto> ''true'', LabelWorkload \<mapsto> WorkloadName opts,
                    LabelInstance \<mapsto> optInstanceId opts];
          labels = (if TenantId opts \<noteq> [] then labels(LabelTenant \<mapsto> TenantId opts) else labels)
      in if PoolStatus opts \<noteq> [] then labels(LabelPoolStatus \<mapsto> PoolStatus opts) else labels)"

section \<open>The container\<close>

text \<open>
  \<open>json.Unmarshal\<close> into \<open>map[string]string\<close>: \<open>null\<close> leaves the map nil, a \<open>null\<close> value is
  the empty string, another value is a type error reported after the rest is decoded.
\<close>

definition jsonString :: "json \<Rightarrow> string option" where
  "jsonString j = (case j of JStr s \<Rightarrow> Some s | JNull \<Rightarrow> Some [] | _ \<Rightarrow> None)"

definition unmarshalStringMap :: "rawJson \<Rightarrow> err + (string \<times> string) list" where
  "unmarshalStringMap raw =
     (case raw of
        BadJson m \<Rightarrow> Inl (errorf m)
      | GoodJson JNull \<Rightarrow> Inr []
      | GoodJson (JObj kvs) \<Rightarrow>
          if list_all (\<lambda>(k, j). jsonString j \<noteq> None) kvs
          then Inr (map (\<lambda>(k, j). (k, the (jsonString j))) kvs)
          else Inl (errorf ''json: cannot unmarshal into Go value of type string'')
      | GoodJson _ \<Rightarrow> Inl (errorf ''json: cannot unmarshal into Go value of type map[string]string''))"

definition parseEnvVars :: "rawJson \<Rightarrow> err + EnvVar list" where
  "parseEnvVars raw =
     (case unmarshalStringMap raw of
        Inl e \<Rightarrow> Inl e
      | Inr kvs \<Rightarrow> Inr (map (\<lambda>k. \<lparr>envName = k, envValue = lookupS (mapOfEntries kvs) k,
                                     envFrom = None\<rparr>) (sortedKeys kvs)))"

definition tokenEnv :: "TranslateOpts \<Rightarrow> EnvVar list" where
  "tokenEnv opts =
     [\<lparr>envName = ''BOILERHOUSE_API_KEY'', envValue = [],
        envFrom = Some \<lparr>selSecret = ClaimTokenSecret opts, selKey = ''token''\<rparr>\<rparr>,
      \<lparr>envName = ''BOILERHOUSE_API_URL'', envValue = optAPIServiceURL opts, envFrom = None\<rparr>]"

definition buildProbe :: "WorkloadHealth \<Rightarrow> Probe" where
  "buildProbe h = \<lparr>PeriodSeconds = wrap32 (IntervalSeconds h),
     FailureThreshold = wrap32 (UnhealthyThreshold h),
     probeHandler = (case healthHTTPGet h of
         Some g \<Rightarrow> ProbeHTTPGet (healthPath g) (wrap32 (healthPort g))
       | None \<Rightarrow> (case healthExec h of
           Some x \<Rightarrow> ProbeExec (healthCommand x)
         | None \<Rightarrow> NoProbe))\<rparr>"

text \<open>The command, arguments, working directory and environment of the entrypoint.\<close>

definition applyEntrypoint :: "WorkloadEntrypoint option \<Rightarrow> Container \<Rightarrow> err + Container" where
  "applyEntrypoint ep c =
     (case ep of
        None \<Rightarrow> Inr c
      | Some ep \<Rightarrow>
          let c = (if entryCmd ep \<noteq> [] then c\<lparr>ctrCommand := [entryCmd ep]\<rparr> else c);
              c = (if entryArgs ep \<noteq> [] then c\<lparr>ctrArgs := entryArgs ep\<rparr> else c);
              c = (if entryWorkdir ep \<noteq> [] then c\<lparr>WorkingDir := entryWorkdir ep\<rparr> else c)
          in (case entryEnv ep of
                None \<Rightarrow> Inr c
              | Some ext \<Rightarrow> (case Raw ext of
                  None \<Rightarrow> Inr c
                | Some raw \<Rightarrow> (case parseEnvVars raw of
                    Inl e \<Rightarrow> Inl (wrapf ''parsing env vars'' e)
                  | Inr vars \<Rightarrow> Inr (c\<lparr>ctrEnv := vars\<rparr>)))))"

definition resourceList :: "WorkloadResources \<Rightarrow> ResourceList" where
  "resourceList r = \<lparr>rlCPU = Itoa (wrap64 (VCPUs r * 1000)) @ ''m'', rlMemory = Itoa (MemoryMb r) @ ''Mi''\<rparr>"

definition baseContainer :: "BoilerhouseWorkloadSpec \<Rightarrow> TranslateOpts \<Rightarrow> Container" where
  "baseContainer spec opts =
     \<lparr>ctrName = ''main'',
      ctrImage = (if ImageRef opts = [] then imageRef (wlImage spec) else ImageRef opts),
      ImagePullPolicy = (if Dockerfile (wlImage spec) \<noteq> [] then ''Never'' else ''IfNotPresent''),
      ctrCommand = [], ctrArgs = [], WorkingDir = [], ctrEnv = [], ctrPorts = [],
      ctrResources = Some \<lparr>Limits = resourceList (wlResources spec),
                           Requests = resourceList (wlResources spec)\<rparr>,
      VolumeMounts = [],
      ctrSecurity = Some \<lparr>RunAsUser = None, capDrop = [''ALL''], capAdd = [],
                          AllowPrivilegeEscalation = Some False, ReadOnlyRootFilesystem = None\<rparr>,
      ReadinessProbe = None\<rparr>"

definition exposedPorts :: "BoilerhouseWorkloadSpec \<Rightarrow> NetworkExposePort list" where
  "exposedPorts spec = (case wlNetwork spec of None \<Rightarrow> [] | Some n \<Rightarrow> Expose n)"

definition buildContainer :: "BoilerhouseWorkloadSpec \<Rightarrow> TranslateOpts \<Rightarrow> err + Container" where
  "buildContainer spec opts =
     (case applyEntrypoint (wlEntrypoint spec) (baseContainer spec opts) of
        Inl e \<Rightarrow> Inl e
      | Inr c \<Rightarrow>
          let c = (if ClaimTokenSecret opts \<noteq> [] then c\<lparr>ctrEnv := ctrEnv c @ tokenEnv opts\<rparr> else c);
              c = c\<lparr>ctrPorts := ctrPorts c @ map (\<lambda>p. \<lparr>ContainerPort = wrap32 (Guest p),
                      portProtocol = ''TCP''\<rparr>) (exposedPorts spec)\<rparr>
          in Inr (case wlHealth spec of None \<Rightarrow> c | Some h \<Rightarrow> c\<lparr>ReadinessProbe := Some (buildProbe h)\<rparr>))"

section \<open>The pod\<close>

definition overlayVolName :: "nat \<Rightarrow> string" where
  "overlayVolName i = ''overlay-'' @ Itoa (int i)"

definition overlayVolumes :: "string list \<Rightarrow> Volume list" where
  "overlayVolumes dirs = map (\<lambda>(i, dir). \<lparr>volName = overlayVolName i, volSource = EmptyDir\<rparr>)
     (enumerate_from 0 dirs)"

definition overlayMounts :: "string list \<Rightarrow> VolumeMount list" where
  "overlayMounts dirs = map (\<lambda>(i, dir). \<lparr>mountName = overlayVolName i, MountPath = dir, SubPath = [],
     mountReadOnly = False\<rparr>) (enumerate_from 0 dirs)"

definition buildPod :: "BoilerhouseWorkloadSpec \<Rightarrow> TranslateOpts \<Rightarrow> (string \<rightharpoonup> string) \<Rightarrow> err + Pod" where
  "buildPod spec opts labels =
     (case buildContainer spec opts of
        Inl e \<Rightarrow> Inl e
      | Inr c \<Rightarrow>
          let dirs = (case wlFilesystem spec of None \<Rightarrow> [] | Some fs \<Rightarrow> OverlayDirs fs)
          in Inr \<lparr>podMeta = (objectMeta (optInstanceId opts) (optNamespace opts))\<lparr>Labels := labels\<rparr>,
                  podSpec = \<lparr>Containers = [c\<lparr>VolumeMounts := VolumeMounts c @ overlayMounts dirs\<rparr>],
                     InitContainers = [], Volumes = overlayVolumes dirs,
                     RestartPolicy = ''Never'', AutomountServiceAccountToken = Some False,
                     TerminationGracePeriodSeconds = Some 3,
                     podSecurity = Some \<lparr>podRunAsNonRoot = None, podRunAsUser = None,
                       podRunAsGroup = None, FSGroup = None, SeccompProfile = ''RuntimeDefault''\<rparr>\<rparr>,
                  podStatus = newPodStatus\<rparr>)"

section \<open>Service and network policy\<close>

definition servicePort :: "BoilerhouseWorkloadSpec \<Rightarrow> nat \<Rightarrow> NetworkExposePort \<Rightarrow> ServicePort" where
  "servicePort spec i p = \<lparr>svcPort = wrap32 (Guest p), svcTargetPort = wrap32 (Guest p),
     svcPortName = (if length (exposedPorts spec) > 1 then ''port-'' @ Itoa (int i) else []),
     svcProtocol = ''TCP''\<rparr>"

definition buildService :: "BoilerhouseWorkloadSpec \<Rightarrow> TranslateOpts \<Rightarrow> (string \<rightharpoonup> string) \<Rightarrow> Service" where
  "buildService spec opts labels =
     \<lparr>svcMeta = (objectMeta (optInstanceId opts) (optNamespace opts))\<lparr>Labels := labels\<rparr>,
      svcSelector = [LabelInstance \<mapsto> optInstanceId opts],
      svcPorts = map (\<lambda>(i, p). servicePort spec i p) (enumerate_from 0 (exposedPorts spec)),
      svcType = ''ClusterIP''\<rparr>"

definition networkPolicyPort :: "string \<Rightarrow> int \<Rightarrow> NetworkPolicyPort" where
  "networkPolicyPort protocol p = \<lparr>npProtocol = protocol, npPort = wrap32 p\<rparr>"

definition dnsEgressRule :: EgressRule where
  "dnsEgressRule = \<lparr>egressPorts = [networkPolicyPort ''UDP'' 53, networkPolicyPort ''TCP'' 53],
     egressTo = [AllNamespaces]\<rparr>"

definition networkAccess :: "BoilerhouseWorkloadSpec \<Rightarrow> string" where
  "networkAccess spec = (case wlNetwork spec of
       None \<Rightarrow> ''none'' | Some n \<Rightarrow> if Access n \<noteq> [] then Access n else ''none'')"

definition egressRules :: "string \<Rightarrow> EgressRule list" where
  "egressRules access =
     (if access = ''unrestricted''
      then [dnsEgressRule, \<lparr>egressPorts = [], egressTo = [IPBlock ''0.0.0.0/0'' [linkLocalCIDR]]\<rparr>]
      else if access = ''restricted''
      then [dnsEgressRule, \<lparr>egressPorts = [networkPolicyPort ''TCP'' 443],
                            egressTo = [IPBlock ''0.0.0.0/0'' [linkLocalCIDR]]\<rparr>]
      else [])"

definition buildNetworkPolicy :: "BoilerhouseWorkloadSpec \<Rightarrow> TranslateOpts \<Rightarrow> (string \<rightharpoonup> string)
    \<Rightarrow> NetworkPolicy" where
  "buildNetworkPolicy spec opts labels =
     \<lparr>npMeta = (objectMeta (optInstanceId opts) (optNamespace opts))\<lparr>Labels := labels\<rparr>,
      npPodSelector = [LabelInstance \<mapsto> optInstanceId opts],
      npPolicyTypes = [''Egress''],
      npEgress = egressRules (networkAccess spec)\<rparr>"

section \<open>The proxy's ConfigMap\<close>

fun addCerts :: "DomainCert list \<Rightarrow> (string \<rightharpoonup> string) \<Rightarrow> (string \<rightharpoonup> string)" where
  "addCerts [] data = data"
| "addCerts (dc # dcs) data = addCerts dcs
     (data(SafeDomain (dcDomain dc) @ ''.crt'' \<mapsto> dcCert dc,
           SafeDomain (dcDomain dc) @ ''.key'' \<mapsto> dcKey dc))"

definition buildProxyConfigMap :: "TranslateOpts \<Rightarrow> ProxyConfig \<Rightarrow> (string \<rightharpoonup> string) \<Rightarrow> string
    \<Rightarrow> ConfigMap" where
  "buildProxyConfigMap opts pc labels name =
     (let data = [''envoy.yaml'' \<mapsto> EnvoyYAML pc];
          data = (case pcCACert pc of None \<Rightarrow> data | Some ca \<Rightarrow> data(''ca.crt'' \<mapsto> ca));
          data = (case pcTLS pc of None \<Rightarrow> data | Some tls \<Rightarrow> addCerts (Certs tls) data)
      in \<lparr>cmMeta = (objectMeta name (optNamespace opts))\<lparr>Labels := labels\<rparr>, cmData = data\<rparr>)"

section \<open>Translate\<close>

definition Translate :: "BoilerhouseWorkloadSpec \<Rightarrow> TranslateOpts \<Rightarrow> err + TranslateResult" where
  "Translate spec opts =
     (let labels = buildLabels opts
      in case buildPod spec opts labels of
           Inl e \<Rightarrow> Inl (wrapf ''building pod'' e)
         | Inr pod \<Rightarrow>
             let svc = (if exposedPorts spec \<noteq> [] then Some (buildService spec opts labels) else None);
                 np = buildNetworkPolicy spec opts labels
             in (case optProxyConfig opts of
                   None \<Rightarrow> Inr \<lparr>resPod = pod, resService = svc, resNetworkPolicy = np,
                               resConfigMap = None\<rparr>
                 | Some pc \<Rightarrow>
                     let name = ''proxy-'' @ optInstanceId opts
                     in Inr \<lparr>resPod = InjectSidecar pod name, resService = svc,
                             resNetworkPolicy = np,
                             resConfigMap = Some (buildProxyConfigMap opts pc labels name)\<rparr>))"

section \<open>Lemmas\<close>

lemma buildLabels_simps [simp]:
  "buildLabels opts LabelManaged = Some ''true''"
  "buildLabels opts LabelWorkload = Some (WorkloadName opts)"
  "buildLabels opts LabelInstance = Some (optInstanceId opts)"
  "buildLabels opts LabelTenant = (if TenantId opts = [] then None else Some (TenantId opts))"
  "buildLabels opts LabelPoolStatus = (if PoolStatus opts = [] then None else Some (PoolStatus opts))"
  by (simp_all add: buildLabels_def Let_def)

lemma applyEntrypoint_keeps:
  assumes "applyEntrypoint ep c = Inr c'"
  shows "ctrSecurity c' = ctrSecurity c" "ctrResources c' = ctrResources c"
    "ctrName c' = ctrName c" "ctrImage c' = ctrImage c" "VolumeMounts c' = VolumeMounts c"
    "ctrPorts c' = ctrPorts c" "ImagePullPolicy c' = ImagePullPolicy c"
  using assms by (auto simp: applyEntrypoint_def Let_def split: option.splits sum.splits if_splits)

lemma buildContainer_fields:
  assumes "buildContainer spec opts = Inr c"
  shows "ctrName c = ''main''" "ctrImage c = (if ImageRef opts = [] then imageRef (wlImage spec) else ImageRef opts)"
    "ctrSecurity c = ctrSecurity (baseContainer spec opts)"
    "ctrResources c = ctrResources (baseContainer spec opts)" "VolumeMounts c = []"
    "map ContainerPort (ctrPorts c) = map (wrap32 \<circ> Guest) (exposedPorts spec)"
  using assms
  by (auto simp: buildContainer_def Let_def applyEntrypoint_keeps baseContainer_def
      split: sum.splits option.splits if_splits)

text \<open>The environment: the entrypoint's variables sorted by name, then the token.\<close>

lemma parseEnvVars_sorted:
  assumes "parseEnvVars raw = Inr vars"
  shows "sorted (map envName vars)" "distinct (map envName vars)" "list_all (\<lambda>v. envFrom v = None) vars"
  using assms
  by (auto simp: parseEnvVars_def comp_def sorted_sortedKeys distinct_sortedKeys list_all_iff
      split: sum.splits)

lemma applyEntrypoint_env:
  assumes "applyEntrypoint ep c = Inr c'" and "ctrEnv c = []"
  shows "sorted (map envName (ctrEnv c')) \<and> distinct (map envName (ctrEnv c')) \<and>
     list_all (\<lambda>v. envFrom v = None) (ctrEnv c')"
  using assms
  by (auto simp: applyEntrypoint_def Let_def parseEnvVars_sorted split: option.splits sum.splits if_splits)

lemma buildContainer_env:
  assumes "buildContainer spec opts = Inr c"
  shows "\<exists>vars. ctrEnv c = vars @ (if ClaimTokenSecret opts \<noteq> [] then tokenEnv opts else []) \<and>
     sorted (map envName vars) \<and> distinct (map envName vars) \<and> list_all (\<lambda>v. envFrom v = None) vars"
proof -
  obtain c0 where c0: "applyEntrypoint (wlEntrypoint spec) (baseContainer spec opts) = Inr c0"
    using assms by (auto simp: buildContainer_def split: sum.splits)
  have "ctrEnv c = ctrEnv c0 @ (if ClaimTokenSecret opts \<noteq> [] then tokenEnv opts else [])"
    using assms by (auto simp: buildContainer_def c0 Let_def split: option.splits if_splits)
  with applyEntrypoint_env [OF c0] show ?thesis by (auto simp: baseContainer_def)
qed

lemma length_overlayVolumes [simp]: "length (overlayVolumes dirs) = length dirs"
  by (simp add: overlayVolumes_def)

lemma names_overlayVolumes: "map volName (overlayVolumes dirs) = map overlayVolName [0..<length dirs]"
proof -
  have "map volName (overlayVolumes dirs) = map overlayVolName (map fst (enumerate_from 0 dirs))"
    unfolding overlayVolumes_def by (simp add: comp_def case_prod_unfold del: map_fst_enumerate_from)
  then show ?thesis by simp
qed

lemma names_overlayMounts: "map mountName (overlayMounts dirs) = map overlayVolName [0..<length dirs]"
proof -
  have "map mountName (overlayMounts dirs) = map overlayVolName (map fst (enumerate_from 0 dirs))"
    unfolding overlayMounts_def by (simp add: comp_def case_prod_unfold del: map_fst_enumerate_from)
  then show ?thesis by simp
qed

lemma paths_overlayMounts: "map MountPath (overlayMounts dirs) = dirs"
proof -
  have "map MountPath (overlayMounts dirs) = map snd (enumerate_from 0 dirs)"
    unfolding overlayMounts_def by (simp add: comp_def case_prod_unfold del: map_snd_enumerate_from)
  then show ?thesis by simp
qed

lemma inj_overlayVolName: "inj overlayVolName"
  by (rule injI) (simp add: overlayVolName_def)

lemma overlayVolName_not_proxy [simp]: "overlayVolName i \<noteq> ''proxy-config''"
  by (simp add: overlayVolName_def)

lemma distinct_overlayVolumes: "distinct (map volName (overlayVolumes dirs))"
  by (simp add: names_overlayVolumes distinct_map inj_on_subset [OF inj_overlayVolName])

lemma buildPod_fields:
  assumes "buildPod spec opts labels = Inr p"
  obtains c where "buildContainer spec opts = Inr c"
    "Containers (podSpec p) = [c\<lparr>VolumeMounts := VolumeMounts c @ overlayMounts
        (case wlFilesystem spec of None \<Rightarrow> [] | Some fs \<Rightarrow> OverlayDirs fs)\<rparr>]"
    "InitContainers (podSpec p) = []"
    "Volumes (podSpec p) = overlayVolumes (case wlFilesystem spec of None \<Rightarrow> [] | Some fs \<Rightarrow> OverlayDirs fs)"
    "Labels (podMeta p) = labels" "podName p = optInstanceId opts"
    "Namespace (podMeta p) = optNamespace opts"
    "AutomountServiceAccountToken (podSpec p) = Some False" "RestartPolicy (podSpec p) = ''Never''"
    "podSecurity (podSpec p) = Some \<lparr>podRunAsNonRoot = None, podRunAsUser = None,
                       podRunAsGroup = None, FSGroup = None, SeccompProfile = ''RuntimeDefault''\<rparr>"
  using assms by (auto simp: buildPod_def Let_def split: sum.splits)

lemma Translate_pod:
  assumes "Translate spec opts = Inr r"
  obtains p where "buildPod spec opts (buildLabels opts) = Inr p"
    "resPod r = (if optProxyConfig opts = None then p
                 else InjectSidecar p (''proxy-'' @ optInstanceId opts))"
  using assms by (auto simp: Translate_def Let_def split: sum.splits option.splits)

lemma Translate_identity:
  assumes "Translate spec opts = Inr r"
  shows "podName (resPod r) = optInstanceId opts"
    "Namespace (podMeta (resPod r)) = optNamespace opts"
    "Labels (podMeta (resPod r)) = buildLabels opts"
  using Translate_pod [OF assms] by (metis InjectSidecar_meta buildPod_fields)+

lemma Translate_env:
  assumes "Translate spec opts = Inr r"
  shows "\<exists>vars. map ctrEnv (Containers (podSpec (resPod r))) =
      (vars @ (if ClaimTokenSecret opts \<noteq> [] then tokenEnv opts else []) @
        (if optProxyConfig opts = None then []
         else [\<lparr>envName = ''NODE_EXTRA_CA_CERTS'', envValue = ''/etc/envoy/ca.crt'', envFrom = None\<rparr>])) #
      (if optProxyConfig opts = None then [] else [[]]) \<and>
    sorted (map envName vars) \<and> distinct (map envName vars) \<and> list_all (\<lambda>v. envFrom v = None) vars"
proof -
  obtain p where p: "buildPod spec opts (buildLabels opts) = Inr p"
    and r: "resPod r = (if optProxyConfig opts = None then p else InjectSidecar p (''proxy-'' @ optInstanceId opts))"
    by (rule Translate_pod [OF assms])
  from p show ?thesis
  proof (rule buildPod_fields)
    fix c
    assume c: "buildContainer spec opts = Inr c"
      and ctrs: "Containers (podSpec p) = [c\<lparr>VolumeMounts := VolumeMounts c @ overlayMounts
        (case wlFilesystem spec of None \<Rightarrow> [] | Some fs \<Rightarrow> OverlayDirs fs)\<rparr>]"
    from buildContainer_env [OF c] obtain vars where
      "ctrEnv c = vars @ (if ClaimTokenSecret opts \<noteq> [] then tokenEnv opts else [])"
      "sorted (map envName vars)" "distinct (map envName vars)" "list_all (\<lambda>v. envFrom v = None) vars"
      by blast
    then show ?thesis
      by (intro exI [of _ vars])
        (simp add: r ctrs InjectSidecar_containers [OF ctrs] trustCA_def envoyContainer_def)
  qed
qed

text \<open>Each certificate is stored under the safe name of its domain.\<close>

lemma addCerts_other:
  "\<forall>dc \<in> set dcs. k \<noteq> SafeDomain (dcDomain dc) @ ''.crt'' \<and> k \<noteq> SafeDomain (dcDomain dc) @ ''.key'' \<Longrightarrow>
   addCerts dcs data k = data k"
  by (induction dcs data rule: addCerts.induct) simp_all

lemma addCerts_mem:
  assumes "distinct (map (\<lambda>dc. SafeDomain (dcDomain dc)) dcs)" and "dc \<in> set dcs"
  shows "addCerts dcs data (SafeDomain (dcDomain dc) @ ''.crt'') = Some (dcCert dc) \<and>
    addCerts dcs data (SafeDomain (dcDomain dc) @ ''.key'') = Some (dcKey dc)"
  using assms
proof (induction dcs data rule: addCerts.induct)
  case (2 c dcs data)
  show ?case
  proof (cases "dc \<in> set dcs")
    case True
    with 2 show ?thesis by (simp del: fun_upd_apply)
  next
    case False
    with "2.prems" have "dc = c" by simp
    with "2.prems" show ?thesis
      by (subst (1 2) addCerts.simps) (subst (1 2) addCerts_other, auto simp: image_iff)
  qed
qed simp

section \<open>Properties\<close>

definition hardened :: "string list \<Rightarrow> Container \<Rightarrow> bool" where
  "hardened added c = (case ctrSecurity c of
      None \<Rightarrow> False
    | Some s \<Rightarrow> capDrop s = [''ALL''] \<and> capAdd s = added \<and> AllowPrivilegeEscalation s = Some False)"

text \<open>
  C32. Every pod Translate builds is hardened: no service account token, never restarted, the runtime's
  seccomp profile; it has the main container and, exactly with a proxy, the envoy sidecar and the
  iptables init container; every container drops all capabilities, cannot escalate privileges, and
  only the init container gets one back, NET_ADMIN.
\<close>

theorem pod_hardening:
  assumes "Translate spec opts = Inr r"
  shows "AutomountServiceAccountToken (podSpec (resPod r)) = Some False \<and>
    RestartPolicy (podSpec (resPod r)) = ''Never'' \<and>
    map_option SeccompProfile (podSecurity (podSpec (resPod r))) = Some ''RuntimeDefault'' \<and>
    map ctrName (Containers (podSpec (resPod r))) =
      (if optProxyConfig opts = None then [''main''] else [''main'', ''envoy'']) \<and>
    map ctrName (InitContainers (podSpec (resPod r))) =
      (if optProxyConfig opts = None then [] else [''iptables-init'']) \<and>
    list_all (hardened []) (Containers (podSpec (resPod r))) \<and>
    list_all (hardened [''NET_ADMIN'']) (InitContainers (podSpec (resPod r)))"
proof -
  obtain p where p: "buildPod spec opts (buildLabels opts) = Inr p"
    and r: "resPod r = (if optProxyConfig opts = None then p else InjectSidecar p (''proxy-'' @ optInstanceId opts))"
    by (rule Translate_pod [OF assms])
  from p show ?thesis
  proof (rule buildPod_fields)
    fix c
    assume c: "buildContainer spec opts = Inr c"
      and ctrs: "Containers (podSpec p) = [c\<lparr>VolumeMounts := VolumeMounts c @ overlayMounts
        (case wlFilesystem spec of None \<Rightarrow> [] | Some fs \<Rightarrow> OverlayDirs fs)\<rparr>]"
      and "InitContainers (podSpec p) = []"
      and "AutomountServiceAccountToken (podSpec p) = Some False" "RestartPolicy (podSpec p) = ''Never''"
      and "podSecurity (podSpec p) = Some \<lparr>podRunAsNonRoot = None, podRunAsUser = None,
                       podRunAsGroup = None, FSGroup = None, SeccompProfile = ''RuntimeDefault''\<rparr>"
    with buildContainer_fields(1,3) [OF c] show ?thesis
      by (simp add: r InjectSidecar_containers [OF ctrs] hardened_def baseContainer_def
          envoyContainer_def initContainer_def)
  qed
qed

text \<open>A workload with an overlay directory, an environment and two ports, and its options.\<close>

definition exampleSpec :: BoilerhouseWorkloadSpec where
  "exampleSpec = zeroWorkloadSpec\<lparr>
     wlNetwork := Some \<lparr>Access = ''restricted'', Expose = [\<lparr>Guest = 80\<rparr>, \<lparr>Guest = 443\<rparr>],
       Allowlist = [], Credentials = [], Websocket = []\<rparr>,
     wlFilesystem := Some \<lparr>OverlayDirs = [''/workspace'', ''/home''], EncryptOverlays = None\<rparr>,
     wlEntrypoint := Some \<lparr>entryCmd = ''run'', entryArgs = [],
       entryEnv = Some \<lparr>Raw = Some (GoodJson (JObj [(''B'', JStr ''2''), (''A'', JStr ''1'')]))\<rparr>, entryWorkdir = []\<rparr>\<rparr>"

definition exampleOpts :: TranslateOpts where
  "exampleOpts = \<lparr>optInstanceId = ''w-t-1'', WorkloadName = ''w'', TenantId = ''t'',
     optNamespace = ''ns'', PoolStatus = [], ImageRef = [],
     optProxyConfig = Some \<lparr>EnvoyYAML = ''y'', pcCACert = None, pcTLS = None\<rparr>,
     ClaimTokenSecret = ''claim-key-c'', optAPIServiceURL = ''u''\<rparr>"

lemma example_translates: "Translate exampleSpec exampleOpts = Inr (projr (Translate exampleSpec exampleOpts))"
  by (simp add: Translate_def buildPod_def buildContainer_def applyEntrypoint_def exampleSpec_def
      exampleOpts_def parseEnvVars_def unmarshalStringMap_def jsonString_def Let_def zeroWorkloadSpec_def)

theorem pod_hardening_witness:
  "list_all (hardened [''NET_ADMIN''])
     (InitContainers (podSpec (resPod (projr (Translate exampleSpec exampleOpts))))) \<and>
   map ctrName (Containers (podSpec (resPod (projr (Translate exampleSpec exampleOpts))))) = [''main'', ''envoy'']"
  using pod_hardening [OF example_translates] by (simp add: exampleOpts_def)

text \<open>
  The overlay directories of a workload are mounted in the main container, in order and each on a
  volume of its own; volume names are distinct, and every volume a container mounts is declared.
\<close>

theorem overlay_volumes:
  assumes "Translate spec opts = Inr r"
  shows "distinct (map volName (Volumes (podSpec (resPod r)))) \<and>
    list_all (\<lambda>c. set (map mountName (VolumeMounts c)) \<subseteq> set (map volName (Volumes (podSpec (resPod r)))))
      (Containers (podSpec (resPod r))) \<and>
    (case wlFilesystem spec of None \<Rightarrow> [] | Some fs \<Rightarrow> OverlayDirs fs) =
      map MountPath (filter (\<lambda>m. mountName m \<noteq> ''proxy-config'') (VolumeMounts (hd (Containers (podSpec (resPod r)))))) \<and>
    distinct (map mountName (filter (\<lambda>m. mountName m \<noteq> ''proxy-config'')
      (VolumeMounts (hd (Containers (podSpec (resPod r)))))))"
proof -
  let ?dirs = "case wlFilesystem spec of None \<Rightarrow> [] | Some fs \<Rightarrow> OverlayDirs fs"
  have keep: "filter (\<lambda>m. mountName m \<noteq> ''proxy-config'') (overlayMounts ds) = overlayMounts ds" for ds
    by (auto simp: filter_id_conv overlayMounts_def)
  have names: "map mountName (overlayMounts ds) = map volName (overlayVolumes ds)" for ds
    by (simp add: names_overlayMounts names_overlayVolumes)
  obtain p where p: "buildPod spec opts (buildLabels opts) = Inr p"
    and r: "resPod r = (if optProxyConfig opts = None then p else InjectSidecar p (''proxy-'' @ optInstanceId opts))"
    by (rule Translate_pod [OF assms])
  from p show ?thesis
  proof (rule buildPod_fields)
    fix c
    assume c: "buildContainer spec opts = Inr c"
      and ctrs: "Containers (podSpec p) = [c\<lparr>VolumeMounts := VolumeMounts c @ overlayMounts ?dirs\<rparr>]"
      and vols: "Volumes (podSpec p) = overlayVolumes ?dirs"
    have new: "''proxy-config'' \<notin> set (map volName (overlayVolumes ?dirs))"
      by (simp only: names_overlayVolumes) (auto dest: sym)
    have sub: "mountName ` set (overlayMounts ?dirs) = volName ` set (overlayVolumes ?dirs)"
      using names by (metis list.set_map)
    show ?thesis
      using distinct_overlayVolumes [of ?dirs] new sub
      by (auto simp: r ctrs vols InjectSidecar_containers [OF ctrs] keep names paths_overlayMounts
          buildContainer_fields(5) [OF c] trustCA_def envoyContainer_def)
  qed
qed

theorem overlay_volumes_witness:
  "map MountPath (filter (\<lambda>m. mountName m \<noteq> ''proxy-config'')
     (VolumeMounts (hd (Containers (podSpec (resPod (projr (Translate exampleSpec exampleOpts)))))))) =
   [''/workspace'', ''/home'']"
  using overlay_volumes [OF example_translates] by (simp add: exampleSpec_def)

text \<open>
  The environment of the main container is, in this order, the entrypoint's variables as literal
  values sorted by name, the token reference and the API address exactly when there is a token
  Secret, and the CA path exactly when there is a proxy.  The only reference to a Secret is
  the key \<open>token\<close> of the claim's token Secret, and no other container has an environment.
\<close>

theorem pod_environment:
  assumes "Translate spec opts = Inr r"
  shows "\<exists>vars. map ctrEnv (Containers (podSpec (resPod r))) =
      (vars @ (if ClaimTokenSecret opts \<noteq> [] then tokenEnv opts else []) @
        (if optProxyConfig opts = None then []
         else [\<lparr>envName = ''NODE_EXTRA_CA_CERTS'', envValue = ''/etc/envoy/ca.crt'', envFrom = None\<rparr>])) #
      (if optProxyConfig opts = None then [] else [[]]) \<and>
    sorted (map envName vars) \<and> distinct (map envName vars) \<and> list_all (\<lambda>v. envFrom v = None) vars"
  by (rule Translate_env [OF assms])

theorem pod_environment_witness:
  "\<exists>vars. map ctrEnv (Containers (podSpec (resPod (projr (Translate exampleSpec exampleOpts))))) =
     [vars @ tokenEnv exampleOpts @ [\<lparr>envName = ''NODE_EXTRA_CA_CERTS'', envValue = ''/etc/envoy/ca.crt'',
        envFrom = None\<rparr>], []] \<and> sorted (map envName vars)"
  using pod_environment [OF example_translates] by (auto simp: exampleOpts_def)

text \<open>
  What a NetworkPolicy does to the egress of a pod, as documented for Kubernetes: the policy applies to the pods
  of its namespace whose labels its selector selects; it isolates them for egress when its types say so, or when it has
  no types but egress rules; an isolated pod reaches what some rule allows, the others reach everything.  In a rule no
  ports are all ports and no peers are all peers.  \<open>inCIDR\<close> tells which address blocks hold the destination, \<open>isPod\<close>
  whether it is a pod of some namespace.
\<close>

definition appliesTo :: "NetworkPolicy \<Rightarrow> ObjectMeta \<Rightarrow> bool" where
  "appliesTo np m \<longleftrightarrow> Namespace (npMeta np) = Namespace m \<and> npPodSelector np \<subseteq>\<^sub>m Labels m"

definition isolatesEgress :: "NetworkPolicy \<Rightarrow> bool" where
  "isolatesEgress np \<longleftrightarrow> ''Egress'' \<in> set (npPolicyTypes np) \<or> npPolicyTypes np = [] \<and> npEgress np \<noteq> []"

definition peerMatches :: "(string \<Rightarrow> bool) \<Rightarrow> bool \<Rightarrow> NetworkPolicyPeer \<Rightarrow> bool" where
  "peerMatches inCIDR isPod peer = (case peer of
      IPBlock cidr except \<Rightarrow> inCIDR cidr \<and> \<not> list_ex inCIDR except
    | AllNamespaces \<Rightarrow> isPod)"

definition egressAllows :: "EgressRule list \<Rightarrow> (string \<Rightarrow> bool) \<Rightarrow> bool \<Rightarrow> string \<Rightarrow> int \<Rightarrow> bool" where
  "egressAllows rules inCIDR isPod protocol port = list_ex (\<lambda>r.
     (egressPorts r = [] \<or> \<lparr>npProtocol = protocol, npPort = port\<rparr> \<in> set (egressPorts r)) \<and>
     (egressTo r = [] \<or> list_ex (peerMatches inCIDR isPod) (egressTo r))) rules"

definition podReaches :: "NetworkPolicy \<Rightarrow> ObjectMeta \<Rightarrow> (string \<Rightarrow> bool) \<Rightarrow> bool \<Rightarrow> string \<Rightarrow> int \<Rightarrow> bool" where
  "podReaches np m inCIDR isPod protocol port \<longleftrightarrow>
     \<not> (appliesTo np m \<and> isolatesEgress np) \<or> egressAllows (npEgress np) inCIDR isPod protocol port"

lemma Translate_policy:
  "Translate spec opts = Inr r \<Longrightarrow> resNetworkPolicy r = buildNetworkPolicy spec opts (buildLabels opts)"
  by (auto simp: Translate_def Let_def split: sum.splits option.splits)

lemma built_policy_applies:
  "appliesTo (buildNetworkPolicy spec opts labels) m \<longleftrightarrow>
     Namespace m = optNamespace opts \<and> Labels m ''boilerhouse.dev/instance'' = Some (optInstanceId opts)"
  by (auto simp: appliesTo_def buildNetworkPolicy_def objectMeta_def map_le_def LabelInstance_def)

text \<open>
  C30. What the NetworkPolicy of a translation lets the pod of that translation reach, exactly, by the documented meaning
  of policies: with access none, empty or unknown, or no network section, nothing; else DNS to any pod, and outside of
  the link-local block (the metadata service) every port when unrestricted and TCP 443 when restricted.  The policy
  applies to the pods of this instance in its namespace and to no others.  Policies from elsewhere are not looked at.
\<close>

theorem egress_policy:
  assumes "Translate spec opts = Inr r"
  shows "(podReaches (resNetworkPolicy r) (podMeta (resPod r)) inCIDR isPod protocol port \<longleftrightarrow>
    (case wlNetwork spec of
       None \<Rightarrow> False
     | Some n \<Rightarrow> Access n \<in> {''unrestricted'', ''restricted''} \<and>
         (isPod \<and> port = 53 \<and> protocol \<in> {''UDP'', ''TCP''} \<or>
          inCIDR ''0.0.0.0/0'' \<and> \<not> inCIDR ''169.254.0.0/16'' \<and>
            (Access n = ''unrestricted'' \<or> protocol = ''TCP'' \<and> port = 443)))) \<and>
   (appliesTo (resNetworkPolicy r) m \<longleftrightarrow>
      Namespace m = optNamespace opts \<and> Labels m ''boilerhouse.dev/instance'' = Some (optInstanceId opts))"
proof -
  have w: "wrap32 53 = 53" "wrap32 443 = 443"
    by (simp_all add: wrap32_def)
  let ?np = "buildNetworkPolicy spec opts (buildLabels opts)"
  have "appliesTo ?np (podMeta (resPod r))"
    using Translate_identity [OF assms] buildLabels_simps(3) [of opts]
    by (simp add: built_policy_applies LabelInstance_def)
  moreover have "isolatesEgress ?np" by (simp add: isolatesEgress_def buildNetworkPolicy_def)
  ultimately have "podReaches (resNetworkPolicy r) (podMeta (resPod r)) inCIDR isPod protocol port \<longleftrightarrow>
      egressAllows (egressRules (networkAccess spec)) inCIDR isPod protocol port"
    by (simp add: podReaches_def Translate_policy [OF assms]) (simp add: buildNetworkPolicy_def)
  then show ?thesis
    by (auto simp: Translate_policy [OF assms] built_policy_applies networkAccess_def egressRules_def egressAllows_def
        peerMatches_def dnsEgressRule_def networkPolicyPort_def linkLocalCIDR_def w split: option.split)
qed

theorem egress_policy_witness:
  "podReaches (resNetworkPolicy (projr (Translate exampleSpec exampleOpts)))
     (podMeta (resPod (projr (Translate exampleSpec exampleOpts)))) (\<lambda>c. c = ''0.0.0.0/0'') False ''TCP'' 443 \<and>
   \<not> podReaches (resNetworkPolicy (projr (Translate exampleSpec exampleOpts)))
     (podMeta (resPod (projr (Translate exampleSpec exampleOpts)))) (\<lambda>c. c = ''0.0.0.0/0'') False ''TCP'' 80"
  using egress_policy [OF example_translates] by (simp add: exampleSpec_def)

end
