(* ===== verification/Snapshots.thy ===== *)
theory Snapshots
  imports Translator
begin

text \<open>
  \<open>internal/operator/snapshots.go\<close>: the storage of tenant overlays.  The interface
  \<open>Snapshotter\<close> is a record of its four operations; \<open>SnapshotManager\<close> implements it with
  \<open>kubectl exec\<close> into the tenant pod and into a helper pod that mounts the snapshots volume.
  The locale \<open>overlay_storage\<close> states what the claim controller relies on, and is interpreted on
  the manager.  The shell script that writes a snapshot is also modelled as its steps on the
  files of the volume, stopped at any point.
\<close>

section \<open>Constants, checksums and paths\<close>

definition snapshotsPVCName :: string where "snapshotsPVCName = ''boilerhouse-snapshots''"
definition snapshotHelperPodName :: string where
  "snapshotHelperPodName = ''boilerhouse-snapshot-helper''"
definition snapshotHelperImage :: string where "snapshotHelperImage = ''busybox:1.36''"
definition snapshotsPVCSize :: string where "snapshotsPVCSize = ''50Gi''"
definition snapshotsMountPath :: string where "snapshotsMountPath = ''/snapshots''"
definition snapshotHelperUID :: int where "snapshotHelperUID = 65534"

definition hashArchive :: "env \<Rightarrow> string \<Rightarrow> string" where
  "hashArchive E b = hexEncode (sha256 E b)"

definition verifyArchive :: "env \<Rightarrow> string \<Rightarrow> string \<Rightarrow> err option" where
  "verifyArchive E archive sha =
     (let want = TrimSpace sha
      in if want = [] then Some (errorf ''missing checksum'')
         else let got = hashArchive E archive
              in if got \<noteq> want
                 then Some (errorf (''checksum mismatch: want '' @ want @ '', got '' @ got))
                 else None)"

definition snapshotPath :: "string \<Rightarrow> string \<Rightarrow> string" where
  "snapshotPath tenantId workloadName = ''/snapshots/'' @ tenantId @ ''/'' @ workloadName @ ''.tar.gz''"

definition snapshotSHAPath :: "string \<Rightarrow> string \<Rightarrow> string" where
  "snapshotSHAPath tenantId workloadName = snapshotPath tenantId workloadName @ ''.sha256''"

definition stripLeadingSlashes :: "string list \<Rightarrow> string list" where
  "stripLeadingSlashes dirs = map (\<lambda>d. TrimPrefix d ''/'') dirs"

section \<open>The interface and the manager's state\<close>

record snapshotter =
  HasSnapshot :: "string \<Rightarrow> string \<Rightarrow> (err + bool) io"
  InjectSnapshot :: "string \<Rightarrow> string \<Rightarrow> string \<Rightarrow> err option io"
  ExtractAndStore :: "string \<Rightarrow> string \<Rightarrow> string \<Rightarrow> string list \<Rightarrow> err option io"
  DeleteSnapshot :: "string \<Rightarrow> string \<Rightarrow> err option io"

record SnapshotManager =
  smNamespace :: string

definition NewSnapshotManager :: "string \<Rightarrow> SnapshotManager" where
  "NewSnapshotManager ns = \<lparr>smNamespace = ns\<rparr>"

text \<open>The error of \<open>cmd.Run()\<close>, wrapped with the captured standard error.\<close>

definition runError :: "string \<Rightarrow> exec_result \<Rightarrow> err option" where
  "runError what r =
     (case r of
        ExecOk out errOut \<Rightarrow> None
      | ExecExit code out stderr \<Rightarrow> Some (errorf (what @ '': exit status '' @ Itoa code @
          '' (stderr: '' @ stderr @ '')''))
      | ExecError e \<Rightarrow> Some (wrapf what (e\<lparr>err_msg := err_msg e @ '' (stderr: )''\<rparr>)))"

section \<open>The volume and the helper pod\<close>

definition snapshotsPVC :: "SnapshotManager \<Rightarrow> PersistentVolumeClaim" where
  "snapshotsPVC s = \<lparr>pvcMeta = (objectMeta snapshotsPVCName (smNamespace s))\<lparr>Labels :=
       [LabelManaged \<mapsto> ''true'']\<rparr>, AccessModes = [''ReadWriteOnce''],
     storageRequest = snapshotsPVCSize\<rparr>"

definition ensureSnapshotsPVC :: "env \<Rightarrow> SnapshotManager \<Rightarrow> err option io" where
  "ensureSnapshotsPVC E s = do {
     r \<leftarrow> getObj PvcEv (pvcs E) (nsName (smNamespace s) snapshotsPVCName);
     case r of
       Inr _ \<Rightarrow> ret None
     | Inl e \<Rightarrow>
         if \<not> isNotFound e then ret (Some (wrapf ''checking snapshots PVC'' e))
         else do {
           c \<leftarrow> createObj PvcEv (pvcs E) (snapshotsPVC s);
           ret (case c of
                  Inr _ \<Rightarrow> None
                | Inl e \<Rightarrow> if isAlreadyExists e then None
                           else Some (wrapf ''creating snapshots PVC'' e))
         }
   }"

definition helperKey :: "string \<Rightarrow> NamespacedName" where
  "helperKey ns = nsName ns snapshotHelperPodName"

definition helperPod :: "SnapshotManager \<Rightarrow> Pod" where
  "helperPod s = \<lparr>
     podMeta = (objectMeta snapshotHelperPodName (smNamespace s))\<lparr>Labels :=
       [LabelManaged \<mapsto> ''true'', ''app'' \<mapsto> ''boilerhouse-snapshot-helper'']\<rparr>,
     podSpec = \<lparr>
       Containers = [\<lparr>ctrName = ''helper'', ctrImage = snapshotHelperImage, ImagePullPolicy = [],
         ctrCommand = [''sleep'', ''infinity''], ctrArgs = [], WorkingDir = [], ctrEnv = [],
         ctrPorts = [], ctrResources = None,
         VolumeMounts = [\<lparr>mountName = ''snapshots'', MountPath = snapshotsMountPath, SubPath = [],
           mountReadOnly = False\<rparr>],
         ctrSecurity = Some \<lparr>RunAsUser = None, capDrop = [''ALL''], capAdd = [],
           AllowPrivilegeEscalation = Some False, ReadOnlyRootFilesystem = Some True\<rparr>,
         ReadinessProbe = None\<rparr>],
       InitContainers = [],
       Volumes = [\<lparr>volName = ''snapshots'', volSource = PvcVolume snapshotsPVCName\<rparr>],
       RestartPolicy = ''Always'', AutomountServiceAccountToken = Some False,
       TerminationGracePeriodSeconds = Some 1,
       podSecurity = Some \<lparr>podRunAsNonRoot = Some True, podRunAsUser = Some snapshotHelperUID,
         podRunAsGroup = Some snapshotHelperUID, FSGroup = Some snapshotHelperUID,
         SeccompProfile = ''RuntimeDefault''\<rparr>\<rparr>,
     podStatus = newPodStatus\<rparr>"

definition createHelperPod :: "env \<Rightarrow> SnapshotManager \<Rightarrow> err option io" where
  "createHelperPod E s = do {
     c \<leftarrow> createObj PodEv (pods E) (helperPod s);
     ret (case c of
            Inr _ \<Rightarrow> None
          | Inl e \<Rightarrow> if isAlreadyExists e then None else Some (wrapf ''creating helper pod'' e))
   }"

definition ensureHelperPod :: "env \<Rightarrow> SnapshotManager \<Rightarrow> err option io" where
  "ensureHelperPod E s = do {
     p \<leftarrow> ensureSnapshotsPVC E s;
     case p of
       Some e \<Rightarrow> ret (Some e)
     | None \<Rightarrow> do {
         r \<leftarrow> getObj PodEv (pods E) (helperKey (smNamespace s));
         case r of
           Inr pod \<Rightarrow>
             if podPhase (podStatus pod) = ''Running'' then ret None
             else if podPhase (podStatus pod) \<noteq> ''Pending'' then do {
               d \<leftarrow> deleteObj PodEv (pods E) (podKey pod);
               case deleteFailed d of
                 Some e \<Rightarrow> ret (Some (wrapf ''deleting failed helper pod'' e))
               | None \<Rightarrow> createHelperPod E s
             }
             else ret None
         | Inl e \<Rightarrow>
             if \<not> isNotFound e then ret (Some (wrapf ''checking helper pod'' e))
             else createHelperPod E s
       }
   }"

section \<open>Files of the volume\<close>

definition helperExec :: "SnapshotManager \<Rightarrow> string list \<Rightarrow> string list" where
  "helperExec s args = [''kubectl'', ''exec'', snapshotHelperPodName, ''-n'', smNamespace s, ''--''] @ args"

definition writeScript :: "env \<Rightarrow> string \<Rightarrow> string \<Rightarrow> string \<Rightarrow> string" where
  "writeScript E tenantId workloadName data =
     (let path = snapshotPath tenantId workloadName;
          shaPath = snapshotSHAPath tenantId workloadName;
          dir = ''/snapshots/'' @ tenantId;
          sum = hashArchive E data
      in ''set -e; mkdir -p '' @ dir @ ''; cat > '' @ path @ ''.tmp; printf '' @
         [CHR 0x27] @ ''%s'' @ [CHR 0x27] @ '' '' @ sum @ '' > '' @ shaPath @ ''.tmp; mv '' @
         path @ ''.tmp '' @ path @ ''; mv '' @ shaPath @ ''.tmp '' @ shaPath)"

definition writeArgs :: "env \<Rightarrow> SnapshotManager \<Rightarrow> string \<Rightarrow> string \<Rightarrow> string \<Rightarrow> string list" where
  "writeArgs E s tenantId workloadName data =
     [''kubectl'', ''exec'', ''-i'', snapshotHelperPodName, ''-n'', smNamespace s, ''--'', ''sh'', ''-c'',
      writeScript E tenantId workloadName data]"

definition writeToSnapshotsPVC :: "env \<Rightarrow> SnapshotManager \<Rightarrow> string \<Rightarrow> string \<Rightarrow> string
    \<Rightarrow> err option io" where
  "writeToSnapshotsPVC E s tenantId workloadName data = do {
     h \<leftarrow> ensureHelperPod E s;
     case h of
       Some e \<Rightarrow> ret (Some (wrapf ''ensuring helper pod'' e))
     | None \<Rightarrow> do {
         r \<leftarrow> execCmd E (writeArgs E s tenantId workloadName data) data;
         ret (runError (''writing snapshot '' @ snapshotPath tenantId workloadName) r)
       }
   }"

definition readFromSnapshotsPVC :: "env \<Rightarrow> SnapshotManager \<Rightarrow> string \<Rightarrow> (err + string) io" where
  "readFromSnapshotsPVC E s path = do {
     h \<leftarrow> ensureHelperPod E s;
     case h of
       Some e \<Rightarrow> ret (Inl (wrapf ''ensuring helper pod'' e))
     | None \<Rightarrow> do {
         r \<leftarrow> execCmd E (helperExec s [''cat'', path]) [];
         case r of
           ExecOk out errOut \<Rightarrow> ret (Inr out)
         | _ \<Rightarrow> ret (Inl (the (runError (''reading '' @ path) r)))
       }
   }"

definition fileExistsInPVC :: "env \<Rightarrow> SnapshotManager \<Rightarrow> string \<Rightarrow> (err + bool) io" where
  "fileExistsInPVC E s path = do {
     r \<leftarrow> execCmd E (helperExec s [''test'', ''-f'', path]) [];
     ret (case r of
            ExecOk _ _ \<Rightarrow> Inr True
          | ExecExit code _ _ \<Rightarrow> if code = 1 then Inr False
                                 else Inl (errorf (''exit status '' @ Itoa code))
          | ExecError e \<Rightarrow> Inl e)
   }"

definition readSnapshotChecksum :: "env \<Rightarrow> SnapshotManager \<Rightarrow> string \<Rightarrow> string \<Rightarrow> (err + string) io" where
  "readSnapshotChecksum E s tenantId workloadName = do {
     r \<leftarrow> readFromSnapshotsPVC E s (snapshotSHAPath tenantId workloadName);
     case r of
       Inl e \<Rightarrow> ret (Inl e)
     | Inr raw \<Rightarrow> ret (Inr (TrimSpace raw))
   }"

section \<open>The four operations\<close>

definition tarArgs :: "SnapshotManager \<Rightarrow> string \<Rightarrow> string list \<Rightarrow> string list" where
  "tarArgs s pod dirs = [''kubectl'', ''exec'', pod, ''-n'', smNamespace s, ''--'',
     ''tar'', ''czf'', ''-'', ''-C'', ''/''] @ stripLeadingSlashes dirs"

definition smExtractAndStore :: "env \<Rightarrow> SnapshotManager \<Rightarrow> string \<Rightarrow> string \<Rightarrow> string \<Rightarrow> string list
    \<Rightarrow> err option io" where
  "smExtractAndStore E s pod tenantId workloadName dirs =
     (if dirs = [] then ret None
      else do {
        r \<leftarrow> execCmd E (tarArgs s pod dirs) [];
        case r of
          ExecOk archive errOut \<Rightarrow>
            if archive = [] then ret None
            else writeToSnapshotsPVC E s tenantId workloadName archive
        | _ \<Rightarrow> ret (runError (''extract overlay from pod '' @ pod) r)
      })"

definition smHasSnapshot :: "env \<Rightarrow> SnapshotManager \<Rightarrow> string \<Rightarrow> string \<Rightarrow> (err + bool) io" where
  "smHasSnapshot E s tenantId workloadName = do {
     h \<leftarrow> ensureHelperPod E s;
     case h of
       Some e \<Rightarrow> ret (Inl (wrapf ''ensuring helper pod'' e))
     | None \<Rightarrow> fileExistsInPVC E s (snapshotPath tenantId workloadName)
   }"

definition injectArgs :: "SnapshotManager \<Rightarrow> string \<Rightarrow> string list" where
  "injectArgs s pod = [''kubectl'', ''exec'', ''-i'', pod, ''-n'', smNamespace s, ''--'',
     ''tar'', ''xzf'', ''-'', ''-C'', ''/'', ''--no-same-owner'', ''--no-same-permissions'']"

definition smInjectSnapshot :: "env \<Rightarrow> SnapshotManager \<Rightarrow> string \<Rightarrow> string \<Rightarrow> string
    \<Rightarrow> err option io" where
  "smInjectSnapshot E s pod tenantId workloadName = do {
     a \<leftarrow> readFromSnapshotsPVC E s (snapshotPath tenantId workloadName);
     case a of
       Inl e \<Rightarrow> ret (Some (wrapf ''read snapshot'' e))
     | Inr archive \<Rightarrow>
         if archive = [] then ret None
         else do {
           c \<leftarrow> readSnapshotChecksum E s tenantId workloadName;
           case c of
             Inl e \<Rightarrow> ret (Some (wrapf ''read snapshot checksum'' e))
           | Inr sha \<Rightarrow>
               (case verifyArchive E archive sha of
                  Some e \<Rightarrow> ret (Some (wrapf (''snapshot '' @ snapshotPath tenantId workloadName) e))
                | None \<Rightarrow> do {
                    r \<leftarrow> execCmd E (injectArgs s pod) archive;
                    ret (runError (''inject snapshot into pod '' @ pod) r)
                  })
         }
   }"

definition smDeleteSnapshot :: "env \<Rightarrow> SnapshotManager \<Rightarrow> string \<Rightarrow> string \<Rightarrow> err option io" where
  "smDeleteSnapshot E s tenantId workloadName = do {
     h \<leftarrow> ensureHelperPod E s;
     case h of
       Some e \<Rightarrow> ret (Some (wrapf ''ensuring helper pod'' e))
     | None \<Rightarrow> do {
         r \<leftarrow> execCmd E (helperExec s [''rm'', ''-f'', snapshotPath tenantId workloadName,
                snapshotSHAPath tenantId workloadName]) [];
         ret None
       }
   }"

definition managerSnapshotter :: "env \<Rightarrow> SnapshotManager \<Rightarrow> snapshotter" where
  "managerSnapshotter E s = \<lparr>HasSnapshot = smHasSnapshot E s, InjectSnapshot = smInjectSnapshot E s,
     ExtractAndStore = smExtractAndStore E s, DeleteSnapshot = smDeleteSnapshot E s\<rparr>"

section \<open>The contract\<close>

text \<open>
  An API server answers a Get with the object of that key; the documented behaviour some
  properties rely on.
\<close>

definition servesPods :: "env \<Rightarrow> bool" where
  "servesPods E \<longleftrightarrow> (\<forall>tr k p. k_get (pods E) tr k = Inr p \<longrightarrow> podKey p = k)"

text \<open>
  What storing snapshots may do to the cluster: look after the helper pod and the volume of
  its namespace, and run commands in pods.
\<close>

definition storageEvent :: "string \<Rightarrow> event \<Rightarrow> bool" where
  "storageEvent ns e = (case e of
      PodEv (GetEv k _) \<Rightarrow> k = helperKey ns
    | PodEv (DeleteEv k _) \<Rightarrow> k = helperKey ns
    | PodEv (CreateEv p _) \<Rightarrow> podKey p = helperKey ns
    | PvcEv (GetEv k _) \<Rightarrow> k = nsName ns snapshotsPVCName
    | PvcEv (CreateEv p _) \<Rightarrow> keyOf (pvcMeta p) = nsName ns snapshotsPVCName
    | ExecEv args _ _ \<Rightarrow> True
    | _ \<Rightarrow> False)"

lemma storageEvent_simps [simp, quiet_simps]:
  "storageEvent ns (PodEv (GetEv k r)) \<longleftrightarrow> k = helperKey ns"
  "storageEvent ns (PodEv (DeleteEv k d)) \<longleftrightarrow> k = helperKey ns"
  "storageEvent ns (PodEv (CreateEv p r)) \<longleftrightarrow> podKey p = helperKey ns"
  "\<not> storageEvent ns (PodEv (UpdateEv p r))" "\<not> storageEvent ns (PodEv (ListEv n l ps))"
  "\<not> storageEvent ns (PodEv (StatusEv p r))"
  "storageEvent ns (PvcEv (GetEv k q)) \<longleftrightarrow> k = nsName ns snapshotsPVCName"
  "storageEvent ns (PvcEv (CreateEv v q)) \<longleftrightarrow> keyOf (pvcMeta v) = nsName ns snapshotsPVCName"
  "storageEvent ns (ExecEv args stdin x)"
  "\<not> storageEvent ns (ClaimEv ce)" "\<not> storageEvent ns (WorkloadEv we)"
  "\<not> storageEvent ns (PoolEv pe)" "\<not> storageEvent ns (SecretEv se)"
  "\<not> storageEvent ns (ConfigMapEv me)" "\<not> storageEvent ns (SnapEv sn)"
  "\<not> storageEvent ns (WaitEv i b)" "\<not> storageEvent ns (TimeEv t)"
  by (simp_all add: storageEvent_def)

locale overlay_storage =
  fixes E :: env and S :: snapshotter and ns :: string
  assumes emits_has: "servesPods E \<Longrightarrow> emits (storageEvent ns) (HasSnapshot S t w)"
    and emits_inject: "servesPods E \<Longrightarrow> emits (storageEvent ns) (InjectSnapshot S p t w)"
    and emits_extract: "servesPods E \<Longrightarrow> emits (storageEvent ns) (ExtractAndStore S p t w dirs)"
    and emits_delete: "servesPods E \<Longrightarrow> emits (storageEvent ns) (DeleteSnapshot S t w)"
    and extract_nothing: "run_state (ExtractAndStore S p t w []) tr = (None, tr)"

section \<open>The manager keeps the contract\<close>

lemma keys_helperPod [simp]: "podKey (helperPod s) = helperKey (smNamespace s)"
  by (simp add: helperPod_def helperKey_def keyOf_def)

lemma keys_snapshotsPVC [simp]: "keyOf (pvcMeta (snapshotsPVC s)) = nsName (smNamespace s) snapshotsPVCName"
  by (simp add: snapshotsPVC_def keyOf_def)

lemma emits_ensureSnapshotsPVC: "emits (storageEvent (smNamespace s)) (ensureSnapshotsPVC E s)"
  by (auto simp: ensureSnapshotsPVC_def api_defs intro!: emits_intros)

lemma emits_createHelperPod: "emits (storageEvent (smNamespace s)) (createHelperPod E s)"
  by (auto simp: createHelperPod_def api_defs intro!: emits_intros)

lemma emits_ensureHelperPod:
  assumes "servesPods E"
  shows "emits (storageEvent (smNamespace s)) (ensureHelperPod E s)"
proof -
  have g: "emits (storageEvent (smNamespace s)) (getObj PodEv (pods E) (helperKey (smNamespace s)))"
    by (auto simp: getObj_def intro!: emits_intros)
  have d: "emits (storageEvent (smNamespace s)) (deleteObj PodEv (pods E) (helperKey (smNamespace s)))"
    by (auto simp: deleteObj_def intro!: emits_intros)
  show ?thesis unfolding ensureHelperPod_def
    by (rule emits_bind, rule emits_ensureSnapshotsPVC, rule emits_case_option,
        rule emits_bind_result [OF g])
      (use assms d in \<open>auto simp: servesPods_def intro!: emits_intros emits_createHelperPod\<close>)
qed

lemma emits_execCmd: "emits (storageEvent ns) (execCmd E args stdin)"
  by (auto simp: execCmd_def intro!: emits_intros)

lemma emits_case_exec:
  "(\<And>out err. emits P (f out err)) \<Longrightarrow> (\<And>c out err. emits P (g c out err)) \<Longrightarrow> (\<And>e. emits P (h e)) \<Longrightarrow>
   emits P (case r of ExecOk out err \<Rightarrow> f out err | ExecExit c out err \<Rightarrow> g c out err | ExecError e \<Rightarrow> h e)"
  by (simp split: exec_result.split)

lemmas storage_intros = emits_intros emits_ensureHelperPod emits_execCmd emits_case_exec

lemma emits_read: "servesPods E \<Longrightarrow> emits (storageEvent (smNamespace s)) (readFromSnapshotsPVC E s path)"
  by (auto simp: readFromSnapshotsPVC_def intro!: storage_intros)

lemma emits_write: "servesPods E \<Longrightarrow> emits (storageEvent (smNamespace s)) (writeToSnapshotsPVC E s t w d)"
  by (auto simp: writeToSnapshotsPVC_def intro!: storage_intros)

lemma emits_smHas: "servesPods E \<Longrightarrow> emits (storageEvent (smNamespace s)) (smHasSnapshot E s t w)"
  by (auto simp: smHasSnapshot_def fileExistsInPVC_def intro!: storage_intros)

lemma emits_smInject: "servesPods E \<Longrightarrow> emits (storageEvent (smNamespace s)) (smInjectSnapshot E s p t w)"
  by (auto simp: smInjectSnapshot_def readSnapshotChecksum_def intro!: storage_intros emits_read)

lemma emits_smExtract: "servesPods E \<Longrightarrow> emits (storageEvent (smNamespace s)) (smExtractAndStore E s p t w dirs)"
  by (auto simp: smExtractAndStore_def intro!: storage_intros emits_write)

lemma emits_smDelete: "servesPods E \<Longrightarrow> emits (storageEvent (smNamespace s)) (smDeleteSnapshot E s t w)"
  by (auto simp: smDeleteSnapshot_def intro!: storage_intros)

lemma smExtract_nothing: "smExtractAndStore E s p t w [] = ret None"
  by (simp add: smExtractAndStore_def)

interpretation manager: overlay_storage E "managerSnapshotter E s" "smNamespace s" for E s
  by unfold_locales
    (simp_all add: managerSnapshotter_def smExtract_nothing emits_smHas emits_smInject
      emits_smExtract emits_smDelete)

section \<open>Only verified archives reach a pod\<close>

lemma verifyArchive_ok: "verifyArchive E a sha = None \<longleftrightarrow> TrimSpace sha \<noteq> [] \<and> hashArchive E a = TrimSpace sha"
  by (auto simp: verifyArchive_def Let_def)

lemma isSpace_hex: "isHexDigit c \<Longrightarrow> \<not> isSpace c"
  by (auto simp: isHexDigit_def isSpace_def)

lemma TrimSpace_hash [simp]: "TrimSpace (hashArchive E a) = hashArchive E a"
proof -
  have h: "list_all isHexDigit (hashArchive E a)"
    by (simp add: hashArchive_def hexEncode_isHex)
  show ?thesis
    by (rule TrimSpace_id) (use h in \<open>auto simp: list_all_iff isSpace_hex\<close>)
qed

definition catArgs :: "SnapshotManager \<Rightarrow> string \<Rightarrow> string list" where
  "catArgs s path = helperExec s [''cat'', path]"

lemma injectArgs_not_helper: "injectArgs s p \<noteq> helperExec s args"
  by (simp add: injectArgs_def helperExec_def snapshotHelperPodName_def)

lemma injectArgs_not_cat [simp]: "injectArgs s p \<noteq> catArgs s path" "catArgs s path \<noteq> injectArgs s p"
  by (simp_all add: catArgs_def injectArgs_not_helper injectArgs_not_helper [symmetric])

definition notInject :: "SnapshotManager \<Rightarrow> string \<Rightarrow> event \<Rightarrow> bool" where
  "notInject s p e \<longleftrightarrow> (case e of ExecEv args _ _ \<Rightarrow> args \<noteq> injectArgs s p | _ \<Rightarrow> True)"

lemma notInject_simps [simp]:
  "notInject s p (ExecEv args stdin r) \<longleftrightarrow> args \<noteq> injectArgs s p"
  "notInject s p (PodEv pe)" "notInject s p (PvcEv ve)"
  by (simp_all add: notInject_def)

lemma emits_ensure_notInject: "emits (notInject s p) (ensureHelperPod E s)"
  by (auto simp: ensureHelperPod_def ensureSnapshotsPVC_def createHelperPod_def api_defs
      intro!: emits_intros)

lemma wp_readFromSnapshotsPVC:
  assumes "\<And>e evs. list_all (notInject s p) evs \<Longrightarrow> Q (Inl e) (tr @ evs)"
    and "\<And>out evs. list_all (notInject s p) evs \<Longrightarrow>
           \<exists>x. ExecEv (catArgs s path) [] (ExecOk out x) \<in> set evs \<Longrightarrow> Q (Inr out) (tr @ evs)"
  shows "wp (readFromSnapshotsPVC E s path) Q tr"
  unfolding readFromSnapshotsPVC_def
  apply (simp only: wp_bind)
  apply (rule emits_wpI [OF emits_ensure_notInject])
  using assms
  by (auto simp: wp_simps execCmd_def catArgs_def [symmetric] ex_disj_distrib split: option.split exec_result.split)

definition injectVerified :: "env \<Rightarrow> SnapshotManager \<Rightarrow> string \<Rightarrow> string \<Rightarrow> string \<Rightarrow> event list \<Rightarrow> bool" where
  "injectVerified E s p t w evs \<longleftrightarrow>
     (\<forall>a r. ExecEv (injectArgs s p) a r \<in> set evs \<longrightarrow>
        a \<noteq> [] \<and> (\<exists>x. ExecEv (catArgs s (snapshotPath t w)) [] (ExecOk a x) \<in> set evs) \<and>
        (\<exists>sha x. ExecEv (catArgs s (snapshotSHAPath t w)) [] (ExecOk sha x) \<in> set evs \<and>
               hashArchive E a = TrimSpace sha))"

lemma notInject_list: "list_all (notInject s p) evs \<Longrightarrow> ExecEv (injectArgs s p) a r \<notin> set evs"
  by (auto simp: list_all_iff)

lemma wp_smInjectSnapshot:
  "wp (smInjectSnapshot E s p t w) (\<lambda>r tr'. injectVerified E s p t w (drop (length tr) tr')) tr"
  unfolding smInjectSnapshot_def readSnapshotChecksum_def
  apply (simp only: wp_bind)
  apply (rule wp_readFromSnapshotsPVC [of s p])
  subgoal by (auto simp: wp_simps injectVerified_def notInject_list)
  subgoal for archive evs
    apply (cases "archive = []")
    subgoal by (auto simp: wp_simps injectVerified_def notInject_list)
    apply (simp only: wp_simps if_False sum.case)
    apply (rule wp_readFromSnapshotsPVC [of s p])
    subgoal by (auto simp: wp_simps injectVerified_def notInject_list)
    subgoal for sha evs'
      by (auto simp: wp_simps execCmd_def injectVerified_def notInject_list verifyArchive_ok
          split: option.split)
    done
  done

section \<open>The write script, step by step\<close>

text \<open>
  The shell script of \<open>writeToSnapshotsPVC\<close> as its steps on the files of the volume.  \<open>received\<close>
  is what reaches the script's standard input: all of the archive, or the part of it that came
  through before the stream was cut.
\<close>

datatype fs_step = MkdirP string | WriteFile string string | Rename string string

definition scriptSteps :: "env \<Rightarrow> string \<Rightarrow> string \<Rightarrow> string \<Rightarrow> string \<Rightarrow> fs_step list" where
  "scriptSteps E tenantId workloadName data received =
     (let path = snapshotPath tenantId workloadName;
          shaPath = snapshotSHAPath tenantId workloadName
      in [MkdirP (''/snapshots/'' @ tenantId),
          WriteFile (path @ ''.tmp'') received,
          WriteFile (shaPath @ ''.tmp'') (hashArchive E data),
          Rename (path @ ''.tmp'') path,
          Rename (shaPath @ ''.tmp'') shaPath])"

fun fsStep :: "fs_step \<Rightarrow> (string \<rightharpoonup> string) \<Rightarrow> (string \<rightharpoonup> string)" where
  "fsStep (MkdirP d) fs = fs"
| "fsStep (WriteFile f c) fs = fs(f \<mapsto> c)"
| "fsStep (Rename f g) fs = (fs(g := fs f))(f := None)"

fun fsSteps :: "fs_step list \<Rightarrow> (string \<rightharpoonup> string) \<Rightarrow> (string \<rightharpoonup> string)" where
  "fsSteps [] fs = fs"
| "fsSteps (x # xs) fs = fsSteps xs (fsStep x fs)"

text \<open>What \<open>InjectSnapshot\<close> would stream from these files: a non-empty archive that verifies.\<close>

definition storedSnapshot :: "env \<Rightarrow> string \<Rightarrow> string \<Rightarrow> (string \<rightharpoonup> string) \<Rightarrow> string option" where
  "storedSnapshot E t w fs =
     (case (fs (snapshotPath t w), fs (snapshotSHAPath t w)) of
        (Some a, Some sha) \<Rightarrow> if a \<noteq> [] \<and> verifyArchive E a (TrimSpace sha) = None then Some a else None
      | _ \<Rightarrow> None)"

lemma paths_differ [simp]:
  "snapshotPath t w \<noteq> snapshotSHAPath t w" "snapshotSHAPath t w \<noteq> snapshotPath t w"
  "snapshotPath t w @ x # xs \<noteq> snapshotPath t w" "snapshotSHAPath t w @ x # xs \<noteq> snapshotSHAPath t w"
  "snapshotPath t w \<noteq> snapshotPath t w @ x # xs" "snapshotSHAPath t w \<noteq> snapshotSHAPath t w @ x # xs"
  "snapshotPath t w @ ''.tmp'' \<noteq> snapshotSHAPath t w @ ''.tmp''"
  "snapshotSHAPath t w @ ''.tmp'' \<noteq> snapshotPath t w @ ''.tmp''"
  "snapshotPath t w @ ''.tmp'' \<noteq> snapshotSHAPath t w" "snapshotSHAPath t w \<noteq> snapshotPath t w @ ''.tmp''"
  "snapshotSHAPath t w @ ''.tmp'' \<noteq> snapshotPath t w" "snapshotPath t w \<noteq> snapshotSHAPath t w @ ''.tmp''"
  by (simp_all add: snapshotSHAPath_def)

lemma fsSteps_prefixes:
  "k < 6 \<Longrightarrow>
   (fsSteps (take k (scriptSteps E t w data received)) fs (snapshotPath t w),
    fsSteps (take k (scriptSteps E t w data received)) fs (snapshotSHAPath t w)) =
   (if k < 4 then (fs (snapshotPath t w), fs (snapshotSHAPath t w))
    else if k = 4 then (Some received, fs (snapshotSHAPath t w))
    else (Some received, Some (hashArchive E data)))"
  by (auto simp: scriptSteps_def Let_def less_Suc_eq numeral_eq_Suc)

section \<open>Properties\<close>

text \<open>
  C10. Whatever the helper pod answers, \<open>InjectSnapshot\<close> streams only a non-empty archive that it
  read from the tenant's and workload's snapshot path and whose SHA-256 is the content of the
  checksum file beside it, read in the same call; without that nothing is extracted in the pod.
\<close>

theorem injected_archive_verified:
  "injectVerified E s p t w (appended (smInjectSnapshot E s p t w) tr)"
  using wp_smInjectSnapshot [of E s p t w tr]
  by (simp add: wp_appended [where Q = "\<lambda>_ evs. injectVerified E s p t w evs"])

text \<open>
  C29. What can be injected when the write script stops after any number \<open>k\<close> of steps, with \<open>received\<close>
  the bytes that reached it: before the first rename the old snapshot; after both renames the
  received bytes, if they are not empty and hash to the announced checksum; between them
  the received bytes only if they happen to match the old checksum, so that window loses the snapshot.
\<close>

theorem write_crash_states:
  "storedSnapshot E t w (fsSteps (take k (scriptSteps E t w data received)) fs) =
     (if k < 4 then storedSnapshot E t w fs
      else if k = 4 then (case fs (snapshotSHAPath t w) of
          None \<Rightarrow> None
        | Some sha \<Rightarrow> if received \<noteq> [] \<and> TrimSpace sha \<noteq> [] \<and> hashArchive E received = TrimSpace sha
                     then Some received else None)
      else if received \<noteq> [] \<and> hashArchive E data \<noteq> [] \<and> hashArchive E received = hashArchive E data
      then Some received else None)"
proof (cases "k < 6")
  case True
  from fsSteps_prefixes [OF this, of E t w data received fs] show ?thesis
    by (auto simp: storedSnapshot_def verifyArchive_ok TrimSpace_idem split: option.split)
next
  case False
  then have "take k (scriptSteps E t w data received) = take 5 (scriptSteps E t w data received)"
    by (simp add: scriptSteps_def Let_def)
  with False fsSteps_prefixes [of 5 E t w data received fs] show ?thesis
    by (auto simp: storedSnapshot_def verifyArchive_ok TrimSpace_idem split: option.split)
qed

end
