(* ===== verification/Scope.thy ===== *)
theory Scope
  imports Go_Strings
begin

text \<open>
  \<open>internal/scope/scope.go\<close> and \<open>internal/claimtoken/claimtoken.go\<close>: the permission
  vocabulary and the keys of a token Secret, shared by the operator that writes the Secret
  and the API server that reads it.
\<close>

section \<open>Scopes\<close>

type_synonym scope = string

definition AgentTriggersRead :: scope where "AgentTriggersRead = ''agent-triggers:read''"
definition AgentTriggersWrite :: scope where "AgentTriggersWrite = ''agent-triggers:write''"
definition SecretsRead :: scope where "SecretsRead = ''secrets:read''"
definition SecretsWrite :: scope where "SecretsWrite = ''secrets:write''"
definition WorkloadsRead :: scope where "WorkloadsRead = ''workloads:read''"
definition IssuesWrite :: scope where "IssuesWrite = ''issues:write''"
definition HealthRead :: scope where "HealthRead = ''health:read''"
definition Disabled :: scope where "Disabled = ''none''"

lemmas scope_defs = AgentTriggersRead_def AgentTriggersWrite_def SecretsRead_def SecretsWrite_def
  WorkloadsRead_def IssuesWrite_def HealthRead_def Disabled_def

definition DefaultAgentScopes :: "scope list" where
  "DefaultAgentScopes =
     [AgentTriggersRead, AgentTriggersWrite, SecretsRead, WorkloadsRead, HealthRead]"

definition DefaultAgentScopeStrings :: "string list" where
  "DefaultAgentScopeStrings = map (\<lambda>s. s) DefaultAgentScopes"

definition Parse :: "string list \<Rightarrow> scope list" where
  "Parse raw = filter (\<lambda>s. s \<noteq> []) raw"

section \<open>Token Secrets\<close>

definition LabelAPIToken :: string where "LabelAPIToken = ''boilerhouse.dev/api-token''"
definition tokenLabelTenant :: string where "tokenLabelTenant = ''boilerhouse.dev/tenant''"
definition tokenLabelWorkload :: string where "tokenLabelWorkload = ''boilerhouse.dev/workload''"
definition LabelClaim :: string where "LabelClaim = ''boilerhouse.dev/claim''"
definition AnnotationScopes :: string where "AnnotationScopes = ''boilerhouse.dev/token-scopes''"
definition AnnotationExpiresAt :: string where
  "AnnotationExpiresAt = ''boilerhouse.dev/token-expires-at''"
definition DataKey :: string where "DataKey = ''token''"

lemmas token_key_defs = LabelAPIToken_def tokenLabelTenant_def tokenLabelWorkload_def
  LabelClaim_def AnnotationScopes_def AnnotationExpiresAt_def DataKey_def

lemma token_keys_distinct:
  "distinct [LabelAPIToken, tokenLabelTenant, tokenLabelWorkload, LabelClaim]"
  "AnnotationScopes \<noteq> AnnotationExpiresAt" "AnnotationExpiresAt \<noteq> AnnotationScopes"
  by (simp_all add: token_key_defs)

text \<open>The characters of a scope that survive the comma-separated annotation.\<close>

definition csvSafe :: "string \<Rightarrow> bool" where
  "csvSafe s \<longleftrightarrow> s \<noteq> [] \<and> CHR '','' \<notin> set s \<and> \<not> isSpace (hd s) \<and> \<not> isSpace (last s)"

lemma csvSafe_defaults: "list_all csvSafe DefaultAgentScopeStrings"
  by (simp add: DefaultAgentScopeStrings_def DefaultAgentScopes_def csvSafe_def scope_defs isSpace_def)

end
