(* ===== verification/Claim_Token.thy ===== *)
theory Claim_Token
  imports Snapshots Scope
begin

text \<open>
  The claim reconciler's configuration (\<open>claim_controller.go\<close>) and the scoped API token of a
  claim (\<open>claim_token.go\<close>): a Secret holding a random token, with the scopes and the expiry as
  annotations, created once per claim and deleted on release.
\<close>

section \<open>The reconciler\<close>

record ClaimReconciler =
  crSnapshots :: "snapshotter option"
  crNamespace :: string
  crAPIServiceURL :: string
  ExtractRetryBackoff :: "int list"

definition annotationLastActivity :: string where
  "annotationLastActivity = ''boilerhouse.dev/last-activity''"
definition idleCheckInterval :: int where "idleCheckInterval = 30 * second"
definition releaseFailedRequeue :: int where "releaseFailedRequeue = 5 * minute"
definition finalizerName :: string where "finalizerName = ''boilerhouse.dev/cleanup''"

definition apiServiceURL :: "ClaimReconciler \<Rightarrow> string" where
  "apiServiceURL R =
     (if crAPIServiceURL R \<noteq> [] then crAPIServiceURL R
      else let ns = (if crNamespace R = [] then ''boilerhouse'' else crNamespace R)
           in ''http://boilerhouse-api.'' @ ns @ ''.svc:3000'')"

section \<open>The token\<close>

definition TokenTTL :: int where "TokenTTL = 24 * hour"

definition ClaimTokenSecretName :: "string \<Rightarrow> string" where
  "ClaimTokenSecretName claimName = ''claim-key-'' @ claimName"

definition resolveScopes :: "BoilerhouseWorkload option \<Rightarrow> string list" where
  "resolveScopes wl =
     (case wl of
        None \<Rightarrow> DefaultAgentScopeStrings
      | Some wl \<Rightarrow> (case wlAPIAccess (wlSpec wl) of
          None \<Rightarrow> DefaultAgentScopeStrings
        | Some a \<Rightarrow> if apiScopes a \<noteq> [] then apiScopes a else DefaultAgentScopeStrings))"

definition generateToken :: "env \<Rightarrow> (err + string) io" where
  "generateToken E = do {
     r \<leftarrow> randRead E 32;
     case r of
       Inl e \<Rightarrow> ret (Inl e)
     | Inr b \<Rightarrow> ret (Inr (hexEncode b))
   }"

definition tokenSecret :: "env \<Rightarrow> BoilerhouseClaim \<Rightarrow> string list \<Rightarrow> string \<Rightarrow> int \<Rightarrow> Secret" where
  "tokenSecret E claim scopes token expiresAt =
     \<lparr>secretMeta = (objectMeta (ClaimTokenSecretName (Name (claimMeta claim))) (Namespace (claimMeta claim)))
        \<lparr>Labels := [LabelAPIToken \<mapsto> ''true'', tokenLabelTenant \<mapsto> claimTenantId (claimSpec claim),
                    tokenLabelWorkload \<mapsto> claimWorkloadRef (claimSpec claim),
                    LabelClaim \<mapsto> Name (claimMeta claim)],
         Annotations := [AnnotationScopes \<mapsto> Join scopes '','',
                         AnnotationExpiresAt \<mapsto> format_rfc3339 E expiresAt],
         OwnerReferences := [\<lparr>ownerKind = ''BoilerhouseClaim'', ownerName = Name (claimMeta claim)\<rparr>]\<rparr>,
      secretData = [DataKey \<mapsto> token]\<rparr>"

definition tokenKey :: "BoilerhouseClaim \<Rightarrow> NamespacedName" where
  "tokenKey claim = nsName (Namespace (claimMeta claim)) (ClaimTokenSecretName (Name (claimMeta claim)))"

definition ensureClaimToken :: "env \<Rightarrow> BoilerhouseClaim \<Rightarrow> BoilerhouseWorkload option
    \<Rightarrow> (err + string \<times> bool) io" where
  "ensureClaimToken E claim wl =
     (let scopes = resolveScopes wl;
          secretName = ClaimTokenSecretName (Name (claimMeta claim))
      in if scopes = [Disabled] then ret (Inr ([], True))
         else do {
           g \<leftarrow> getObj SecretEv (secrets E) (nsName (Namespace (claimMeta claim)) secretName);
           case g of
             Inr _ \<Rightarrow> ret (Inr (secretName, False))
           | Inl getErr \<Rightarrow>
               if \<not> isNotFound getErr
               then ret (Inl (wrapf ''getting existing token secret'' getErr))
               else do {
                 t \<leftarrow> generateToken E;
                 case t of
                   Inl e \<Rightarrow> ret (Inl (wrapf ''generating token'' e))
                 | Inr token \<Rightarrow> do {
                     now \<leftarrow> timeNow E;
                     c \<leftarrow> createObj SecretEv (secrets E)
                            (tokenSecret E claim scopes token (now + TokenTTL));
                     case c of
                       Inr _ \<Rightarrow> ret (Inr (secretName, False))
                     | Inl e \<Rightarrow>
                         if isAlreadyExists e then ret (Inr (secretName, False))
                         else ret (Inl (wrapf ''creating token secret'' e))
                   }
               }
         })"

definition deleteClaimToken :: "env \<Rightarrow> BoilerhouseClaim \<Rightarrow> err option io" where
  "deleteClaimToken E claim = do {
     d \<leftarrow> deleteObj SecretEv (secrets E) (tokenKey claim);
     case deleteFailed d of
       Some e \<Rightarrow> ret (Some (wrapf ''deleting token secret'' e))
     | None \<Rightarrow> ret None
   }"

section \<open>Lemmas\<close>

lemma tokenKey_secret [simp]: "keyOf (secretMeta (tokenSecret E claim scopes token t)) = tokenKey claim"
  by (simp add: tokenSecret_def tokenKey_def keyOf_def)

lemma wp_generateToken:
  assumes "\<And>e. Q (Inl e) (tr @ [RandEv 32 (Inl e)])"
    and "\<And>b. Q (Inr (hexEncode b)) (tr @ [RandEv 32 (Inr b)])"
  shows "wp (generateToken E) Q tr"
  using assms by (simp add: generateToken_def randRead_def wp_simps split: sum.split)

text \<open>
  What \<open>ensureClaimToken\<close> appends: nothing when disabled; else a Get of the token's Secret and,
  only after a NotFound, at most one Create of the claim's token Secret from fresh random bytes.
  A returned name stands for a Secret some answer said exists.
\<close>

definition tokenExists :: "BoilerhouseClaim \<Rightarrow> event \<Rightarrow> bool" where
  "tokenExists claim e = (case e of
      SecretEv (GetEv k (Inr s)) \<Rightarrow> k = tokenKey claim
    | SecretEv (CreateEv s (Inr s')) \<Rightarrow> keyOf (secretMeta s) = tokenKey claim
    | SecretEv (CreateEv s (Inl e)) \<Rightarrow> keyOf (secretMeta s) = tokenKey claim \<and> isAlreadyExists e
    | _ \<Rightarrow> False)"

definition tokenOutcome :: "env \<Rightarrow> BoilerhouseClaim \<Rightarrow> BoilerhouseWorkload option
    \<Rightarrow> err + string \<times> bool \<Rightarrow> event list \<Rightarrow> bool" where
  "tokenOutcome E claim wl r evs =
     (case r of
        Inr (n, True) \<Rightarrow> n = [] \<and> evs = [] \<and> resolveScopes wl = [Disabled]
      | Inr (n, False) \<Rightarrow> n = ClaimTokenSecretName (Name (claimMeta claim)) \<and>
          resolveScopes wl \<noteq> [Disabled] \<and> list_ex (tokenExists claim) evs
      | Inl e \<Rightarrow> \<not> list_ex (tokenExists claim) evs)"

definition tokenCreates :: "env \<Rightarrow> BoilerhouseClaim \<Rightarrow> BoilerhouseWorkload option \<Rightarrow> event list \<Rightarrow> event \<Rightarrow> bool" where
  "tokenCreates E claim wl pre e =
     (case e of
        SecretEv (CreateEv s r) \<Rightarrow>
          (\<exists>g b now. pre = [SecretEv (GetEv (tokenKey claim) (Inl g)), RandEv 32 (Inr b), TimeEv now] \<and>
             isNotFound g \<and> s = tokenSecret E claim (resolveScopes wl) (hexEncode b) (now + TokenTTL))
      | SecretEv (GetEv k r) \<Rightarrow> k = tokenKey claim
      | SecretEv _ \<Rightarrow> False
      | RandEv n r \<Rightarrow> True
      | TimeEv now \<Rightarrow> True
      | _ \<Rightarrow> False)"

lemma tokenExists_simps [simp]:
  "tokenExists claim (SecretEv (GetEv k (Inr s))) \<longleftrightarrow> k = tokenKey claim"
  "\<not> tokenExists claim (SecretEv (GetEv k (Inl e)))"
  "tokenExists claim (SecretEv (CreateEv s (Inr s'))) \<longleftrightarrow> keyOf (secretMeta s) = tokenKey claim"
  "tokenExists claim (SecretEv (CreateEv s (Inl e))) \<longleftrightarrow>
     keyOf (secretMeta s) = tokenKey claim \<and> isAlreadyExists e"
  "\<not> tokenExists claim (RandEv n rr)" "\<not> tokenExists claim (TimeEv t)"
  by (simp_all add: tokenExists_def)

lemma tokenCreates_simps [simp]:
  "tokenCreates E claim wl pre (SecretEv (GetEv k r)) \<longleftrightarrow> k = tokenKey claim"
  "tokenCreates E claim wl pre (RandEv n rr)" "tokenCreates E claim wl pre (TimeEv t)"
  by (simp_all add: tokenCreates_def)

lemma wp_ensureClaimToken:
  "wp (ensureClaimToken E claim wl) (\<lambda>r tr'. tokenOutcome E claim wl r (drop (length tr) tr') \<and>
     guarded (tokenCreates E claim wl) [] (drop (length tr) tr')) tr"
proof (cases "resolveScopes wl = [Disabled]")
  case True
  then show ?thesis by (simp add: ensureClaimToken_def wp_simps tokenOutcome_def)
next
  case False
  let ?s = "\<lambda>b now. tokenSecret E claim (resolveScopes wl) (hexEncode b) (now + TokenTTL)"
  have c: "tokenCreates E claim wl [SecretEv (GetEv (tokenKey claim) (Inl g)), RandEv 32 (Inr b), TimeEv now]
     (SecretEv (CreateEv (?s b now) r))" if "isNotFound g" for g b now r
    using that by (simp add: tokenCreates_def)
  show ?thesis
    unfolding ensureClaimToken_def getObj_def createObj_def timeNow_def
    using False c
    by (auto simp: wp_simps tokenOutcome_def tokenKey_def [symmetric] Let_def split: sum.split
        intro!: wp_generateToken)
qed

section \<open>Properties\<close>

text \<open>
  C26. Provisioning a claim's token: with the scopes exactly [none] nothing is asked of the cluster;
  otherwise success names the claim's token Secret and some answer said that it exists, and failure means
  none did.  A Secret is created only after a Get of the same key said NotFound, from 32 fresh random
  bytes, with the workload's scopes and an expiry TokenTTL after the clock; an existing one is reused.
\<close>

theorem token_provisioning:
  "tokenOutcome E claim wl (result (ensureClaimToken E claim wl) tr) (appended (ensureClaimToken E claim wl) tr) \<and>
   guarded (tokenCreates E claim wl) [] (appended (ensureClaimToken E claim wl) tr)"
  using wp_ensureClaimToken [of E claim wl tr]
  by (simp add: wp_appended [where Q = "\<lambda>r evs. tokenOutcome E claim wl r evs \<and>
      guarded (tokenCreates E claim wl) [] evs"])

end
