(* ===== verification/Claim_Activate.thy ===== *)
theory Claim_Activate
  imports Claim_Token
begin

text \<open>
  \<open>claim_activate.go\<close>, the first handler: a claim becomes Active on a pod that has an address.
\<close>

text \<open>The port of the first container's first exposed port, 0 without one.\<close>

definition endpointPort :: "Pod \<Rightarrow> int" where
  "endpointPort pod =
     (case Containers (podSpec pod) of
        [] \<Rightarrow> 0
      | c # _ \<Rightarrow> (case ctrPorts c of [] \<Rightarrow> 0 | p # _ \<Rightarrow> ContainerPort p))"

definition updateClaimStatus :: "env \<Rightarrow> BoilerhouseClaim \<Rightarrow> BoilerhouseClaimStatus \<Rightarrow> Result
    \<Rightarrow> (err + Result) io" where
  "updateClaimStatus E claim st res = do {
     u \<leftarrow> statusObj ClaimEv (claims E) (claim\<lparr>claimStatus := st\<rparr>);
     case u of
       Inl e \<Rightarrow> ret (Inl e)
     | Inr _ \<Rightarrow> ret (Inr res)
   }"

definition keepSource :: "string \<Rightarrow> string \<Rightarrow> string" where
  "keepSource source old = (if source = ''existing'' \<and> old \<noteq> [] \<and> old \<noteq> ''existing'' then old else source)"

definition activateClaim :: "env \<Rightarrow> BoilerhouseClaim \<Rightarrow> Pod \<Rightarrow> string \<Rightarrow> (err + Result) io" where
  "activateClaim E claim pod source =
     (let podIP = PodIP (podStatus pod); st = claimStatus claim
      in if podIP = []
         then if Source st \<noteq> source \<or> InstanceId st \<noteq> podName pod
              then updateClaimStatus E claim (st\<lparr>Source := source, InstanceId := podName pod\<rparr>)
                     (requeueAfter (1 * second))
              else ret (Inr (requeueAfter (1 * second)))
         else do {
           now \<leftarrow> timeNow E;
           updateClaimStatus E claim
             (st\<lparr>claimPhase := ''Active'', InstanceId := podName pod,
                 Endpoint := Some \<lparr>Host = podIP, Port = endpointPort pod\<rparr>,
                 Source := keepSource source (Source st), ClaimedAt := Some now,
                 claimDetail := []\<rparr>)
             (requeueAfter idleCheckInterval)
         })"

end
