(* ===== verification/Claim_Pods.thy ===== *)
theory Claim_Pods
  imports Claim_Activate
begin

text \<open>
  \<open>claim_pods.go\<close>: finding the pod of a tenant or a ready pool pod, acquiring a pool pod, and
  the cold boot of a new pod with its token, proxy and ConfigMap.
\<close>

section \<open>Calls of the Snapshotter\<close>

definition hasSnapshot :: "snapshotter \<Rightarrow> string \<Rightarrow> string \<Rightarrow> (err + bool) io" where
  "hasSnapshot S t w = do {
     r \<leftarrow> HasSnapshot S t w; u \<leftarrow> observe (SnapEv (HasEv t w r)); ret r }"

definition injectSnapshot :: "snapshotter \<Rightarrow> string \<Rightarrow> string \<Rightarrow> string \<Rightarrow> err option io" where
  "injectSnapshot S p t w = do {
     r \<leftarrow> InjectSnapshot S p t w; u \<leftarrow> observe (SnapEv (InjectEv p t w r)); ret r }"

definition extractAndStore :: "snapshotter \<Rightarrow> string \<Rightarrow> string \<Rightarrow> string \<Rightarrow> string list \<Rightarrow> err option io" where
  "extractAndStore S p t w dirs = do {
     r \<leftarrow> ExtractAndStore S p t w dirs; u \<leftarrow> observe (SnapEv (ExtractEv p t w dirs r)); ret r }"

definition deleteSnapshot :: "snapshotter \<Rightarrow> string \<Rightarrow> string \<Rightarrow> err option io" where
  "deleteSnapshot S t w = do {
     r \<leftarrow> DeleteSnapshot S t w; u \<leftarrow> observe (SnapEv (DropEv t w r)); ret r }"

section \<open>Finding pods\<close>

definition firstItem :: "err + 'a list \<Rightarrow> err + 'a option" where
  "firstItem r = (case r of Inl e \<Rightarrow> Inl e | Inr [] \<Rightarrow> Inr None | Inr (x # xs) \<Rightarrow> Inr (Some x))"

definition tenantSelector :: "string \<Rightarrow> string \<Rightarrow> (string \<times> string) list" where
  "tenantSelector tenantId workloadRef = [(LabelTenant, tenantId), (LabelWorkload, workloadRef)]"

definition findTenantPod :: "env \<Rightarrow> string \<Rightarrow> string \<Rightarrow> string \<Rightarrow> (err + Pod option) io" where
  "findTenantPod E ns tenantId workloadRef = do {
     r \<leftarrow> listObj PodEv (pods E) ns (tenantSelector tenantId workloadRef);
     ret (firstItem r)
   }"

definition readySelector :: "string \<Rightarrow> (string \<times> string) list" where
  "readySelector workloadRef = [(LabelWorkload, workloadRef), (LabelPoolStatus, ''ready'')]"

definition findPoolPod :: "env \<Rightarrow> string \<Rightarrow> string \<Rightarrow> (err + Pod option) io" where
  "findPoolPod E ns workloadRef = do {
     r \<leftarrow> listObj PodEv (pods E) ns (readySelector workloadRef);
     ret (firstItem r)
   }"

text \<open>\<open>Delete\<close> of a listed pod in the cleanup loops; a pod already gone is no error.\<close>

definition deletePodOrSkip :: "env \<Rightarrow> Pod \<Rightarrow> (err + unit) io" where
  "deletePodOrSkip E pod = do {
     d \<leftarrow> deleteObj PodEv (pods E) (podKey pod);
     ret (case deleteFailed d of Some e \<Rightarrow> Inl e | None \<Rightarrow> Inr ())
   }"

section \<open>Acquiring a pool pod\<close>

definition acquiredPod :: "Pod \<Rightarrow> string \<Rightarrow> Pod" where
  "acquiredPod p tenantId =
     p\<lparr>podMeta := (podMeta p)\<lparr>Labels := (Labels (podMeta p))(LabelTenant \<mapsto> tenantId,
        LabelPoolStatus \<mapsto> ''acquired'')\<rparr>\<rparr>"

definition claimFromPool :: "env \<Rightarrow> ClaimReconciler \<Rightarrow> BoilerhouseClaim \<Rightarrow> Pod \<Rightarrow> BoilerhouseWorkload
    \<Rightarrow> (err + Result) io" where
  "claimFromPool E R claim poolPod wl =
     (let tenantId = claimTenantId (claimSpec claim);
          workloadRef = claimWorkloadRef (claimSpec claim)
      in do {
        u \<leftarrow> updateObj PodEv (pods E) (acquiredPod poolPod tenantId);
        case u of
          Inl e \<Rightarrow> ret (Inl (wrapf ''relabeling pool pod'' e))
        | Inr poolPod \<Rightarrow>
            (case crSnapshots R of
               None \<Rightarrow> activateClaim E claim poolPod ''pool''
             | Some S \<Rightarrow> do {
                 h \<leftarrow> hasSnapshot S tenantId workloadRef;
                 case h of
                   Inl e \<Rightarrow> activateClaim E claim poolPod ''pool''
                 | Inr hasSnap \<Rightarrow>
                     if hasSnap then do {
                       i \<leftarrow> injectSnapshot S (podName poolPod) tenantId workloadRef;
                       case i of
                         Some e \<Rightarrow> activateClaim E claim poolPod ''pool''
                       | None \<Rightarrow> activateClaim E claim poolPod ''pool+data''
                     }
                     else activateClaim E claim poolPod ''pool''
               })
      })"

section \<open>Cold boot\<close>

definition ResolvedImageRef :: "BoilerhouseWorkload \<Rightarrow> string" where
  "ResolvedImageRef wl =
     (if Dockerfile (wlImage (wlSpec wl)) \<noteq> []
      then ''boilerhouse/'' @ Name (wlMeta wl) @ '':'' @ wlVersion (wlSpec wl)
      else imageRef (wlImage (wlSpec wl)))"

text \<open>The error of \<open>rand.Read\<close> is ignored; the buffer then holds zero bytes.\<close>

definition randomSuffix :: "env \<Rightarrow> string io" where
  "randomSuffix E = do {
     r \<leftarrow> randRead E 4;
     ret (hexEncode (case r of Inl _ \<Rightarrow> replicate 4 (CHR 0x00) | Inr b \<Rightarrow> b))
   }"

definition BuildProxyConfig :: "env \<Rightarrow> string \<Rightarrow> WorkloadNetwork \<Rightarrow> (err + ProxyConfig) io" where
  "BuildProxyConfig E ns net = do {
     rc \<leftarrow> ResolveCredentials E ns (Credentials net);
     case rc of
       Inl e \<Rightarrow> ret (Inl (wrapf ''resolving credentials'' e))
     | Inr resolved \<Rightarrow> do {
         t \<leftarrow> GenerateTLS E (map rcDomain resolved);
         case t of
           Inl e \<Rightarrow> ret (Inl (wrapf ''generating TLS material'' e))
         | Inr tls \<Rightarrow>
             (case GenerateEnvoyYAML \<lparr>cfgAllowlist = Allowlist net, cfgCredentials = resolved,
                                      cfgTLS = Some tls\<rparr> of
                Inl e \<Rightarrow> ret (Inl (wrapf ''generating envoy config'' e))
              | Inr yaml \<Rightarrow> ret (Inr \<lparr>EnvoyYAML = yaml, pcCACert = Some (CACert tls), pcTLS = Some tls\<rparr>))
       }
   }"

text \<open>The proxy of a workload: none unless its network lists credentials.\<close>

definition workloadProxy :: "env \<Rightarrow> string \<Rightarrow> BoilerhouseWorkload \<Rightarrow> (err + ProxyConfig option) io" where
  "workloadProxy E ns wl =
     (case wlNetwork (wlSpec wl) of
        None \<Rightarrow> ret (Inr None)
      | Some net \<Rightarrow>
          if Credentials net = [] then ret (Inr None)
          else do {
            p \<leftarrow> BuildProxyConfig E ns net;
            case p of
              Inl e \<Rightarrow> ret (Inl (wrapf ''building proxy config'' e))
            | Inr pc \<Rightarrow> ret (Inr (Some pc))
          })"

text \<open>\<open>Create\<close> of the ConfigMap, when there is one, before the Pod.\<close>

definition createConfigMap :: "env \<Rightarrow> ConfigMap option \<Rightarrow> (err + unit) io" where
  "createConfigMap E cm =
     (case cm of
        None \<Rightarrow> ret (Inr ())
      | Some cm \<Rightarrow> do {
          c \<leftarrow> createObj ConfigMapEv (configMaps E) cm;
          case c of
            Inl e \<Rightarrow> ret (Inl (wrapf ''creating proxy configmap'' e))
          | Inr _ \<Rightarrow> ret (Inr ())
        })"

definition tenantOpts :: "ClaimReconciler \<Rightarrow> BoilerhouseClaim \<Rightarrow> BoilerhouseWorkload \<Rightarrow> string \<Rightarrow> string
    \<Rightarrow> TranslateOpts" where
  "tenantOpts R claim wl sfx tokenSecretName =
     \<lparr>optInstanceId = claimWorkloadRef (claimSpec claim) @ ''-'' @ claimTenantId (claimSpec claim) @
        ''-'' @ sfx,
      WorkloadName = claimWorkloadRef (claimSpec claim), TenantId = claimTenantId (claimSpec claim),
      optNamespace = Namespace (claimMeta claim), PoolStatus = [], ImageRef = ResolvedImageRef wl,
      optProxyConfig = None, ClaimTokenSecret = tokenSecretName, optAPIServiceURL = apiServiceURL R\<rparr>"

definition createTenantPod :: "env \<Rightarrow> ClaimReconciler \<Rightarrow> BoilerhouseClaim \<Rightarrow> BoilerhouseWorkload
    \<Rightarrow> string \<Rightarrow> (err + Pod) io" where
  "createTenantPod E R claim wl tokenSecretName = do {
     sfx \<leftarrow> randomSuffix E;
     pc \<leftarrow> workloadProxy E (crNamespace R) wl;
     case pc of
       Inl e \<Rightarrow> ret (Inl e)
     | Inr proxy \<Rightarrow>
         (case Translate (wlSpec wl) ((tenantOpts R claim wl sfx tokenSecretName)
                 \<lparr>optProxyConfig := proxy\<rparr>) of
            Inl e \<Rightarrow> ret (Inl (wrapf ''translating workload'' e))
          | Inr tr \<Rightarrow> do {
              m \<leftarrow> createConfigMap E (resConfigMap tr);
              case m of
                Inl e \<Rightarrow> ret (Inl e)
              | Inr _ \<Rightarrow> do {
                  p \<leftarrow> createObj PodEv (pods E) (resPod tr);
                  case p of
                    Inl e \<Rightarrow> ret (Inl (wrapf ''creating tenant pod'' e))
                  | Inr pod \<Rightarrow> ret (Inr pod)
                }
            })
   }"

definition coldBoot :: "env \<Rightarrow> ClaimReconciler \<Rightarrow> BoilerhouseClaim \<Rightarrow> BoilerhouseWorkload
    \<Rightarrow> (err + Result) io" where
  "coldBoot E R claim wl = do {
     t \<leftarrow> ensureClaimToken E claim (Some wl);
     case t of
       Inl e \<Rightarrow> ret (Inl (wrapf ''ensuring claim token'' e))
     | Inr (secretName, disabled) \<Rightarrow> do {
         p \<leftarrow> createTenantPod E R claim wl (if disabled then [] else secretName);
         case p of
           Inl e \<Rightarrow> ret (Inl e)
         | Inr pod \<Rightarrow> activateClaim E claim pod ''cold''
       }
   }"

section \<open>What building a proxy appends\<close>

text \<open>Reads of Secrets of the given namespace, and calls of the X.509 routines and the clock.\<close>

definition proxyEvent :: "string \<Rightarrow> event \<Rightarrow> bool" where
  "proxyEvent ns e \<longleftrightarrow> readsSecretIn ns e \<or> cryptoOnly e"

lemma proxyEvent_simps [simp, quiet_simps]:
  "\<not> proxyEvent ns (ClaimEv ce)" "\<not> proxyEvent ns (PodEv pe)" "\<not> proxyEvent ns (PoolEv le)"
  "\<not> proxyEvent ns (WorkloadEv we)" "\<not> proxyEvent ns (ConfigMapEv me)" "\<not> proxyEvent ns (SnapEv sn)"
  by (simp_all add: proxyEvent_def readsSecretIn_def cryptoOnly_def)

lemma emits_BuildProxyConfig: "emits (proxyEvent ns) (BuildProxyConfig E ns net)"
proof -
  have r: "emits (proxyEvent ns) (ResolveCredentials E ns creds)" for creds
    by (rule emits_mono [OF emits_ResolveCredentials]) (simp add: proxyEvent_def)
  have t: "emits (proxyEvent ns) (GenerateTLS E ds)" for ds
    by (rule emits_mono [OF emits_GenerateTLS]) (simp add: proxyEvent_def)
  show ?thesis
    unfolding BuildProxyConfig_def by (intro emits_intros r t)
qed

lemma emits_workloadProxy: "emits (proxyEvent ns) (workloadProxy E ns wl)"
  unfolding workloadProxy_def by (intro emits_intros emits_BuildProxyConfig)

section \<open>What the Snapshotter calls append\<close>

definition snapQuiet :: "string \<Rightarrow> event \<Rightarrow> bool" where
  "snapQuiet ns e \<longleftrightarrow> storageEvent ns e \<or>
     (case e of SnapEv _ \<Rightarrow> True | WaitEv _ _ \<Rightarrow> True | _ \<Rightarrow> False)"

lemma snapQuiet_simps [simp, quiet_simps]:
  "snapQuiet ns (SnapEv s)" "snapQuiet ns (WaitEv d b)"
  "\<not> snapQuiet ns (ClaimEv ce)" "\<not> snapQuiet ns (WorkloadEv we)" "\<not> snapQuiet ns (SecretEv se)"
  "\<not> snapQuiet ns (ConfigMapEv me)" "\<not> snapQuiet ns (TimeEv t)"
  "snapQuiet ns (PodEv pe) \<longleftrightarrow> storageEvent ns (PodEv pe)"
  by (simp_all add: snapQuiet_def)

lemma storage_snapQuiet: "storageEvent ns e \<Longrightarrow> snapQuiet ns e"
  by (simp add: snapQuiet_def)

definition isExtractEv :: "event \<Rightarrow> bool" where
  "isExtractEv e = (case e of SnapEv (ExtractEv p t w dirs r) \<Rightarrow> True | _ \<Rightarrow> False)"

lemma isExtractEv_simps [simp]:
  "isExtractEv (SnapEv (ExtractEv p t w dirs r))" "\<not> isExtractEv (WaitEv d b)"
  "\<not> isExtractEv (SnapEv (HasEv t w h))" "\<not> isExtractEv (SnapEv (InjectEv p t w i))"
  "\<not> isExtractEv (SnapEv (DropEv t w i))"
  by (simp_all add: isExtractEv_def)

lemma storage_no_extract: "list_all (storageEvent ns) evs \<Longrightarrow> filter isExtractEv evs = []"
  by (induction evs) (auto simp: storageEvent_def isExtractEv_def split: event.splits)

lemma storage_no_snap: "list_all (storageEvent ns) evs \<Longrightarrow> SnapEv s \<notin> set evs"
  by (auto simp: list_all_iff)

lemma storage_list_quiet: "list_all (storageEvent ns) evs \<Longrightarrow> list_all (snapQuiet ns) evs"
  by (simp add: list_all_iff storage_snapQuiet)

context overlay_storage
begin

lemma wp_extractAndStore:
  assumes "servesPods E"
    and "\<And>r evs. list_all (storageEvent ns) evs \<Longrightarrow> Q r (tr @ evs @ [SnapEv (ExtractEv p t w dirs r)])"
  shows "wp (extractAndStore S p t w dirs) Q tr"
  unfolding extractAndStore_def wp_bind
  by (rule emits_wpI [OF emits_extract [OF assms(1)]]) (simp add: wp_simps assms(2))

lemma wp_deleteSnapshot:
  assumes "servesPods E"
    and "\<And>r evs. list_all (storageEvent ns) evs \<Longrightarrow> Q r (tr @ evs @ [SnapEv (DropEv t w r)])"
  shows "wp (deleteSnapshot S t w) Q tr"
  unfolding deleteSnapshot_def wp_bind
  by (rule emits_wpI [OF emits_delete [OF assms(1)]]) (simp add: wp_simps assms(2))

lemma wp_hasSnapshot:
  assumes "servesPods E"
    and "\<And>r evs. list_all (storageEvent ns) evs \<Longrightarrow> Q r (tr @ evs @ [SnapEv (HasEv t w r)])"
  shows "wp (hasSnapshot S t w) Q tr"
  unfolding hasSnapshot_def wp_bind
  by (rule emits_wpI [OF emits_has [OF assms(1)]]) (simp add: wp_simps assms(2))

lemma wp_injectSnapshot:
  assumes "servesPods E"
    and "\<And>r evs. list_all (storageEvent ns) evs \<Longrightarrow> Q r (tr @ evs @ [SnapEv (InjectEv p t w r)])"
  shows "wp (injectSnapshot S p t w) Q tr"
  unfolding injectSnapshot_def wp_bind
  by (rule emits_wpI [OF emits_inject [OF assms(1)]]) (simp add: wp_simps assms(2))

end

section \<open>What a cold boot may do\<close>

text \<open>The references to Secrets in the environment of a pod's containers.\<close>

definition podSecretRefs :: "Pod \<Rightarrow> SecretKeySelector list" where
  "podSecretRefs p = List.map_filter envFrom (concat (map ctrEnv (Containers (podSpec p))))"

definition tokenRefs :: "string \<Rightarrow> SecretKeySelector list" where
  "tokenRefs n = (if n = [] then [] else [\<lparr>selSecret = n, selKey = ''token''\<rparr>])"

lemma map_filter_literals: "list_all (\<lambda>v. envFrom v = None) vars \<Longrightarrow> List.map_filter envFrom vars = []"
  by (induction vars) (simp_all add: map_filter_simps)

lemma map_filter_append: "List.map_filter f (xs @ ys) = List.map_filter f xs @ List.map_filter f ys"
  by (simp add: List.map_filter_def)

lemma Translate_refs:
  assumes "Translate spec opts = Inr res"
  shows "podSecretRefs (resPod res) = tokenRefs (ClaimTokenSecret opts)"
  using Translate_env [OF assms]
proof (elim exE conjE)
  fix vars
  assume "map ctrEnv (Containers (podSpec (resPod res))) =
      (vars @ (if ClaimTokenSecret opts \<noteq> [] then tokenEnv opts else []) @
        (if optProxyConfig opts = None then []
         else [\<lparr>envName = ''NODE_EXTRA_CA_CERTS'', envValue = ''/etc/envoy/ca.crt'', envFrom = None\<rparr>])) #
      (if optProxyConfig opts = None then [] else [[]])" "list_all (\<lambda>v. envFrom v = None) vars"
  then show ?thesis
    by (simp add: podSecretRefs_def tokenRefs_def map_filter_append map_filter_literals map_filter_simps
        tokenEnv_def)
qed

text \<open>
  Of a claim with the token Secret \<open>n\<close> (empty without one): the only pod created is the tenant's,
  with that Secret as its only reference, nothing is asked of the Snapshotter and no Secret is written.
\<close>

definition tenantPodOk :: "BoilerhouseClaim \<Rightarrow> string \<Rightarrow> event \<Rightarrow> bool" where
  "tenantPodOk claim n e = (case e of
      PodEv (CreateEv p r) \<Rightarrow> podSecretRefs p = tokenRefs n \<and>
        Labels (podMeta p) LabelTenant =
          (if claimTenantId (claimSpec claim) = [] then None else Some (claimTenantId (claimSpec claim))) \<and>
        Labels (podMeta p) LabelWorkload = Some (claimWorkloadRef (claimSpec claim)) \<and>
        Namespace (podMeta p) = Namespace (claimMeta claim)
    | PodEv _ \<Rightarrow> False
    | SecretEv (GetEv k r) \<Rightarrow> True
    | SecretEv _ \<Rightarrow> False
    | SnapEv _ \<Rightarrow> False
    | _ \<Rightarrow> True)"

lemma tenantPodOk_simps [simp]:
  "tenantPodOk claim n (RandEv k rr)" "tenantPodOk claim n (ConfigMapEv me)"
  "tenantPodOk claim n (ClaimEv ce)" "tenantPodOk claim n (TimeEv t)" "\<not> tenantPodOk claim n (SnapEv sn)"
  by (simp_all add: tenantPodOk_def)

lemma proxy_tenantPodOk: "proxyEvent ns e \<Longrightarrow> tenantPodOk claim n e"
  by (auto simp: proxyEvent_def readsSecretIn_def cryptoOnly_def tenantPodOk_def
      split: event.splits kev.splits)

lemma Translate_tenantPodOk:
  assumes "Translate (wlSpec wl) ((tenantOpts R claim wl sfx n)\<lparr>optProxyConfig := proxy\<rparr>) = Inr res"
  shows "tenantPodOk claim n (PodEv (CreateEv (resPod res) r))"
  using Translate_identity [OF assms] Translate_refs [OF assms]
  by (simp add: tenantPodOk_def tenantOpts_def)

lemma emits_createTenantPod_ok: "emits (tenantPodOk claim n) (createTenantPod E R claim wl n)"
  unfolding createTenantPod_def createConfigMap_def randomSuffix_def randRead_def createObj_def
  by (intro emits_intros emits_mono [OF emits_workloadProxy]; (erule proxy_tenantPodOk)?)
    (simp_all add: Translate_tenantPodOk)

lemma emits_activateClaim_ok: "emits (tenantPodOk claim n) (activateClaim E claim pod source)"
  by (auto simp: activateClaim_def updateClaimStatus_def api_defs Let_def intro!: emits_intros)

definition coldGuard :: "BoilerhouseClaim \<Rightarrow> BoilerhouseWorkload \<Rightarrow> event list \<Rightarrow> event \<Rightarrow> bool" where
  "coldGuard claim wl pre e = (case e of
      PodEv pe \<Rightarrow>
        if resolveScopes (Some wl) = [Disabled] then tenantPodOk claim [] e
        else tenantPodOk claim (ClaimTokenSecretName (Name (claimMeta claim))) e \<and>
             list_ex (tokenExists claim) pre
    | SnapEv _ \<Rightarrow> False
    | _ \<Rightarrow> True)"

lemma coldGuard_simps [simp]:
  "coldGuard claim wl pre (RandEv k rr)" "coldGuard claim wl pre (ConfigMapEv me)"
  "coldGuard claim wl pre (ClaimEv ce)" "coldGuard claim wl pre (TimeEv t)"
  "coldGuard claim wl pre (SecretEv se)"
  by (simp_all add: coldGuard_def)

lemma coldGuard_disabled:
  "resolveScopes (Some wl) = [Disabled] \<Longrightarrow> tenantPodOk claim [] e \<Longrightarrow> coldGuard claim wl pre e"
  by (auto simp: coldGuard_def split: event.splits)

lemma coldGuard_token:
  "resolveScopes (Some wl) \<noteq> [Disabled] \<Longrightarrow> list_ex (tokenExists claim) pre \<Longrightarrow>
   tenantPodOk claim (ClaimTokenSecretName (Name (claimMeta claim))) e \<Longrightarrow> coldGuard claim wl pre e"
  by (auto simp: coldGuard_def split: event.splits)

lemma emits_ensureClaimToken_quiet:
  "emits (\<lambda>e. case e of SecretEv _ \<Rightarrow> True | RandEv _ _ \<Rightarrow> True | TimeEv _ \<Rightarrow> True | _ \<Rightarrow> False)
     (ensureClaimToken E claim wl)"
  by (auto simp: ensureClaimToken_def generateToken_def api_defs Let_def intro!: emits_intros)

lemma wp_coldBoot:
  "wp (coldBoot E R claim wl) (\<lambda>r tr'. guarded (coldGuard claim wl) [] (drop (length tr) tr')) tr"
  unfolding coldBoot_def wp_bind
proof (rule wp_mono [OF wp_conj [OF wp_ensureClaimToken emits_wp [OF emits_ensureClaimToken_quiet]]], elim conjE exE)
  fix t :: "err + string \<times> bool" and tr' evs
  assume out: "tokenOutcome E claim (Some wl) t (drop (length tr) tr')" and tr': "tr' = tr @ evs"
    and "list_all (\<lambda>e. case e of SecretEv _ \<Rightarrow> True | RandEv _ _ \<Rightarrow> True | TimeEv _ \<Rightarrow> True | _ \<Rightarrow> False) evs"
  then have g: "guarded (coldGuard claim wl) [] evs"
    by (elim guarded_list_all) (simp add: coldGuard_def split: event.splits)
  let ?Q = "\<lambda>r tr'. guarded (coldGuard claim wl) [] (drop (length tr) tr')"
  have boot: "wp (createTenantPod E R claim wl n \<bind> (\<lambda>p. case p of Inl e \<Rightarrow> ret (Inl e)
      | Inr pod \<Rightarrow> activateClaim E claim pod ''cold'')) ?Q tr'"
    if ok: "\<And>pre e. set evs \<subseteq> set pre \<Longrightarrow> tenantPodOk claim n e \<Longrightarrow> coldGuard claim wl pre e" for n
  proof (rule emits_wpI [of "tenantPodOk claim n"])
    show "emits (tenantPodOk claim n) (createTenantPod E R claim wl n \<bind> (\<lambda>p. case p of Inl e \<Rightarrow> ret (Inl e)
      | Inr pod \<Rightarrow> activateClaim E claim pod ''cold''))"
      by (intro emits_intros emits_createTenantPod_ok emits_activateClaim_ok)
    fix evs' assume "list_all (tenantPodOk claim n) evs'"
    then have "guarded (coldGuard claim wl) evs evs'" by (rule guarded_from) (rule ok)
    with g show "guarded (coldGuard claim wl) [] (drop (length tr) (tr' @ evs'))" by (simp add: tr')
  qed
  have mono: "list_ex (tokenExists claim) pre" if "list_ex (tokenExists claim) evs" "set evs \<subseteq> set pre" for pre
    using that by (auto simp: list_ex_iff)
  show "wp (case t of Inl e \<Rightarrow> ret (Inl (wrapf ''ensuring claim token'' e))
     | Inr (secretName, disabled) \<Rightarrow> createTenantPod E R claim wl (if disabled then [] else secretName) \<bind>
         (\<lambda>p. case p of Inl e \<Rightarrow> ret (Inl e) | Inr pod \<Rightarrow> activateClaim E claim pod ''cold'')) ?Q tr'"
  proof (cases t)
    case (Inl e)
    with g show ?thesis by (simp add: wp_simps tr')
  next
    case (Inr sd)
    obtain sn d where "sd = (sn, d)" by fastforce
    with Inr out boot [of "if d then [] else sn"] coldGuard_disabled coldGuard_token [OF _ mono] show ?thesis
      by (cases d) (simp_all add: tokenOutcome_def tr')
  qed
qed

section \<open>What acquiring a pool pod may do\<close>

text \<open>
  Only the relabelled pod is written; it is injected into only once the API server accepted the
  relabelling and a snapshot was found; and the claim is written only for that pod, with the source
  pool+data only after the injection succeeded.
\<close>

definition relabelled :: "BoilerhouseClaim \<Rightarrow> Pod \<Rightarrow> Pod \<Rightarrow> event list \<Rightarrow> bool" where
  "relabelled claim poolPod q pre \<longleftrightarrow>
     PodEv (UpdateEv (acquiredPod poolPod (claimTenantId (claimSpec claim))) (Inr q)) \<in> set pre"

definition poolGuard :: "BoilerhouseClaim \<Rightarrow> Pod \<Rightarrow> event list \<Rightarrow> event \<Rightarrow> bool" where
  "poolGuard claim poolPod pre e =
     (let t = claimTenantId (claimSpec claim); w = claimWorkloadRef (claimSpec claim)
      in case e of
        PodEv (UpdateEv p r) \<Rightarrow> p = acquiredPod poolPod t
      | SnapEv (InjectEv p t' w' r) \<Rightarrow> t' = t \<and> w' = w \<and> SnapEv (HasEv t w (Inr True)) \<in> set pre \<and>
          (\<exists>q. relabelled claim poolPod q pre \<and> p = podName q)
      | ClaimEv (StatusEv c r) \<Rightarrow>
          (\<exists>q. relabelled claim poolPod q pre \<and> InstanceId (claimStatus c) = podName q \<and>
             (Source (claimStatus c) = ''pool'' \<or>
              Source (claimStatus c) = ''pool+data'' \<and> SnapEv (InjectEv (podName q) t w None) \<in> set pre))
      | ClaimEv _ \<Rightarrow> False
      | SecretEv _ \<Rightarrow> False
      | _ \<Rightarrow> True)"

lemma storage_poolGuard: "storageEvent ns e \<Longrightarrow> poolGuard claim poolPod pre e"
  by (auto simp: storageEvent_def poolGuard_def split: event.splits kev.splits)

lemma poolGuard_simps [simp]:
  "poolGuard claim poolPod pre (TimeEv now)" "poolGuard claim poolPod pre (SnapEv (HasEv t w h))"
  "poolGuard claim poolPod pre (PodEv (UpdateEv (acquiredPod poolPod (claimTenantId (claimSpec claim))) r))"
  by (simp_all add: poolGuard_def Let_def)

text \<open>The status an activation writes names the pod and the source.\<close>

definition activates :: "Pod \<Rightarrow> string \<Rightarrow> event \<Rightarrow> bool" where
  "activates pod source e = (case e of
      ClaimEv (StatusEv c r) \<Rightarrow> InstanceId (claimStatus c) = podName pod \<and> Source (claimStatus c) = source
    | TimeEv now \<Rightarrow> True
    | _ \<Rightarrow> False)"

lemma emits_activates:
  "source \<noteq> ''existing'' \<Longrightarrow> emits (activates pod source) (activateClaim E claim pod source)"
  by (auto simp: activateClaim_def updateClaimStatus_def api_defs Let_def activates_def keepSource_def
      intro!: emits_intros)

lemma activates_poolGuard:
  assumes "activates q source e" and "relabelled claim poolPod q pre"
    and "source = ''pool'' \<or> source = ''pool+data'' \<and> SnapEv (InjectEv (podName q)
       (claimTenantId (claimSpec claim)) (claimWorkloadRef (claimSpec claim)) None) \<in> set pre"
  shows "poolGuard claim poolPod pre e"
  using assms by (auto simp: activates_def poolGuard_def Let_def split: event.splits kev.splits)

lemma wp_activate_pool:
  assumes g: "guarded (poolGuard claim poolPod) [] pre" and rel: "relabelled claim poolPod q pre"
    and src: "source = ''pool'' \<or> source = ''pool+data'' \<and> SnapEv (InjectEv (podName q)
       (claimTenantId (claimSpec claim)) (claimWorkloadRef (claimSpec claim)) None) \<in> set pre"
  shows "wp (activateClaim E claim q source)
     (\<lambda>r tr'. guarded (poolGuard claim poolPod) [] (drop (length tr) tr')) (tr @ pre)"
proof (rule emits_wpI [OF emits_activates])
  show "source \<noteq> ''existing''" using src by auto
  fix evs assume "list_all (activates q source) evs"
  then have "guarded (poolGuard claim poolPod) pre evs"
    by (rule guarded_from) (use rel src in \<open>auto intro!: activates_poolGuard simp: relabelled_def\<close>)
  with g show "guarded (poolGuard claim poolPod) [] (drop (length tr) ((tr @ pre) @ evs))" by simp
qed

context overlay_storage
begin

lemma wp_claimFromPool:
  assumes "servesPods E" and "crSnapshots R = Some S"
  shows "wp (claimFromPool E R claim poolPod wl)
     (\<lambda>r tr'. guarded (poolGuard claim poolPod) [] (drop (length tr) tr')) tr"
proof -
  let ?t = "claimTenantId (claimSpec claim)" and ?w = "claimWorkloadRef (claimSpec claim)"
  let ?G = "poolGuard claim poolPod"
  let ?u = "\<lambda>q. PodEv (UpdateEv (acquiredPod poolPod ?t) (Inr q))"
  have quiet: "guarded ?G pre evs" if "list_all (storageEvent ns) evs" for pre evs
    using that by (rule guarded_list_all) (rule storage_poolGuard)
  have rel: "relabelled claim poolPod q (?u q # evs)" for q evs
    by (simp add: relabelled_def)
  have act: "wp (activateClaim E claim q source) (\<lambda>r tr'. guarded ?G [] (drop (length tr) tr')) (tr @ ?u q # evs)"
    if "guarded ?G [?u q] evs" "source = ''pool'' \<or> source = ''pool+data'' \<and>
      SnapEv (InjectEv (podName q) ?t ?w None) \<in> set evs" for q evs source
    by (rule wp_activate_pool [OF _ rel]) (use that in auto)
  have inj: "?G (?u q # evs) (SnapEv (InjectEv (podName q) ?t ?w r))"
    if "SnapEv (HasEv ?t ?w (Inr True)) \<in> set evs" for q evs r
    using that rel by (auto simp: poolGuard_def Let_def)
  show ?thesis
    unfolding claimFromPool_def updateObj_def Let_def wp_bind wp_call
    using assms(2) quiet act inj
    by (auto simp: wp_simps split: sum.split option.split
        intro!: wp_hasSnapshot [OF assms(1)] wp_injectSnapshot [OF assms(1)])
qed

end

section \<open>An example\<close>

text \<open>An API server with one pod of the tenant, whose workload has an overlay directory.\<close>

definition demoPod :: Pod where
  "demoPod = \<lparr>podMeta = objectMeta ''w-t-1'' ''ns'',
     podSpec = \<lparr>Containers = [], InitContainers = [], Volumes = [], RestartPolicy = [],
       AutomountServiceAccountToken = None, TerminationGracePeriodSeconds = None, podSecurity = None\<rparr>,
     podStatus = \<lparr>podPhase = ''Running'', PodIP = ''10.0.0.7'', Conditions = []\<rparr>\<rparr>"

definition demoWorkload :: BoilerhouseWorkload where
  "demoWorkload = zeroWorkload\<lparr>wlSpec := zeroWorkloadSpec\<lparr>wlFilesystem :=
     Some \<lparr>OverlayDirs = [''/workspace''], EncryptOverlays = None\<rparr>\<rparr>\<rparr>"

definition demoClaim :: BoilerhouseClaim where
  "demoClaim = \<lparr>claimMeta = (objectMeta ''claim-t-w'' ''ns'')\<lparr>Finalizers := [finalizerName]\<rparr>,
     claimSpec = \<lparr>claimTenantId = ''t'', claimWorkloadRef = ''w'', claimResume = None\<rparr>,
     claimStatus = emptyClaimStatus\<rparr>"

definition demoEnv :: env where
  "demoEnv = offlineEnv\<lparr>
     pods := offlineKind\<lparr>k_list := \<lambda>_ _ _. Inr [demoPod], k_update := \<lambda>_ p. Inr p, k_delete := \<lambda>_ _. None\<rparr>,
     workloads := offlineKind\<lparr>k_get := \<lambda>_ _. Inr demoWorkload\<rparr>,
     secrets := offlineKind\<lparr>k_delete := \<lambda>_ _. None\<rparr>,
     claims := offlineKind\<lparr>k_status := \<lambda>_ c. Inr c, k_update := \<lambda>_ c. Inr c\<rparr>\<rparr>"

lemma demoEnv_serves: "servesPods demoEnv"
  by (simp add: servesPods_def demoEnv_def offline_defs)

definition demoReconciler :: ClaimReconciler where
  "demoReconciler = \<lparr>crSnapshots = Some (managerSnapshotter demoEnv \<lparr>smNamespace = ''ns''\<rparr>),
     crNamespace = ''ns'', crAPIServiceURL = [], ExtractRetryBackoff = [1]\<rparr>"

section \<open>The files of the proxy\<close>

lemma wp_GenerateTLS_domains:
  "wp (GenerateTLS E ds) (\<lambda>r _. case r of Inl _ \<Rightarrow> True | Inr tls \<Rightarrow> map dcDomain (Certs tls) = ds) tr"
proof -
  have leaves: "wp (generateLeaves E cc ck now ds) (\<lambda>r. wp (case r of Inl e \<Rightarrow> ret (Inl e)
      | Inr cs \<Rightarrow> ret (Inr \<lparr>CACert = ca, CAKey = k, Certs = cs\<rparr>))
      (\<lambda>r _. case r of Inl _ \<Rightarrow> True | Inr tls \<Rightarrow> map dcDomain (Certs tls) = ds)) tr'" for cc ck now ca k tr'
    by (rule wp_mono [OF wp_generateLeaves_domains]) (auto simp: wp_simps split: sum.splits)
  show ?thesis
    unfolding GenerateTLS_def randomSerial_def api_defs
    using leaves by (auto simp: wp_simps split: sum.split)
qed

lemma wp_BuildProxyConfig:
  "wp (BuildProxyConfig E ns net) (\<lambda>r _. case r of Inl _ \<Rightarrow> True | Inr pc \<Rightarrow>
     (\<exists>tls creds. pcTLS pc = Some tls \<and> pcCACert pc = Some (CACert tls) \<and>
        EnvoyYAML pc = envoyTemplate \<lparr>cfgAllowlist = Allowlist net, cfgCredentials = creds, cfgTLS = Some tls\<rparr> \<and>
        map rcDomain creds = filter (\<lambda>d. d \<noteq> []) (map credDomain (Credentials net)) \<and>
        map dcDomain (Certs tls) = map rcDomain creds)) tr"
  unfolding BuildProxyConfig_def wp_bind ResolveCredentials_def
proof (rule wp_mono [OF wp_resolveCredentialsFrom_domains])
  fix rc :: "err + ResolvedCredential list" and tr'
  assume rc: "case rc of Inl _ \<Rightarrow> True | Inr rs \<Rightarrow>
    map rcDomain rs = map rcDomain [] @ filter (\<lambda>d. d \<noteq> []) (map credDomain (Credentials net))"
  show "wp (case rc of Inl e \<Rightarrow> ret (Inl (wrapf ''resolving credentials'' e))
     | Inr resolved \<Rightarrow> GenerateTLS E (map rcDomain resolved) \<bind> (\<lambda>t. case t of
           Inl e \<Rightarrow> ret (Inl (wrapf ''generating TLS material'' e))
         | Inr tls \<Rightarrow>
             (case GenerateEnvoyYAML \<lparr>cfgAllowlist = Allowlist net, cfgCredentials = resolved,
                                      cfgTLS = Some tls\<rparr> of
                Inl e \<Rightarrow> ret (Inl (wrapf ''generating envoy config'' e))
              | Inr yaml \<Rightarrow> ret (Inr \<lparr>EnvoyYAML = yaml, pcCACert = Some (CACert tls), pcTLS = Some tls\<rparr>))))
    (\<lambda>r _. case r of Inl _ \<Rightarrow> True | Inr pc \<Rightarrow>
     (\<exists>tls creds. pcTLS pc = Some tls \<and> pcCACert pc = Some (CACert tls) \<and>
        EnvoyYAML pc = envoyTemplate \<lparr>cfgAllowlist = Allowlist net, cfgCredentials = creds, cfgTLS = Some tls\<rparr> \<and>
        map rcDomain creds = filter (\<lambda>d. d \<noteq> []) (map credDomain (Credentials net)) \<and>
        map dcDomain (Certs tls) = map rcDomain creds)) tr'"
  proof (cases rc)
    case (Inr resolved)
    show ?thesis
      unfolding Inr sum.case wp_bind
      by (rule wp_mono [OF wp_GenerateTLS_domains])
        (use rc Inr in \<open>auto simp: wp_simps GenerateEnvoyYAML_def split: sum.splits\<close>)
  qed (simp add: wp_simps)
qed

section \<open>Properties\<close>

text \<open>
  C27. A cold boot never asks the Snapshotter anything, so a stored snapshot is not restored; the only pod
  it creates carries the tenant's labels, in the claim's namespace, and refers to no Secret when the
  scopes are [none], else to the claim's token Secret alone and only once some answer said that
  this Secret exists.
\<close>

theorem cold_boot_order:
  "guarded (coldGuard claim wl) [] (appended (coldBoot E R claim wl) tr)"
  by (rule guarded_appendedI [OF wp_coldBoot])

text \<open>
  C28. Acquiring a pool pod: the pod is written only to be relabelled for the tenant; a snapshot is
  injected only into the pod the API server returned for that write and after it was found; the claim's
  status is written only for that pod, with the source pool+data only after the injection
  succeeded; and no Secret is read or written, so a pool pod gets no token.
\<close>

theorem pool_claim_order:
  assumes "servesPods E" and "crSnapshots R = Some (managerSnapshotter E s)"
  shows "guarded (poolGuard claim poolPod) [] (appended (claimFromPool E R claim poolPod wl) tr)"
  by (rule guarded_appendedI [OF manager.wp_claimFromPool [OF assms]])

theorem pool_claim_order_witness:
  "guarded (poolGuard demoClaim demoPod) [] (appended (claimFromPool demoEnv demoReconciler demoClaim
     demoPod demoWorkload) [])"
  using pool_claim_order [OF demoEnv_serves, of demoReconciler "\<lparr>smNamespace = ''ns''\<rparr>"]
  by (simp add: demoReconciler_def)

text \<open>
  The files the sidecar needs are there: the proxy built for a workload has, in order, one certificate
  per credential with a domain, and its ConfigMap stores the rendered configuration for exactly those
  credentials and, when the safe names of the domains differ, each domain's certificate and key under
  the file names that the configuration's filter chain of that domain refers to.
\<close>

theorem proxy_files:
  assumes "result (BuildProxyConfig E ns net) tr = Inr pc"
    and "distinct (map SafeDomain (filter (\<lambda>d. d \<noteq> []) (map credDomain (Credentials net))))"
  shows "\<exists>tls creds. pcTLS pc = Some tls \<and>
    map rcDomain creds = filter (\<lambda>d. d \<noteq> []) (map credDomain (Credentials net)) \<and>
    map dcDomain (Certs tls) = map rcDomain creds \<and>
    cmData (buildProxyConfigMap opts pc labels name) ''envoy.yaml'' = Some (envoyTemplate
       \<lparr>cfgAllowlist = Allowlist net, cfgCredentials = creds, cfgTLS = Some tls\<rparr>) \<and>
    list_all (\<lambda>dc. cmData (buildProxyConfigMap opts pc labels name) (SafeDomain (dcDomain dc) @ ''.crt'') = Some (dcCert dc) \<and>
       cmData (buildProxyConfigMap opts pc labels name) (SafeDomain (dcDomain dc) @ ''.key'') = Some (dcKey dc))
      (Certs tls)"
proof -
  from wp_BuildProxyConfig [of E ns net tr] assms(1) obtain tls creds where
    pc: "pcTLS pc = Some tls" "pcCACert pc = Some (CACert tls)"
      "EnvoyYAML pc = envoyTemplate \<lparr>cfgAllowlist = Allowlist net, cfgCredentials = creds, cfgTLS = Some tls\<rparr>"
    and ds: "map rcDomain creds = filter (\<lambda>d. d \<noteq> []) (map credDomain (Credentials net))"
      "map dcDomain (Certs tls) = map rcDomain creds"
    by (auto simp: wp_def result_def split: prod.splits)
  have "map SafeDomain (map dcDomain (Certs tls)) = map (\<lambda>dc. SafeDomain (dcDomain dc)) (Certs tls)"
    by simp
  with ds assms(2) have dist: "distinct (map (\<lambda>dc. SafeDomain (dcDomain dc)) (Certs tls))" by metis
  have yaml: "\<forall>dc \<in> set (Certs tls). ''envoy.yaml'' \<noteq> SafeDomain (dcDomain dc) @ ''.crt'' \<and>
      ''envoy.yaml'' \<noteq> SafeDomain (dcDomain dc) @ ''.key''"
    by (auto dest: arg_cong [where f = last])
  show ?thesis
    using pc ds addCerts_mem [OF dist] addCerts_other [OF yaml]
    by (intro exI [of _ tls] exI [of _ creds]) (simp add: buildProxyConfigMap_def Let_def list_all_iff)
qed

text \<open>A network with one credential, and working X.509 routines.\<close>

definition proxyNet :: WorkloadNetwork where
  "proxyNet = \<lparr>Access = ''restricted'', Expose = [], Allowlist = [],
     Credentials = [\<lparr>credDomain = ''api.x'', credHeaders = []\<rparr>], Websocket = []\<rparr>"

definition proxyEnv :: env where
  "proxyEnv = offlineEnv\<lparr>crypto := \<lambda>_ _. Inr ''k''\<rparr>"

lemma proxy_builds:
  "result (BuildProxyConfig proxyEnv ''ns'' proxyNet) [] = Inr (projr (result (BuildProxyConfig proxyEnv ''ns'' proxyNet) []))"
  by (simp add: result_def BuildProxyConfig_def ResolveCredentials_def GenerateTLS_def randomSerial_def
      generateLeaf_def GenerateEnvoyYAML_def api_defs proxyEnv_def proxyNet_def)

theorem proxy_files_witness:
  "\<exists>tls. pcTLS (projr (result (BuildProxyConfig proxyEnv ''ns'' proxyNet) [])) = Some tls \<and>
     map dcDomain (Certs tls) = [''api.x'']"
proof -
  have creds: "filter (\<lambda>d. d \<noteq> []) (map credDomain (Credentials proxyNet)) = [''api.x'']"
    by (simp add: proxyNet_def)
  from proxy_files [OF proxy_builds, of exampleOpts Map.empty "''p''"] show ?thesis
    unfolding creds by auto
qed

end
