(* ===== verification/Claim_Release.thy ===== *)
theory Claim_Release
  imports Claim_Pods
begin

text \<open>
  \<open>claim_release.go\<close>: releasing an idle claim and deleting a claim.  Both extract the overlay of
  the tenant's pod before the pod is deleted, with bounded retries, and both revoke the token.
\<close>

section \<open>Extraction with retries\<close>

definition defaultExtractRetryBackoff :: "int list" where
  "defaultExtractRetryBackoff = [1 * second, 4 * second, 16 * second]"

definition extractBackoff :: "ClaimReconciler \<Rightarrow> int list" where
  "extractBackoff R = (if ExtractRetryBackoff R = [] then defaultExtractRetryBackoff
                       else ExtractRetryBackoff R)"

text \<open>The loop over the schedule; the wait that follows the last attempt is left out.\<close>

fun extractAttempts :: "env \<Rightarrow> snapshotter \<Rightarrow> string \<Rightarrow> string \<Rightarrow> string \<Rightarrow> string list \<Rightarrow> int list
    \<Rightarrow> err option \<Rightarrow> err option io" where
  "extractAttempts E S p t w dirs [] lastErr = ret lastErr"
| "extractAttempts E S p t w dirs (d # ds) lastErr = do {
     r \<leftarrow> extractAndStore S p t w dirs;
     case r of
       None \<Rightarrow> ret None
     | Some e \<Rightarrow>
         if ds = [] then ret (Some e)
         else do {
           fired \<leftarrow> waitTimer E d;
           if fired then extractAttempts E S p t w dirs ds (Some e)
           else ret (Some (errorf ''context canceled''))
         }
   }"

definition extractWithRetry :: "env \<Rightarrow> ClaimReconciler \<Rightarrow> snapshotter \<Rightarrow> string \<Rightarrow> string \<Rightarrow> string
    \<Rightarrow> string list \<Rightarrow> err option io" where
  "extractWithRetry E R S p t w dirs = extractAttempts E S p t w dirs (extractBackoff R) None"

definition markReleaseFailed :: "env \<Rightarrow> BoilerhouseClaim \<Rightarrow> string \<Rightarrow> (err + Result) io" where
  "markReleaseFailed E claim detail =
     updateClaimStatus E claim ((claimStatus claim)\<lparr>claimPhase := ''ReleaseFailed'',
       claimDetail := detail\<rparr>) (requeueAfter releaseFailedRequeue)"

section \<open>Release\<close>

text \<open>The overlay extraction of a release: the error that keeps the pod, if any.\<close>

definition releaseExtract :: "env \<Rightarrow> ClaimReconciler \<Rightarrow> BoilerhouseClaim \<Rightarrow> Pod \<Rightarrow> string
    \<Rightarrow> err option io" where
  "releaseExtract E R claim pod action =
     (case crSnapshots R of
        None \<Rightarrow> ret None
      | Some S \<Rightarrow>
          if action \<noteq> ''hibernate'' then ret None
          else do {
            g \<leftarrow> getObj WorkloadEv (workloads E)
                   (nsName (Namespace (claimMeta claim)) (claimWorkloadRef (claimSpec claim)));
            case g of
              Inl _ \<Rightarrow> ret None
            | Inr wl \<Rightarrow>
                if overlayDirs wl \<noteq> []
                then extractWithRetry E R S (podName pod) (claimTenantId (claimSpec claim))
                       (claimWorkloadRef (claimSpec claim)) (overlayDirs wl)
                else ret None
          })"

text \<open>\<open>action == "destroy"\<close>: the stored snapshot goes too; an error is only logged.\<close>

definition destroySnapshot :: "ClaimReconciler \<Rightarrow> BoilerhouseClaim \<Rightarrow> string \<Rightarrow> unit io" where
  "destroySnapshot R claim action =
     (case crSnapshots R of
        None \<Rightarrow> ret ()
      | Some S \<Rightarrow>
          if action = ''destroy'' then do {
            r \<leftarrow> deleteSnapshot S (claimTenantId (claimSpec claim)) (claimWorkloadRef (claimSpec claim));
            ret ()
          }
          else ret ())"

definition finishRelease :: "env \<Rightarrow> BoilerhouseClaim \<Rightarrow> string \<Rightarrow> (err + Result) io" where
  "finishRelease E claim action = do {
     t \<leftarrow> deleteClaimToken E claim;
     case t of
       Some e \<Rightarrow> ret (Inl (wrapf ''revoking claim token'' e))
     | None \<Rightarrow> updateClaimStatus E claim ((claimStatus claim)\<lparr>claimPhase := ''Released'',
         claimDetail := ''idle timeout ('' @ action @ '')''\<rparr>) noResult
   }"

definition extractFailedDetail :: "err \<Rightarrow> string" where
  "extractFailedDetail e = ''snapshot extract failed: '' @ err_msg e"

text \<open>What a release does with the tenant's pod.\<close>

definition releasePod :: "env \<Rightarrow> ClaimReconciler \<Rightarrow> BoilerhouseClaim \<Rightarrow> string \<Rightarrow> Pod \<Rightarrow> (err + Result) io" where
  "releasePod E R claim action pod = do {
     x \<leftarrow> releaseExtract E R claim pod action;
     case x of
       Some e \<Rightarrow> markReleaseFailed E claim (extractFailedDetail e)
     | None \<Rightarrow> do {
         u \<leftarrow> destroySnapshot R claim action;
         d \<leftarrow> deleteObj PodEv (pods E) (podKey pod);
         case deleteFailed d of
           Some e \<Rightarrow> ret (Inl (wrapf ''deleting pod on release'' e))
         | None \<Rightarrow> finishRelease E claim action
       }
   }"

definition releaseClaim :: "env \<Rightarrow> ClaimReconciler \<Rightarrow> BoilerhouseClaim \<Rightarrow> string \<Rightarrow> (err + Result) io" where
  "releaseClaim E R claim action = do {
     f \<leftarrow> findTenantPod E (Namespace (claimMeta claim)) (claimTenantId (claimSpec claim))
            (claimWorkloadRef (claimSpec claim));
     case f of
       Inl e \<Rightarrow> ret (Inl e)
     | Inr None \<Rightarrow> finishRelease E claim action
     | Inr (Some pod) \<Rightarrow> releasePod E R claim action pod
   }"

section \<open>Deletion\<close>

definition finishDeletion :: "env \<Rightarrow> BoilerhouseClaim \<Rightarrow> (err + Result) io" where
  "finishDeletion E claim = do {
     t \<leftarrow> deleteClaimToken E claim;
     case t of
       Some e \<Rightarrow> ret (Inl (wrapf ''revoking claim token on deletion'' e))
     | None \<Rightarrow> do {
         u \<leftarrow> updateObj ClaimEv (claims E)
                (claim\<lparr>claimMeta := RemoveFinalizer (claimMeta claim) finalizerName\<rparr>);
         ret (resultOf u)
       }
   }"

text \<open>The workload the deletion works with (a failed Get leaves the zero value), and the idle action.\<close>

definition workloadOrZero :: "err + BoilerhouseWorkload \<Rightarrow> BoilerhouseWorkload" where
  "workloadOrZero g = (case g of Inl _ \<Rightarrow> zeroWorkload | Inr wl \<Rightarrow> wl)"

definition deletionAction :: "BoilerhouseWorkload \<Rightarrow> string" where
  "deletionAction wl = (case wlIdle (wlSpec wl) of
     None \<Rightarrow> ''hibernate''
   | Some i \<Rightarrow> if idleAction i \<noteq> [] then idleAction i else ''hibernate'')"

definition deletionExtract :: "env \<Rightarrow> ClaimReconciler \<Rightarrow> BoilerhouseClaim \<Rightarrow> BoilerhouseWorkload \<Rightarrow> Pod
    \<Rightarrow> err option io" where
  "deletionExtract E R claim wl pod =
     (case crSnapshots R of
        None \<Rightarrow> ret None
      | Some S \<Rightarrow>
          if deletionAction wl = ''hibernate'' \<and> overlayDirs wl \<noteq> []
          then extractWithRetry E R S (podName pod) (claimTenantId (claimSpec claim))
                 (claimWorkloadRef (claimSpec claim)) (overlayDirs wl)
          else ret None)"

text \<open>What a deletion does with the tenant's pod.\<close>

definition removePod :: "env \<Rightarrow> ClaimReconciler \<Rightarrow> BoilerhouseClaim \<Rightarrow> BoilerhouseWorkload \<Rightarrow> Pod
    \<Rightarrow> (err + Result) io" where
  "removePod E R claim wl pod = do {
     x \<leftarrow> deletionExtract E R claim wl pod;
     case x of
       Some e \<Rightarrow> ret (Inr (requeueAfter releaseFailedRequeue))
     | None \<Rightarrow> do {
         u \<leftarrow> destroySnapshot R claim (deletionAction wl);
         d \<leftarrow> deleteObj PodEv (pods E) (podKey pod);
         case deleteFailed d of
           Some e \<Rightarrow> ret (Inl (wrapf ''deleting pod on claim deletion'' e))
         | None \<Rightarrow> finishDeletion E claim
       }
   }"

definition handleDeletion :: "env \<Rightarrow> ClaimReconciler \<Rightarrow> BoilerhouseClaim \<Rightarrow> (err + Result) io" where
  "handleDeletion E R claim =
     (if \<not> ContainsFinalizer (claimMeta claim) finalizerName then ret (Inr noResult)
      else do {
        g \<leftarrow> getObj WorkloadEv (workloads E)
               (nsName (Namespace (claimMeta claim)) (claimWorkloadRef (claimSpec claim)));
        f \<leftarrow> findTenantPod E (Namespace (claimMeta claim)) (claimTenantId (claimSpec claim))
               (claimWorkloadRef (claimSpec claim));
        case f of
          Inl e \<Rightarrow> ret (Inl e)
        | Inr None \<Rightarrow> finishDeletion E claim
        | Inr (Some pod) \<Rightarrow> removePod E R claim (workloadOrZero g) pod
      })"

section \<open>Retries\<close>

text \<open>
  What the retry loop leaves on the trace when it returns \<open>r\<close>: quiet events only, success
  exactly when one attempt succeeded, at most \<open>n\<close> attempts.
\<close>

definition extractOutcome :: "string \<Rightarrow> snap_event \<Rightarrow> nat \<Rightarrow> err option \<Rightarrow> event list \<Rightarrow> bool" where
  "extractOutcome ns ok n r evs \<longleftrightarrow> list_all (snapQuiet ns) evs \<and>
     (r = None \<longleftrightarrow> SnapEv ok \<in> set evs) \<and> length (filter isExtractEv evs) \<le> n"

context overlay_storage
begin

lemma wp_extractAttempts:
  assumes "servesPods E" and "ds \<noteq> []"
  shows "wp (extractAttempts E S p t w dirs ds le)
     (\<lambda>r tr'. \<exists>evs. tr' = tr @ evs \<and>
        extractOutcome ns (ExtractEv p t w dirs None) (length ds) r evs) tr"
  using assms(2)
proof (induction ds arbitrary: le tr)
  case (Cons d ds)
  show ?case
  proof (cases "ds = []")
    case True
    show ?thesis
      unfolding extractAttempts.simps wp_bind
      by (rule wp_extractAndStore [OF assms(1)])
        (auto simp: True wp_simps extractOutcome_def storage_no_extract storage_no_snap
          storage_list_quiet split: option.split)
  next
    case False
    note IH = Cons.IH [OF False]
    show ?thesis
      unfolding extractAttempts.simps wp_bind
    proof (rule wp_extractAndStore [OF assms(1)])
      fix r evs
      assume evs: "list_all (storageEvent ns) evs"
      let ?x = "SnapEv (ExtractEv p t w dirs r)"
      show "wp (case r of None \<Rightarrow> ret None
                 | Some e \<Rightarrow> if ds = [] then ret (Some e)
                     else waitTimer E d \<bind> (\<lambda>fired. if fired then extractAttempts E S p t w dirs ds (Some e)
                           else ret (Some (errorf ''context canceled''))))
        (\<lambda>r tr'. \<exists>evs. tr' = tr @ evs \<and> extractOutcome ns (ExtractEv p t w dirs None) (length (d # ds)) r evs)
        (tr @ evs @ [?x])"
      proof (cases r)
        case None
        with evs show ?thesis
          by (auto simp: wp_simps extractOutcome_def storage_no_extract storage_list_quiet)
      next
        case (Some e)
        have "wp (extractAttempts E S p t w dirs ds (Some e))
          (\<lambda>r tr'. \<exists>evs. tr' = tr @ evs \<and>
             extractOutcome ns (ExtractEv p t w dirs None) (length (d # ds)) r evs)
          (tr @ evs @ [?x, WaitEv d b])" for b
          by (rule wp_shift [OF IH])
            (use evs Some in \<open>auto simp: extractOutcome_def storage_no_extract storage_no_snap storage_list_quiet\<close>)
        with Some False evs show ?thesis
          by (auto simp: wp_simps waitTimer_def extractOutcome_def storage_no_extract
              storage_no_snap storage_list_quiet)
      qed
    qed
  qed
qed simp

lemma extractBackoff_nonempty [simp]: "extractBackoff R \<noteq> []"
  by (simp add: extractBackoff_def defaultExtractRetryBackoff_def)

lemma wp_extractWithRetry:
  assumes "servesPods E"
    and "\<And>r evs. extractOutcome ns (ExtractEv p t w dirs None) (length (extractBackoff R)) r evs \<Longrightarrow>
           Q r (tr @ evs)"
  shows "wp (extractWithRetry E R S p t w dirs) Q tr"
  unfolding extractWithRetry_def
  by (rule wp_mono [OF wp_extractAttempts [OF assms(1)]]) (auto intro: assms(2))

end

section \<open>The order of a release\<close>

text \<open>The answer of \<open>findTenantPod\<close>'s List, the revocation of the token, the end of the pod.\<close>

definition tenantListed :: "BoilerhouseClaim \<Rightarrow> Pod list \<Rightarrow> event list \<Rightarrow> bool" where
  "tenantListed claim ps pre \<longleftrightarrow>
     PodEv (ListEv (Namespace (claimMeta claim)) (tenantSelector (claimTenantId (claimSpec claim))
       (claimWorkloadRef (claimSpec claim))) (Inr ps)) \<in> set pre"

definition tokenRevoked :: "BoilerhouseClaim \<Rightarrow> event list \<Rightarrow> bool" where
  "tokenRevoked claim pre \<longleftrightarrow>
     (\<exists>d. SecretEv (DeleteEv (tokenKey claim) d) \<in> set pre \<and> deleteFailed d = None)"

definition podGone :: "BoilerhouseClaim \<Rightarrow> event list \<Rightarrow> bool" where
  "podGone claim pre \<longleftrightarrow> tenantListed claim [] pre \<or>
     (\<exists>pod ps d. tenantListed claim (pod # ps) pre \<and>
        PodEv (DeleteEv (podKey pod) d) \<in> set pre \<and> deleteFailed d = None)"

text \<open>
  The overlay of \<open>pod\<close> is stored: the workload was read, and unless the read failed, or the
  workload has no overlay directories or another idle action, an extraction succeeded.
\<close>

definition overlaySaved :: "(BoilerhouseWorkload \<Rightarrow> bool) \<Rightarrow> BoilerhouseClaim \<Rightarrow> Pod \<Rightarrow> event list \<Rightarrow> bool" where
  "overlaySaved extracts claim pod pre \<longleftrightarrow>
     (\<exists>g. WorkloadEv (GetEv (nsName (Namespace (claimMeta claim))
             (claimWorkloadRef (claimSpec claim))) g) \<in> set pre \<and>
        (case g of
           Inl _ \<Rightarrow> True
         | Inr wl \<Rightarrow> \<not> extracts wl \<or> overlayDirs wl = [] \<or>
             SnapEv (ExtractEv (podName pod) (claimTenantId (claimSpec claim))
               (claimWorkloadRef (claimSpec claim)) (overlayDirs wl) None) \<in> set pre))"

lemma overlaySaved_mono:
  assumes "overlaySaved extracts claim pod xs" and "set xs \<subseteq> set ys"
  shows "overlaySaved extracts claim pod ys"
proof -
  from assms(1) obtain g where "WorkloadEv (GetEv (nsName (Namespace (claimMeta claim))
             (claimWorkloadRef (claimSpec claim))) g) \<in> set xs"
    "case g of Inl _ \<Rightarrow> True
         | Inr wl \<Rightarrow> \<not> extracts wl \<or> overlayDirs wl = [] \<or>
             SnapEv (ExtractEv (podName pod) (claimTenantId (claimSpec claim))
               (claimWorkloadRef (claimSpec claim)) (overlayDirs wl) None) \<in> set xs"
    unfolding overlaySaved_def by auto
  with assms(2) show ?thesis
    unfolding overlaySaved_def by (intro exI [of _ g]) (auto split: sum.splits)
qed

text \<open>No pod but the helper pod of namespace \<open>hns\<close> was deleted, and no Secret.\<close>

definition nothingDeleted :: "string \<Rightarrow> event list \<Rightarrow> bool" where
  "nothingDeleted hns pre \<longleftrightarrow>
     list_all (\<lambda>e. case e of PodEv (DeleteEv k _) \<Rightarrow> k = helperKey hns | SecretEv (DeleteEv _ _) \<Rightarrow> False
                 | _ \<Rightarrow> True) pre"

definition releaseGuard :: "string \<Rightarrow> string \<Rightarrow> BoilerhouseClaim \<Rightarrow> event list \<Rightarrow> event \<Rightarrow> bool" where
  "releaseGuard hns action claim pre e =
     (case e of
        PodEv (DeleteEv k d) \<Rightarrow> k = helperKey hns \<or>
          (\<exists>pod ps. tenantListed claim (pod # ps) pre \<and> k = podKey pod \<and>
             (action \<noteq> ''hibernate'' \<or> overlaySaved (\<lambda>_. True) claim pod pre))
      | ClaimEv (StatusEv c r) \<Rightarrow>
          if claimPhase (claimStatus c) = ''ReleaseFailed'' then nothingDeleted hns pre
          else claimPhase (claimStatus c) = ''Released'' \<and> podGone claim pre \<and> tokenRevoked claim pre
      | ClaimEv _ \<Rightarrow> False
      | _ \<Rightarrow> True)"

lemma quiet_releaseGuard: "snapQuiet hns e \<Longrightarrow> releaseGuard hns action claim pre e"
  by (auto simp: releaseGuard_def split: event.splits kev.splits)

lemma quiet_nothingDeleted: "list_all (snapQuiet hns) evs \<Longrightarrow> nothingDeleted hns evs"
  by (fastforce simp: nothingDeleted_def list_all_iff split: event.splits kev.splits)

lemma nothingDeleted_simps [simp]:
  "nothingDeleted hns []" "nothingDeleted hns (xs @ ys) \<longleftrightarrow> nothingDeleted hns xs \<and> nothingDeleted hns ys"
  "nothingDeleted hns (PodEv (ListEv n l r) # xs) = nothingDeleted hns xs"
  "nothingDeleted hns (WorkloadEv we # xs) = nothingDeleted hns xs"
  by (simp_all add: nothingDeleted_def)

lemma wp_deleteClaimToken:
  assumes "\<And>d. Q (case deleteFailed d of Some e \<Rightarrow> Some (wrapf ''deleting token secret'' e) | None \<Rightarrow> None)
              (tr @ [SecretEv (DeleteEv (tokenKey claim) d)])"
  shows "wp (deleteClaimToken E claim) Q tr"
  using assms [of "k_delete (secrets E) tr (tokenKey claim)"]
  by (auto simp: deleteClaimToken_def deleteObj_def wp_simps split: option.splits)

lemma wp_finishRelease:
  assumes "guarded (releaseGuard hns action claim) [] pre" and "podGone claim pre"
  shows "wp (finishRelease E claim action)
     (\<lambda>r tr'. \<exists>evs. tr' = tr @ evs \<and> guarded (releaseGuard hns action claim) pre evs) tr"
  unfolding finishRelease_def wp_bind
  apply (rule wp_deleteClaimToken)
  using assms
  by (auto simp: wp_simps updateClaimStatus_def statusObj_def releaseGuard_def tokenRevoked_def
      podGone_def tenantListed_def split: option.splits sum.splits)

context overlay_storage
begin

lemma wp_releaseExtract:
  assumes "servesPods E" and "crSnapshots R = Some S"
    and "\<And>r evs. list_all (\<lambda>e. snapQuiet ns e \<or> (\<exists>we. e = WorkloadEv we)) evs \<Longrightarrow>
           (r = None \<Longrightarrow> action = ''hibernate'' \<Longrightarrow> overlaySaved (\<lambda>_. True) claim pod evs) \<Longrightarrow> Q r (tr @ evs)"
  shows "wp (releaseExtract E R claim pod action) Q tr"
proof (cases "action = ''hibernate''")
  case False
  with assms(2) assms(3) [of "[]"] show ?thesis
    by (simp add: releaseExtract_def wp_simps)
next
  case True
  let ?wk = "nsName (Namespace (claimMeta claim)) (claimWorkloadRef (claimSpec claim))"
  let ?g = "k_get (workloads E) tr ?wk"
  show ?thesis
  proof (cases ?g)
    case (Inl e)
    with True assms(2) assms(3) [of "[WorkloadEv (GetEv ?wk ?g)]" None] show ?thesis
      by (auto simp: releaseExtract_def wp_simps getObj_def overlaySaved_def)
  next
    case (Inr wl)
    show ?thesis
    proof (cases "overlayDirs wl = []")
      case True
      with \<open>action = _\<close> Inr assms(2) assms(3) [of "[WorkloadEv (GetEv ?wk ?g)]" None] show ?thesis
        by (auto simp: releaseExtract_def wp_simps getObj_def overlaySaved_def)
    next
      case False
      have "Q r ((tr @ [WorkloadEv (GetEv ?wk ?g)]) @ evs)"
        if "extractOutcome ns (ExtractEv (podName pod) (claimTenantId (claimSpec claim))
              (claimWorkloadRef (claimSpec claim)) (overlayDirs wl) None) n r evs" for n r evs
      proof -
        have "overlaySaved (\<lambda>_. True) claim pod (WorkloadEv (GetEv ?wk ?g) # evs)" if "r = None"
          using that \<open>extractOutcome _ _ _ _ _\<close> Inr
          by (auto simp: extractOutcome_def overlaySaved_def intro!: exI [of _ "Inr wl"])
        then show ?thesis
          using that assms(3) [of "WorkloadEv (GetEv ?wk ?g) # evs" r]
          by (auto simp: extractOutcome_def list_all_iff)
      qed
      with False True Inr assms(1,2) show ?thesis
        by (auto simp: releaseExtract_def wp_simps getObj_def intro!: wp_extractWithRetry)
    qed
  qed
qed

lemma wp_destroySnapshot:
  assumes "servesPods E" and "crSnapshots R = Some S"
    and "\<And>evs. list_all (snapQuiet ns) evs \<Longrightarrow> Q () (tr @ evs)"
  shows "wp (destroySnapshot R claim action) Q tr"
  unfolding destroySnapshot_def assms(2) option.case
  using assms(3) [of "[]"]
  by (auto simp: wp_simps storage_list_quiet intro!: wp_deleteSnapshot [OF assms(1)] assms(3))

lemma wp_destroyAndDelete:
  assumes "servesPods E" and "crSnapshots R = Some S"
    and quiet: "\<And>pre e. snapQuiet ns e \<Longrightarrow> G pre e" and "guarded G [] pre"
    and listed: "tenantListed claim (pod # ps) pre"
    and del: "\<And>pre' d. set pre \<subseteq> set pre' \<Longrightarrow> G pre' (PodEv (DeleteEv (podKey pod) d))"
    and fin: "\<And>evs. guarded G [] evs \<Longrightarrow> podGone claim evs \<Longrightarrow>
               wp fin (\<lambda>r tr'. guarded G [] (drop (length tr) tr')) (tr @ evs)"
  shows "wp (destroySnapshot R claim action \<bind> (\<lambda>u. deleteObj PodEv (pods E) (podKey pod) \<bind>
             (\<lambda>d. case deleteFailed d of Some e \<Rightarrow> ret (Inl (wrapf msg e)) | None \<Rightarrow> fin)))
           (\<lambda>r tr'. guarded G [] (drop (length tr) tr')) (tr @ pre)"
  unfolding wp_bind
proof (rule wp_destroySnapshot [OF assms(1,2)])
  fix evs
  assume "list_all (snapQuiet ns) evs"
  then have g: "guarded G pre evs" by (rule guarded_list_all) (rule quiet)
  let ?d = "\<lambda>d. PodEv (DeleteEv (podKey pod) d)"
  have "guarded G [] ((pre @ evs) @ [?d d])" for d
    using assms(4) g del [of "pre @ evs" d] by simp
  moreover have "podGone claim ((pre @ evs) @ [?d d])" if "deleteFailed d = None" for d
    using listed that unfolding podGone_def tenantListed_def by fastforce
  ultimately show "wp (deleteObj PodEv (pods E) (podKey pod))
     (\<lambda>d. wp (case deleteFailed d of Some e \<Rightarrow> ret (Inl (wrapf msg e)) | None \<Rightarrow> fin)
        (\<lambda>r tr'. guarded G [] (drop (length tr) tr'))) ((tr @ pre) @ evs)"
    using fin by (simp add: deleteObj_def wp_simps split: option.split)
qed

lemma wp_releasePod:
  assumes "servesPods E" and "crSnapshots R = Some S"
    and g: "guarded (releaseGuard ns action claim) [] pre" and nd: "nothingDeleted ns pre"
    and listed: "tenantListed claim (pod # ps) pre"
  shows "wp (releasePod E R claim action pod)
     (\<lambda>r tr'. guarded (releaseGuard ns action claim) [] (drop (length tr) tr')) (tr @ pre)"
  unfolding releasePod_def wp_bind
proof (rule wp_releaseExtract [OF assms(1,2)])
  let ?G = "releaseGuard ns action claim"
  fix r :: "err option" and evs
  assume evs: "list_all (\<lambda>e. snapQuiet ns e \<or> (\<exists>we. e = WorkloadEv we)) evs"
    and saved: "r = None \<Longrightarrow> action = ''hibernate'' \<Longrightarrow> overlaySaved (\<lambda>_. True) claim pod evs"
  have "guarded ?G pre evs"
    by (rule guarded_list_all [OF evs]) (auto simp: quiet_releaseGuard, simp add: releaseGuard_def)
  with g have g2: "guarded ?G [] (pre @ evs)" by simp
  have listed2: "tenantListed claim (pod # ps) (pre @ evs)" using listed by (simp add: tenantListed_def)
  have nd2: "nothingDeleted ns (pre @ evs)"
    using nd evs by (fastforce simp: nothingDeleted_def list_all_iff split: event.splits kev.splits)
  have fin: "wp (finishRelease E claim action) (\<lambda>r tr'. guarded ?G [] (drop (length tr) tr')) (tr @ evs)"
    if "guarded ?G [] evs" "podGone claim evs" for evs
    by (rule wp_mono [OF wp_finishRelease [OF that]]) (auto simp: that)
  show "wp (case r of
       Some e \<Rightarrow> markReleaseFailed E claim (extractFailedDetail e)
     | None \<Rightarrow> destroySnapshot R claim action \<bind> (\<lambda>u. deleteObj PodEv (pods E) (podKey pod) \<bind>
         (\<lambda>d. case deleteFailed d of
           Some e \<Rightarrow> ret (Inl (wrapf ''deleting pod on release'' e))
         | None \<Rightarrow> finishRelease E claim action)))
     (\<lambda>r tr'. guarded ?G [] (drop (length tr) tr')) ((tr @ pre) @ evs)"
  proof (cases r)
    case (Some e)
    with g2 nd2 show ?thesis
      by (auto simp: markReleaseFailed_def updateClaimStatus_def statusObj_def wp_simps
          releaseGuard_def split: sum.splits)
  next
    case None
    have "?G pre' (PodEv (DeleteEv (podKey pod) d))" if "set (pre @ evs) \<subseteq> set pre'" for pre' d
      using overlaySaved_mono [OF saved [OF None], of pre'] listed that
      by (auto simp: releaseGuard_def tenantListed_def)
    from wp_destroyAndDelete [OF assms(1,2) quiet_releaseGuard g2 listed2 this fin] show ?thesis
      by (simp add: None)
  qed
qed

lemma wp_releaseClaim:
  assumes "servesPods E" and "crSnapshots R = Some S"
  shows "wp (releaseClaim E R claim action)
     (\<lambda>r tr'. guarded (releaseGuard ns action claim) [] (drop (length tr) tr')) tr"
proof -
  let ?sel = "tenantSelector (claimTenantId (claimSpec claim)) (claimWorkloadRef (claimSpec claim))"
  let ?ps = "k_list (pods E) tr (Namespace (claimMeta claim)) ?sel"
  let ?l = "PodEv (ListEv (Namespace (claimMeta claim)) ?sel ?ps)"
  let ?G = "releaseGuard ns action claim"
  have g: "guarded ?G [] [?l]" by (simp add: releaseGuard_def)
  have "wp (finishRelease E claim action) (\<lambda>r tr'. guarded ?G [] (drop (length tr) tr')) (tr @ [?l])"
    if "podGone claim [?l]"
    by (rule wp_mono [OF wp_finishRelease [OF g that]]) (auto simp: releaseGuard_def)
  with g wp_releasePod [OF assms g] show ?thesis
    unfolding releaseClaim_def findTenantPod_def listObj_def
    by (auto simp: wp_simps firstItem_def podGone_def tenantListed_def split: sum.split list.split)
qed

end

section \<open>The order of a deletion\<close>

definition deletionGuard :: "string \<Rightarrow> BoilerhouseClaim \<Rightarrow> event list \<Rightarrow> event \<Rightarrow> bool" where
  "deletionGuard hns claim pre e =
     (case e of
        PodEv (DeleteEv k d) \<Rightarrow> k = helperKey hns \<or>
          (\<exists>pod ps. tenantListed claim (pod # ps) pre \<and> k = podKey pod \<and>
             overlaySaved (\<lambda>wl. deletionAction wl = ''hibernate'') claim pod pre)
      | ClaimEv (UpdateEv c r) \<Rightarrow>
          \<not> ContainsFinalizer (claimMeta c) finalizerName \<and> podGone claim pre \<and> tokenRevoked claim pre
      | ClaimEv _ \<Rightarrow> False
      | SecretEv (DeleteEv k d) \<Rightarrow> k = tokenKey claim \<and> podGone claim pre
      | SecretEv _ \<Rightarrow> False
      | _ \<Rightarrow> True)"

lemma quiet_deletionGuard: "snapQuiet hns e \<Longrightarrow> deletionGuard hns claim pre e"
  by (auto simp: deletionGuard_def split: event.splits kev.splits)

lemma wp_finishDeletion:
  assumes "guarded (deletionGuard hns claim) [] pre" and "podGone claim pre"
  shows "wp (finishDeletion E claim)
     (\<lambda>r tr'. \<exists>evs. tr' = tr @ evs \<and> guarded (deletionGuard hns claim) pre evs) tr"
  unfolding finishDeletion_def wp_bind
  apply (rule wp_deleteClaimToken)
  using assms
  by (auto simp: wp_simps updateObj_def deletionGuard_def tokenRevoked_def
      podGone_def tenantListed_def split: option.splits)

context overlay_storage
begin

lemma wp_deletionExtract:
  assumes "servesPods E" and "crSnapshots R = Some S"
    and g: "WorkloadEv (GetEv (nsName (Namespace (claimMeta claim)) (claimWorkloadRef (claimSpec claim))) g) \<in> set pre"
    and post: "\<And>r evs. list_all (snapQuiet ns) evs \<Longrightarrow>
           (r = None \<Longrightarrow> overlaySaved (\<lambda>wl. deletionAction wl = ''hibernate'') claim pod (pre @ evs)) \<Longrightarrow>
           Q r (tr @ evs)"
  shows "wp (deletionExtract E R claim (workloadOrZero g) pod) Q tr"
proof (cases "deletionAction (workloadOrZero g) = ''hibernate'' \<and> overlayDirs (workloadOrZero g) \<noteq> []")
  case False
  then have "overlaySaved (\<lambda>wl. deletionAction wl = ''hibernate'') claim pod (pre @ [])"
    using g unfolding overlaySaved_def by (intro exI [of _ g]) (auto simp: workloadOrZero_def split: sum.splits)
  with False assms(2) post [of "[]"] show ?thesis
    by (auto simp: deletionExtract_def wp_simps)
next
  case True
  then obtain wl where wl: "g = Inr wl"
    by (cases g) (auto simp: workloadOrZero_def)
  have saved: "overlaySaved (\<lambda>wl. deletionAction wl = ''hibernate'') claim pod (pre @ evs)"
    if "SnapEv (ExtractEv (podName pod) (claimTenantId (claimSpec claim))
              (claimWorkloadRef (claimSpec claim)) (overlayDirs wl) None) \<in> set evs" for evs
    using g that unfolding overlaySaved_def by (intro exI [of _ g]) (auto simp: wl)
  have "Q r (tr @ evs)"
    if "extractOutcome ns (ExtractEv (podName pod) (claimTenantId (claimSpec claim))
          (claimWorkloadRef (claimSpec claim)) (overlayDirs wl) None) n r evs" for n r evs
    by (rule post) (use that saved [of evs] in \<open>auto simp: extractOutcome_def\<close>)
  with True wl assms(1,2) show ?thesis
    by (auto simp: deletionExtract_def workloadOrZero_def intro!: wp_extractWithRetry)
qed

lemma wp_removePod:
  assumes "servesPods E" and "crSnapshots R = Some S"
    and g: "guarded (deletionGuard ns claim) [] pre" and listed: "tenantListed claim (pod # ps) pre"
    and wl: "WorkloadEv (GetEv (nsName (Namespace (claimMeta claim)) (claimWorkloadRef (claimSpec claim))) w) \<in> set pre"
  shows "wp (removePod E R claim (workloadOrZero w) pod)
     (\<lambda>r tr'. guarded (deletionGuard ns claim) [] (drop (length tr) tr')) (tr @ pre)"
  unfolding removePod_def wp_bind
proof (rule wp_deletionExtract [OF assms(1,2) wl])
  let ?G = "deletionGuard ns claim"
  fix r :: "err option" and evs
  assume evs: "list_all (snapQuiet ns) evs"
    and saved: "r = None \<Longrightarrow> overlaySaved (\<lambda>wl. deletionAction wl = ''hibernate'') claim pod (pre @ evs)"
  have g2: "guarded ?G [] (pre @ evs)"
    using g guarded_list_all [OF evs, of ?G pre] by (simp add: quiet_deletionGuard)
  have listed2: "tenantListed claim (pod # ps) (pre @ evs)" using listed by (simp add: tenantListed_def)
  have fin: "wp (finishDeletion E claim) (\<lambda>r tr'. guarded ?G [] (drop (length tr) tr')) (tr @ evs)"
    if "guarded ?G [] evs" "podGone claim evs" for evs
    by (rule wp_mono [OF wp_finishDeletion [OF that]]) (auto simp: that)
  show "wp (case r of
       Some e \<Rightarrow> ret (Inr (requeueAfter releaseFailedRequeue))
     | None \<Rightarrow> destroySnapshot R claim (deletionAction (workloadOrZero w)) \<bind>
         (\<lambda>u. deleteObj PodEv (pods E) (podKey pod) \<bind>
         (\<lambda>d. case deleteFailed d of
           Some e \<Rightarrow> ret (Inl (wrapf ''deleting pod on claim deletion'' e))
         | None \<Rightarrow> finishDeletion E claim)))
     (\<lambda>r tr'. guarded ?G [] (drop (length tr) tr')) ((tr @ pre) @ evs)"
  proof (cases r)
    case (Some e)
    with g2 show ?thesis by (simp add: wp_simps)
  next
    case None
    have "?G pre' (PodEv (DeleteEv (podKey pod) d))" if "set (pre @ evs) \<subseteq> set pre'" for pre' d
      using overlaySaved_mono [OF saved [OF None] that] listed that
      by (auto simp: deletionGuard_def tenantListed_def)
    from wp_destroyAndDelete [OF assms(1,2) quiet_deletionGuard g2 listed2 this fin] show ?thesis
      by (simp add: None)
  qed
qed

lemma wp_handleDeletion:
  assumes "servesPods E" and "crSnapshots R = Some S"
  shows "wp (handleDeletion E R claim)
     (\<lambda>r tr'. guarded (deletionGuard ns claim) [] (drop (length tr) tr')) tr"
proof (cases "ContainsFinalizer (claimMeta claim) finalizerName")
  case False
  then show ?thesis by (simp add: handleDeletion_def wp_simps)
next
  case True
  let ?wk = "nsName (Namespace (claimMeta claim)) (claimWorkloadRef (claimSpec claim))"
  let ?sel = "tenantSelector (claimTenantId (claimSpec claim)) (claimWorkloadRef (claimSpec claim))"
  let ?w = "WorkloadEv (GetEv ?wk (k_get (workloads E) tr ?wk))"
  let ?l = "PodEv (ListEv (Namespace (claimMeta claim)) ?sel
       (k_list (pods E) (tr @ [?w]) (Namespace (claimMeta claim)) ?sel))"
  let ?G = "deletionGuard ns claim"
  have g: "guarded ?G [] [?w, ?l]" by (simp add: deletionGuard_def)
  have "wp (finishDeletion E claim) (\<lambda>r tr'. guarded ?G [] (drop (length tr) tr')) (tr @ [?w, ?l])"
    if "podGone claim [?w, ?l]"
    by (rule wp_mono [OF wp_finishDeletion [OF g that]]) (auto simp: deletionGuard_def)
  with True g wp_removePod [OF assms g] show ?thesis
    unfolding handleDeletion_def findTenantPod_def listObj_def getObj_def
    by (auto simp: wp_simps firstItem_def podGone_def tenantListed_def split: sum.split list.split)
qed

end

section \<open>Properties\<close>

text \<open>
  C1. Releasing a claim: a pod is deleted only when it is the first pod listed for the tenant and,
  with the action hibernate, its overlay is stored (an extraction succeeded, or the workload
  could not be read or has no overlay directories); the phase becomes Released only after the
  pod is gone and the token Secret was deleted; and it becomes ReleaseFailed only while no pod and
  no Secret has been deleted.
\<close>

theorem release_order:
  assumes "servesPods E" and "crSnapshots R = Some (managerSnapshotter E s)"
  shows "guarded (releaseGuard (smNamespace s) action claim) []
           (appended (releaseClaim E R claim action) tr)"
  by (rule guarded_appendedI [OF manager.wp_releaseClaim [OF assms]])

theorem release_order_witness:
  "guarded (releaseGuard ''ns'' ''hibernate'' demoClaim) []
     (appended (releaseClaim demoEnv demoReconciler demoClaim ''hibernate'') [])"
  using release_order [OF demoEnv_serves, of demoReconciler "\<lparr>smNamespace = ''ns''\<rparr>"]
  by (simp add: demoReconciler_def)

text \<open>
  C3. Deleting a claim: a pod is deleted only when it is the first one listed for the tenant and its
  overlay is stored, with the same exceptions; the claim is updated only to drop the finalizer, and
  only after the pod is gone and the token Secret was deleted; the one call on Secrets is the deletion of the
  claim's token, made only after the pod is gone.  So a failed extraction keeps the finalizer, the pod and the
  token.
\<close>

theorem deletion_order:
  assumes "servesPods E" and "crSnapshots R = Some (managerSnapshotter E s)"
  shows "guarded (deletionGuard (smNamespace s) claim) [] (appended (handleDeletion E R claim) tr)"
  by (rule guarded_appendedI [OF manager.wp_handleDeletion [OF assms]])

theorem deletion_order_witness:
  "guarded (deletionGuard ''ns'' demoClaim) [] (appended (handleDeletion demoEnv demoReconciler demoClaim) [])"
  using deletion_order [OF demoEnv_serves, of demoReconciler "\<lparr>smNamespace = ''ns''\<rparr>"]
  by (simp add: demoReconciler_def)

text \<open>
  The retries of an extraction: no more attempts than the backoff schedule has entries, the
  result is success exactly when an attempt succeeded, and meanwhile nothing happens to the cluster
  but storage work, attempts and waits.
\<close>

theorem extract_retries:
  assumes "servesPods E"
  shows "extractOutcome (smNamespace s) (ExtractEv p t w dirs None) (length (extractBackoff R))
     (result (extractWithRetry E R (managerSnapshotter E s) p t w dirs) tr)
     (appended (extractWithRetry E R (managerSnapshotter E s) p t w dirs) tr)"
proof -
  have "wp (extractWithRetry E R (managerSnapshotter E s) p t w dirs)
    (\<lambda>r tr'. extractOutcome (smNamespace s) (ExtractEv p t w dirs None) (length (extractBackoff R)) r
       (drop (length tr) tr')) tr"
    by (rule manager.wp_extractWithRetry [OF assms]) simp
  then show ?thesis by (simp only: wp_appended)
qed

theorem extract_retries_witness:
  "extractOutcome ''ns'' (ExtractEv ''p'' ''t'' ''w'' [''/workspace''] None) 1
     (result (extractWithRetry demoEnv demoReconciler (managerSnapshotter demoEnv \<lparr>smNamespace = ''ns''\<rparr>)
        ''p'' ''t'' ''w'' [''/workspace'']) [])
     (appended (extractWithRetry demoEnv demoReconciler (managerSnapshotter demoEnv \<lparr>smNamespace = ''ns''\<rparr>)
        ''p'' ''t'' ''w'' [''/workspace'']) [])"
  using extract_retries [OF demoEnv_serves, of "\<lparr>smNamespace = ''ns''\<rparr>" "''p''" "''t''" "''w''"
      "[''/workspace'']" demoReconciler "[]"]
  by (simp add: extractBackoff_def demoReconciler_def)

text \<open>
  A release whose workload cannot be read deletes the tenant's pod without extracting its overlay,
  whatever the error is: nothing is asked of the Snapshotter.
\<close>

theorem release_unread_workload:
  assumes "k_list (pods E) = (\<lambda>_ _ _. Inr [pod])" and "k_get (workloads E) = (\<lambda>_ _. Inl e)"
  shows "(\<exists>d. PodEv (DeleteEv (podKey pod) d) \<in> set (appended (releaseClaim E R claim ''hibernate'') tr)) \<and>
     (\<forall>ev. SnapEv ev \<notin> set (appended (releaseClaim E R claim ''hibernate'') tr))"
proof -
  have "wp (releaseClaim E R claim ''hibernate'') (\<lambda>r tr'.
     (\<exists>d. PodEv (DeleteEv (podKey pod) d) \<in> set (drop (length tr) tr')) \<and>
     (\<forall>ev. SnapEv ev \<notin> set (drop (length tr) tr'))) tr"
    using assms
    by (auto simp: releaseClaim_def releasePod_def findTenantPod_def firstItem_def releaseExtract_def destroySnapshot_def
        finishRelease_def deleteClaimToken_def updateClaimStatus_def api_defs wp_simps
        split: option.split sum.split)
  from this [unfolded wp_appended [where Q = "\<lambda>_ evs. (\<exists>d. PodEv (DeleteEv (podKey pod) d) \<in> set evs) \<and>
      (\<forall>ev. SnapEv ev \<notin> set evs)"]] show ?thesis .
qed

theorem release_unread_workload_witness:
  "(\<exists>d. PodEv (DeleteEv (podKey demoPod) d) \<in> set (appended (releaseClaim
      (demoEnv\<lparr>workloads := offlineKind\<rparr>) demoReconciler demoClaim ''hibernate'') [])) \<and>
   (\<forall>ev. SnapEv ev \<notin> set (appended (releaseClaim
      (demoEnv\<lparr>workloads := offlineKind\<rparr>) demoReconciler demoClaim ''hibernate'') []))"
  by (rule release_unread_workload [where e = offline]) (simp_all add: demoEnv_def offline_defs)

end
