(* ===== verification/Claim_Controller.thy ===== *)
theory Claim_Controller
  imports Claim_Release
begin

text \<open>
  \<open>claim_activate.go\<close> (\<open>handleActive\<close>) and \<open>claim_controller.go\<close>: the idle monitor of an active
  claim, the handling of a new claim, and \<open>Reconcile\<close>, which routes a claim by its phase.
\<close>

section \<open>Active claims\<close>

text \<open>The reference time of the idle timeout: the annotation, or the time of the claim.\<close>

definition lastActivityOf :: "env \<Rightarrow> BoilerhouseClaim \<Rightarrow> int" where
  "lastActivityOf E claim =
     (let str = lookupS (Annotations (claimMeta claim)) annotationLastActivity;
          t = (if str \<noteq> [] then (case parse_rfc3339 E str of Some t \<Rightarrow> t | None \<Rightarrow> zeroTime)
               else zeroTime)
      in if isZeroTime t
         then (case ClaimedAt (claimStatus claim) of Some c \<Rightarrow> c | None \<Rightarrow> t)
         else t)"

definition idleTimeout :: "WorkloadIdle \<Rightarrow> int" where
  "idleTimeout i = wrap64 (TimeoutSeconds i * second)"

definition idleActionOf :: "WorkloadIdle \<Rightarrow> string" where
  "idleActionOf i = (if idleAction i = [] then ''hibernate'' else idleAction i)"

text \<open>The pod behind the claim: whether a Get reports that it is gone.\<close>

definition backingPodGone :: "env \<Rightarrow> BoilerhouseClaim \<Rightarrow> bool io" where
  "backingPodGone E claim =
     (if InstanceId (claimStatus claim) = [] then ret False
      else do {
        p \<leftarrow> getObj PodEv (pods E)
               (nsName (Namespace (claimMeta claim)) (InstanceId (claimStatus claim)));
        ret (case p of Inl e \<Rightarrow> isNotFound e | Inr _ \<Rightarrow> False)
      })"

definition idleCheck :: "env \<Rightarrow> ClaimReconciler \<Rightarrow> BoilerhouseClaim \<Rightarrow> WorkloadIdle
    \<Rightarrow> (err + Result) io" where
  "idleCheck E R claim idle =
     (let lastActivity = lastActivityOf E claim
      in if isZeroTime lastActivity then ret (Inr (requeueAfter idleCheckInterval))
         else do {
           now \<leftarrow> timeNow E;
           let elapsed = timeSub now lastActivity;
           if elapsed \<ge> idleTimeout idle then releaseClaim E R claim (idleActionOf idle)
           else ret (Inr (requeueAfter (wrap64 (idleTimeout idle - elapsed))))
         })"

definition handleActive :: "env \<Rightarrow> ClaimReconciler \<Rightarrow> BoilerhouseClaim \<Rightarrow> (err + Result) io" where
  "handleActive E R claim = do {
     gone \<leftarrow> backingPodGone E claim;
     if gone
     then updateClaimStatus E claim ((claimStatus claim)\<lparr>claimPhase := ''Released'',
            claimDetail := ''backing pod no longer exists'', Endpoint := None\<rparr>) noResult
     else do {
       g \<leftarrow> getObj WorkloadEv (workloads E)
              (nsName (Namespace (claimMeta claim)) (claimWorkloadRef (claimSpec claim)));
       case g of
         Inl e \<Rightarrow> if isNotFound e then ret (Inr noResult) else ret (Inl e)
       | Inr wl \<Rightarrow>
           (case wlIdle (wlSpec wl) of
              None \<Rightarrow> ret (Inr noResult)
            | Some idle \<Rightarrow>
                if TimeoutSeconds idle \<le> 0 then ret (Inr noResult)
                else idleCheck E R claim idle)
     }
   }"

section \<open>New claims\<close>

definition setClaimError :: "env \<Rightarrow> BoilerhouseClaim \<Rightarrow> string \<Rightarrow> (err + Result) io" where
  "setClaimError E claim detail =
     updateClaimStatus E claim ((claimStatus claim)\<lparr>claimPhase := ''Error'',
       claimDetail := detail\<rparr>) noResult"

text \<open>A pool pod if one is ready, else a cold boot.\<close>

definition acquirePod :: "env \<Rightarrow> ClaimReconciler \<Rightarrow> BoilerhouseClaim \<Rightarrow> BoilerhouseWorkload
    \<Rightarrow> (err + Result) io" where
  "acquirePod E R claim wl = do {
     p \<leftarrow> findPoolPod E (Namespace (claimMeta claim)) (claimWorkloadRef (claimSpec claim));
     case p of
       Inl e \<Rightarrow> ret (Inl e)
     | Inr None \<Rightarrow> coldBoot E R claim wl
     | Inr (Some poolPod) \<Rightarrow> claimFromPool E R claim poolPod wl
   }"

definition placeClaim :: "env \<Rightarrow> ClaimReconciler \<Rightarrow> BoilerhouseClaim \<Rightarrow> BoilerhouseWorkload
    \<Rightarrow> (err + Result) io" where
  "placeClaim E R claim wl = do {
     f \<leftarrow> findTenantPod E (Namespace (claimMeta claim)) (claimTenantId (claimSpec claim))
            (claimWorkloadRef (claimSpec claim));
     case f of
       Inl e \<Rightarrow> ret (Inl e)
     | Inr None \<Rightarrow> acquirePod E R claim wl
     | Inr (Some pod) \<Rightarrow>
         if podPhase (podStatus pod) = ''Running'' then activateClaim E claim pod ''existing''
         else if podPhase (podStatus pod) = ''Failed'' \<or> podPhase (podStatus pod) = ''Succeeded''
         then do {
           d \<leftarrow> deleteObj PodEv (pods E) (podKey pod);
           case deleteFailed d of
             Some e \<Rightarrow> ret (Inl e)
           | None \<Rightarrow> acquirePod E R claim wl
         }
         else ret (Inr (requeueAfter (2 * second)))
   }"

definition handleNewClaim :: "env \<Rightarrow> ClaimReconciler \<Rightarrow> BoilerhouseClaim \<Rightarrow> (err + Result) io" where
  "handleNewClaim E R claim =
     (if \<not> ContainsFinalizer (claimMeta claim) finalizerName
      then do {
        u \<leftarrow> updateObj ClaimEv (claims E)
               (claim\<lparr>claimMeta := AddFinalizer (claimMeta claim) finalizerName\<rparr>);
        case u of
          Inl e \<Rightarrow> ret (Inl e)
        | Inr _ \<Rightarrow> ret (Inr requeueNow)
      }
      else if claimPhase (claimStatus claim) \<noteq> ''Pending''
      then updateClaimStatus E claim ((claimStatus claim)\<lparr>claimPhase := ''Pending''\<rparr>) requeueNow
      else do {
        g \<leftarrow> getObj WorkloadEv (workloads E)
               (nsName (Namespace (claimMeta claim)) (claimWorkloadRef (claimSpec claim)));
        case g of
          Inl e \<Rightarrow> if isNotFound e then setClaimError E claim ''workload not found'' else ret (Inl e)
        | Inr wl \<Rightarrow>
            if wlPhase (wlStatus wl) \<noteq> ''Ready'' then setClaimError E claim ''workload not ready''
            else placeClaim E R claim wl
      })"

section \<open>Reconcile\<close>

definition reconcileClaim :: "env \<Rightarrow> ClaimReconciler \<Rightarrow> NamespacedName \<Rightarrow> (err + Result) io" where
  "reconcileClaim E R req = do {
     g \<leftarrow> getObj ClaimEv (claims E) req;
     case g of
       Inl e \<Rightarrow> if isNotFound e then ret (Inr noResult) else ret (Inl e)
     | Inr claim \<Rightarrow>
         if isDeleting (claimMeta claim) then handleDeletion E R claim
         else if claimPhase (claimStatus claim) = ''Active'' then handleActive E R claim
         else if claimPhase (claimStatus claim) = ''Released'' then ret (Inr noResult)
         else if claimPhase (claimStatus claim) = ''ReleaseFailed'' then ret (Inr noResult)
         else handleNewClaim E R claim
   }"

section \<open>Phases\<close>

text \<open>The transitions a reconcile pass can write.\<close>

inductive claim_phase_step :: "string \<Rightarrow> string \<Rightarrow> bool" where
  pend: "p \<notin> {''Pending'', ''Active'', ''Released'', ''ReleaseFailed''} \<Longrightarrow> claim_phase_step p ''Pending''"
| wait: "claim_phase_step ''Pending'' ''Pending''"
| activate: "claim_phase_step ''Pending'' ''Active''"
| fail: "claim_phase_step ''Pending'' ''Error''"
| release: "claim_phase_step ''Active'' ''Released''"
| release_fail: "claim_phase_step ''Active'' ''ReleaseFailed''"

code_pred (modes: i \<Rightarrow> i \<Rightarrow> bool) claim_phase_step .

inductive_simps claim_phase_from_pending [simp]: "claim_phase_step ''Pending'' q"
inductive_simps claim_phase_from_active [simp]: "claim_phase_step ''Active'' q"
inductive_simps claim_phase_from_released [simp]: "claim_phase_step ''Released'' q"
inductive_simps claim_phase_from_failed [simp]: "claim_phase_step ''ReleaseFailed'' q"
inductive_cases claim_phase_activates: "claim_phase_step p ''Active''"

definition podSources :: "string list" where
  "podSources = [''cold'', ''pool'', ''pool+data'', ''existing'']"

text \<open>An active status: an address to talk to, a time, a source.\<close>

definition activeOk :: "BoilerhouseClaimStatus \<Rightarrow> bool" where
  "activeOk st \<longleftrightarrow> (case Endpoint st of None \<Rightarrow> False | Some ep \<Rightarrow> Host ep \<noteq> []) \<and>
     ClaimedAt st \<noteq> None \<and> Source st \<noteq> [] \<and> claimDetail st = []"

definition statusStep :: "BoilerhouseClaimStatus \<Rightarrow> BoilerhouseClaimStatus \<Rightarrow> bool" where
  "statusStep st st' \<longleftrightarrow> claim_phase_step (claimPhase st) (claimPhase st') \<and>
     (if claimPhase st' = ''Active'' then activeOk st' else True) \<and>
     Source st' \<in> set (Source st # podSources)"

text \<open>What a pass over claim \<open>c0\<close> writes to claims.\<close>

definition claimWrite :: "BoilerhouseClaim \<Rightarrow> event \<Rightarrow> bool" where
  "claimWrite c0 e = (case e of
      ClaimEv (GetEv k r) \<Rightarrow> True
    | ClaimEv (StatusEv c r) \<Rightarrow> claimMeta c = claimMeta c0 \<and> claimSpec c = claimSpec c0 \<and>
        statusStep (claimStatus c0) (claimStatus c)
    | ClaimEv (UpdateEv c r) \<Rightarrow> claimStatus c = claimStatus c0 \<and> claimSpec c = claimSpec c0 \<and>
        claimMeta c = (claimMeta c0)\<lparr>Finalizers := Finalizers (claimMeta c)\<rparr>
    | ClaimEv _ \<Rightarrow> False
    | _ \<Rightarrow> True)"

definition notClaim :: "event \<Rightarrow> bool" where
  "notClaim e = (case e of ClaimEv _ \<Rightarrow> False | _ \<Rightarrow> True)"

lemma notClaim_simps [simp, quiet_simps]:
  "\<not> notClaim (ClaimEv ce)" "notClaim (WorkloadEv we)" "notClaim (PodEv pe)"
  "notClaim (SecretEv se)" "notClaim (ConfigMapEv me)" "notClaim (SnapEv sn)" "notClaim (WaitEv d b)"
  "notClaim (TimeEv t)" "notClaim (RandEv n r)" "notClaim (CryptoEv c cr)"
  by (simp_all add: notClaim_def)

lemma notClaim_write: "notClaim e \<Longrightarrow> claimWrite c0 e"
  by (simp add: notClaim_def claimWrite_def split: event.splits)

lemma storage_notClaim: "storageEvent ns e \<Longrightarrow> notClaim e"
  by (auto simp: notClaim_def split: event.splits)

lemma emits_notClaim: "emits notClaim m \<Longrightarrow> emits (claimWrite c0) m"
  by (erule emits_mono) (rule notClaim_write)

lemma emits_updateClaimStatus:
  assumes "statusStep (claimStatus c0) st"
  shows "emits (claimWrite c0) (updateClaimStatus E c0 st res)"
  using assms by (auto simp: updateClaimStatus_def api_defs claimWrite_def intro!: emits_intros)

lemma keepSource_cases: "keepSource source old = source \<or> keepSource source old = old \<and> old \<noteq> []"
  by (auto simp: keepSource_def)

lemma podSources_nonempty: "source \<in> set podSources \<Longrightarrow> source \<noteq> []"
  by (auto simp: podSources_def)

lemma statusStep_active:
  assumes "claimPhase st = ''Pending''" and "source \<in> set podSources" and "ip \<noteq> []"
  shows "statusStep st (st\<lparr>claimPhase := ''Active'', InstanceId := n,
     Endpoint := Some \<lparr>Host = ip, Port = p\<rparr>, Source := keepSource source (Source st),
     ClaimedAt := Some now, claimDetail := []\<rparr>)"
  using assms keepSource_cases [of source "Source st"] podSources_nonempty [OF assms(2)]
  by (auto simp: statusStep_def activeOk_def)

lemma statusStep_waiting:
  assumes "claimPhase st = ''Pending''" and "source \<in> set podSources"
  shows "statusStep st (st\<lparr>Source := source, InstanceId := n\<rparr>)"
  using assms by (simp add: statusStep_def)

lemma emits_activateClaim:
  assumes "claimPhase (claimStatus c0) = ''Pending''" and "source \<in> set podSources"
  shows "emits (claimWrite c0) (activateClaim E c0 pod source)"
  unfolding activateClaim_def timeNow_def Let_def
  by (intro emits_intros emits_updateClaimStatus statusStep_active statusStep_waiting assms
      notClaim_write notClaim_simps) simp_all

lemma podSources_mem:
  "''cold'' \<in> set podSources" "''pool'' \<in> set podSources" "''pool+data'' \<in> set podSources"
  "''existing'' \<in> set podSources"
  by (simp_all add: podSources_def)

subsection \<open>Parts that leave claims alone\<close>

lemma proxy_notClaim: "proxyEvent ns e \<Longrightarrow> notClaim e"
  by (cases e) (simp_all add: notClaim_def)

lemma emits_workloadProxy_notClaim: "emits notClaim (workloadProxy E ns wl)"
  by (rule emits_mono [OF emits_workloadProxy]) (rule proxy_notClaim)

lemma emits_ensureClaimToken: "emits notClaim (ensureClaimToken E claim wl)"
  by (auto simp: ensureClaimToken_def generateToken_def api_defs Let_def intro!: emits_intros)

lemma emits_deleteClaimToken: "emits notClaim (deleteClaimToken E claim)"
  by (auto simp: deleteClaimToken_def api_defs intro!: emits_intros)

lemma emits_createTenantPod: "emits notClaim (createTenantPod E R claim wl t)"
  unfolding createTenantPod_def createConfigMap_def randomSuffix_def
  by (auto simp: api_defs intro!: emits_intros emits_workloadProxy_notClaim)

lemma emits_findTenantPod: "emits notClaim (findTenantPod E ns t w)"
  by (auto simp: findTenantPod_def api_defs intro!: emits_intros)

lemma emits_findPoolPod: "emits notClaim (findPoolPod E ns w)"
  by (auto simp: findPoolPod_def api_defs intro!: emits_intros)

context overlay_storage
begin

lemma emits_snap_calls:
  assumes "servesPods E"
  shows "emits notClaim (hasSnapshot S t w)" "emits notClaim (injectSnapshot S p t w)"
    "emits notClaim (extractAndStore S p t w dirs)" "emits notClaim (deleteSnapshot S t w)"
  unfolding hasSnapshot_def injectSnapshot_def extractAndStore_def deleteSnapshot_def
  by (intro emits_intros emits_mono [OF emits_has [OF assms]], erule storage_notClaim, simp,
      intro emits_intros emits_mono [OF emits_inject [OF assms]], erule storage_notClaim, simp,
      intro emits_intros emits_mono [OF emits_extract [OF assms]], erule storage_notClaim, simp,
      intro emits_intros emits_mono [OF emits_delete [OF assms]], erule storage_notClaim, simp)

lemma emits_extractAttempts:
  "servesPods E \<Longrightarrow> emits notClaim (extractAttempts E S p t w dirs ds le)"
  by (induction ds arbitrary: le) (auto simp: waitTimer_def intro!: emits_intros emits_snap_calls)

lemma emits_claimFromPool:
  assumes "servesPods E" "crSnapshots R = Some S" "claimPhase (claimStatus c0) = ''Pending''"
  shows "emits (claimWrite c0) (claimFromPool E R c0 p wl)"
  using assms unfolding claimFromPool_def
  by (auto simp: api_defs Let_def podSources_def notClaim_write
      intro!: emits_intros emits_notClaim [OF emits_snap_calls(1)] emits_notClaim [OF emits_snap_calls(2)]
        emits_activateClaim)

lemma emits_coldBoot:
  assumes "claimPhase (claimStatus c0) = ''Pending''"
  shows "emits (claimWrite c0) (coldBoot E R c0 wl)"
  using assms unfolding coldBoot_def
  by (auto simp: podSources_def intro!: emits_intros emits_notClaim [OF emits_ensureClaimToken]
      emits_notClaim [OF emits_createTenantPod] emits_activateClaim)

lemma emits_placeClaim:
  assumes "servesPods E" "crSnapshots R = Some S" "claimPhase (claimStatus c0) = ''Pending''"
  shows "emits (claimWrite c0) (placeClaim E R c0 wl)"
  using assms unfolding placeClaim_def acquirePod_def
  by (auto simp: api_defs podSources_def notClaim_write
      intro!: emits_intros emits_notClaim [OF emits_findTenantPod] emits_notClaim [OF emits_findPoolPod]
        emits_activateClaim emits_claimFromPool emits_coldBoot)

lemma emits_handleNewClaim:
  assumes "servesPods E" "crSnapshots R = Some S"
    and "claimPhase (claimStatus c0) \<notin> {''Active'', ''Released'', ''ReleaseFailed''}"
  shows "emits (claimWrite c0) (handleNewClaim E R c0)"
  using assms unfolding handleNewClaim_def setClaimError_def
  by (auto simp: api_defs notClaim_write AddFinalizer_def statusStep_def podSources_def
      claimWrite_def [of c0 "ClaimEv ce" for ce]
      intro!: emits_intros emits_updateClaimStatus emits_placeClaim claim_phase_step.pend)

lemma emits_releaseClaim:
  assumes "servesPods E" "crSnapshots R = Some S" "claimPhase (claimStatus c0) = ''Active''"
  shows "emits (claimWrite c0) (releaseClaim E R c0 action)"
  using assms
  unfolding releaseClaim_def releasePod_def releaseExtract_def destroySnapshot_def finishRelease_def
    markReleaseFailed_def extractWithRetry_def
  by (auto simp: api_defs notClaim_write statusStep_def podSources_def
      intro!: emits_intros emits_notClaim [OF emits_findTenantPod] emits_notClaim [OF emits_extractAttempts]
        emits_notClaim [OF emits_snap_calls(4)] emits_notClaim [OF emits_deleteClaimToken]
        emits_updateClaimStatus)

lemma emits_handleActive:
  assumes "servesPods E" "crSnapshots R = Some S" "claimPhase (claimStatus c0) = ''Active''"
  shows "emits (claimWrite c0) (handleActive E R c0)"
  using assms unfolding handleActive_def backingPodGone_def idleCheck_def
  by (auto simp: api_defs notClaim_write statusStep_def podSources_def Let_def
      intro!: emits_intros emits_updateClaimStatus emits_releaseClaim)

lemma emits_handleDeletion:
  assumes "servesPods E" "crSnapshots R = Some S"
  shows "emits (claimWrite c0) (handleDeletion E R c0)"
  using assms
  unfolding handleDeletion_def removePod_def deletionExtract_def destroySnapshot_def finishDeletion_def
    extractWithRetry_def
  by (auto simp: api_defs notClaim_write RemoveFinalizer_def
      claimWrite_def [of c0 "ClaimEv ce" for ce]
      intro!: emits_intros emits_notClaim [OF emits_findTenantPod] emits_notClaim [OF emits_extractAttempts]
        emits_notClaim [OF emits_snap_calls(4)] emits_notClaim [OF emits_deleteClaimToken])

end

section \<open>A whole pass, and many of them\<close>

context overlay_storage
begin

lemma emits_reconcile_body:
  assumes "servesPods E" "crSnapshots R = Some S"
  shows "emits (claimWrite c0) (if isDeleting (claimMeta c0) then handleDeletion E R c0
         else if claimPhase (claimStatus c0) = ''Active'' then handleActive E R c0
         else if claimPhase (claimStatus c0) = ''Released'' then ret (Inr noResult)
         else if claimPhase (claimStatus c0) = ''ReleaseFailed'' then ret (Inr noResult)
         else handleNewClaim E R c0)"
  by (intro emits_intros emits_handleDeletion emits_handleActive emits_handleNewClaim assms) auto

lemma reconcile_writes:
  assumes "servesPods E" "crSnapshots R = Some S" and "k_get (claims E) tr req = Inr c0"
  shows "list_all (claimWrite c0) (appended (reconcileClaim E R req) tr)"
proof -
  let ?ev = "ClaimEv (GetEv req (Inr c0))"
  let ?body = "if isDeleting (claimMeta c0) then handleDeletion E R c0
         else if claimPhase (claimStatus c0) = ''Active'' then handleActive E R c0
         else if claimPhase (claimStatus c0) = ''Released'' then ret (Inr noResult)
         else if claimPhase (claimStatus c0) = ''ReleaseFailed'' then ret (Inr noResult)
         else handleNewClaim E R c0"
  have "run_state (reconcileClaim E R req) tr = run_state ?body (tr @ [?ev])"
    by (simp add: reconcileClaim_def getObj_def assms(3))
  from appended_after [OF emits_reconcile_body [OF assms(1,2)] this]
  have "appended (reconcileClaim E R req) tr = ?ev # appended ?body (tr @ [?ev])"
    by simp
  moreover have "list_all (claimWrite c0) (appended ?body (tr @ [?ev]))"
    by (rule emits_appended [OF emits_reconcile_body [OF assms(1,2)]])
  ultimately show ?thesis by (simp add: claimWrite_def [of _ ?ev])
qed

end

text \<open>
  The stored claim after a write of a pass that read it: what other writers may do to the
  specification and the metadata does not matter here, so a step goes from the claim read.
\<close>

inductive claim_step :: "env \<Rightarrow> ClaimReconciler \<Rightarrow> BoilerhouseClaim \<Rightarrow> BoilerhouseClaim \<Rightarrow> bool"
  for E :: env and R :: ClaimReconciler where
  status: "k_get (claims E) tr (keyOf (claimMeta c)) = Inr c \<Longrightarrow>
     ClaimEv (StatusEv c' r) \<in> set (appended (reconcileClaim E R (keyOf (claimMeta c))) tr) \<Longrightarrow>
     claim_step E R c c'"
| update: "k_get (claims E) tr (keyOf (claimMeta c)) = Inr c \<Longrightarrow>
     ClaimEv (UpdateEv c' r) \<in> set (appended (reconcileClaim E R (keyOf (claimMeta c))) tr) \<Longrightarrow>
     claim_step E R c c'"

definition claimInv :: "BoilerhouseClaimStatus \<Rightarrow> bool" where
  "claimInv st \<longleftrightarrow>
     claimPhase st \<in> {[], ''Pending'', ''Active'', ''Released'', ''ReleaseFailed'', ''Error''} \<and>
     Source st \<in> set ([] # podSources) \<and>
     (if claimPhase st = ''Active'' then activeOk st else True)"

lemma claimInv_step: "statusStep st st' \<Longrightarrow> claimInv st \<Longrightarrow> claimInv st'"
  by (auto simp: statusStep_def claimInv_def elim: claim_phase_step.cases)

lemma claimInv_initial: "claimInv emptyClaimStatus"
  by (simp add: claimInv_def emptyClaimStatus_def)

context overlay_storage
begin

lemma claim_step_cases:
  assumes "claim_step E R c c'" "servesPods E" "crSnapshots R = Some S"
  shows "claimSpec c' = claimSpec c \<and>
     (claimStatus c' = claimStatus c \<or> statusStep (claimStatus c) (claimStatus c'))"
  using assms(1)
proof cases
  case (status tr r)
  from reconcile_writes [OF assms(2,3) status(1)] status(2) show ?thesis
    by (fastforce simp: list_all_iff claimWrite_def)
next
  case (update tr r)
  from reconcile_writes [OF assms(2,3) update(1)] update(2) show ?thesis
    by (fastforce simp: list_all_iff claimWrite_def)
qed

lemma claim_reaches_inv:
  assumes "(claim_step E R)\<^sup>*\<^sup>* c c'" "servesPods E" "crSnapshots R = Some S" "claimInv (claimStatus c)"
  shows "claimInv (claimStatus c')"
  using assms(1)
proof (induction rule: rtranclp_induct)
  case base
  then show ?case by (rule assms(4))
next
  case (step y z)
  from claim_step_cases [OF step(2) assms(2,3)] step(3) show ?case
    by (auto simp: claimInv_step)
qed

lemma claim_terminal:
  assumes "(claim_step E R)\<^sup>*\<^sup>* c c'" "servesPods E" "crSnapshots R = Some S"
    and "claimPhase (claimStatus c) \<in> {''Released'', ''ReleaseFailed''}"
  shows "claimStatus c' = claimStatus c"
  using assms(1)
proof (induction rule: rtranclp_induct)
  case (step y z)
  from claim_step_cases [OF step(2) assms(2,3)] step(3) assms(4) show ?case
    by (auto simp: statusStep_def)
qed simp

end

section \<open>The idle timeout\<close>

text \<open>
  What a release has to have seen.  The pod of the claim, if it names one, was not found; or the time is up: its
  workload has a positive idle timeout, and the clock of the pass is at least that timeout, as an \<open>int64\<close> of
  nanoseconds, past the last activity, the time of the annotation unless it is absent, does not parse or is the zero
  time, and else the time of the claim, which is not the zero time.
\<close>

definition podLost :: "BoilerhouseClaim \<Rightarrow> event list \<Rightarrow> bool" where
  "podLost claim pre \<longleftrightarrow> InstanceId (claimStatus claim) \<noteq> [] \<and>
     (\<exists>err. PodEv (GetEv (nsName (Namespace (claimMeta claim)) (InstanceId (claimStatus claim))) (Inl err)) \<in> set pre \<and>
        isNotFound err)"

definition annotatedAt :: "env \<Rightarrow> BoilerhouseClaim \<Rightarrow> int \<Rightarrow> bool" where
  "annotatedAt E claim t \<longleftrightarrow> t \<noteq> zeroTime \<and>
     (\<exists>s. Annotations (claimMeta claim) ''boilerhouse.dev/last-activity'' = Some s \<and> s \<noteq> [] \<and> parse_rfc3339 E s = Some t)"

definition activeAt :: "env \<Rightarrow> BoilerhouseClaim \<Rightarrow> int \<Rightarrow> bool" where
  "activeAt E claim t \<longleftrightarrow> annotatedAt E claim t \<or>
     (\<forall>t'. \<not> annotatedAt E claim t') \<and> ClaimedAt (claimStatus claim) = Some t \<and> t \<noteq> zeroTime"

definition idleDue :: "env \<Rightarrow> BoilerhouseClaim \<Rightarrow> event list \<Rightarrow> bool" where
  "idleDue E claim pre \<longleftrightarrow>
     (\<exists>wl idle now t. WorkloadEv (GetEv (nsName (Namespace (claimMeta claim)) (claimWorkloadRef (claimSpec claim))) (Inr wl))
          \<in> set pre \<and>
        wlIdle (wlSpec wl) = Some idle \<and> TimeoutSeconds idle > 0 \<and> TimeEv now \<in> set pre \<and> activeAt E claim t \<and>
        wrap64 (TimeoutSeconds idle * 1000000000) \<le> timeSub now t)"

text \<open>Until the time is up a pass only reads the pod, the workload and the clock, and reports a lost pod.\<close>

definition idleGuard :: "env \<Rightarrow> BoilerhouseClaim \<Rightarrow> event list \<Rightarrow> event \<Rightarrow> bool" where
  "idleGuard E claim pre e \<longleftrightarrow> idleDue E claim pre \<or>
     (case e of
        PodEv (GetEv k r) \<Rightarrow> pre = [] \<and> InstanceId (claimStatus claim) \<noteq> [] \<and>
          k = nsName (Namespace (claimMeta claim)) (InstanceId (claimStatus claim))
      | WorkloadEv (GetEv k r) \<Rightarrow> \<not> podLost claim pre \<and>
          k = nsName (Namespace (claimMeta claim)) (claimWorkloadRef (claimSpec claim))
      | TimeEv t \<Rightarrow> True
      | ClaimEv (StatusEv c r) \<Rightarrow> podLost claim pre \<and> claimPhase (claimStatus c) = ''Released''
      | _ \<Rightarrow> False)"

lemma idleDue_guard: "idleDue E claim pre \<Longrightarrow> idleGuard E claim pre e"
  by (simp add: idleGuard_def)

lemma idleDue_mono: "idleDue E claim xs \<Longrightarrow> set xs \<subseteq> set ys \<Longrightarrow> idleDue E claim ys"
  unfolding idleDue_def by blast

lemma lastActivity_active:
  assumes "\<not> isZeroTime (lastActivityOf E claim)"
  shows "activeAt E claim (lastActivityOf E claim)"
proof -
  let ?s = "lookupS (Annotations (claimMeta claim)) annotationLastActivity"
  have ann: "annotatedAt E claim t \<longleftrightarrow> t \<noteq> zeroTime \<and> ?s \<noteq> [] \<and> parse_rfc3339 E ?s = Some t" for t
    by (auto simp: annotatedAt_def lookupS_def annotationLastActivity_def split: option.split)
  with assms show ?thesis
    by (auto simp: activeAt_def lastActivityOf_def isZeroTime_def Let_def split: option.splits if_splits)
qed

context overlay_storage
begin

lemma wp_idleCheck:
  assumes "servesPods E" "crSnapshots R = Some S" "claimPhase (claimStatus claim) = ''Active''"
    and wl: "WorkloadEv (GetEv (nsName (Namespace (claimMeta claim)) (claimWorkloadRef (claimSpec claim))) (Inr wl)) \<in> set pre"
      "wlIdle (wlSpec wl) = Some idle" "TimeoutSeconds idle > 0"
    and g: "guarded (idleGuard E claim) [] pre"
  shows "wp (idleCheck E R claim idle)
     (\<lambda>r tr'. guarded (idleGuard E claim) [] (drop (length tr) tr')) (tr @ pre)"
proof -
  let ?now = "time_now E (tr @ pre)"
  have t: "guarded (idleGuard E claim) [] (pre @ [TimeEv ?now])"
    using g by (simp add: idleGuard_def)
  have "wp (releaseClaim E R claim (idleActionOf idle))
     (\<lambda>r tr'. guarded (idleGuard E claim) [] (drop (length tr) tr')) (tr @ pre @ [TimeEv ?now])"
    if up: "idleTimeout idle \<le> timeSub ?now (lastActivityOf E claim)"
      and act: "\<not> isZeroTime (lastActivityOf E claim)"
  proof (rule wp_mono [OF emits_wp [OF emits_releaseClaim [OF assms(1-3)]]])
    fix a tr'
    assume "\<exists>evs. tr' = (tr @ pre @ [TimeEv ?now]) @ evs \<and> list_all (claimWrite claim) evs"
    then obtain evs where evs: "tr' = tr @ (pre @ [TimeEv ?now]) @ evs" by auto
    have due: "idleDue E claim (pre @ [TimeEv ?now])"
      unfolding idleDue_def
      by (intro exI [of _ wl] exI [of _ idle] exI [of _ ?now] exI [of _ "lastActivityOf E claim"])
        (use wl up lastActivity_active [OF act] in \<open>simp add: idleTimeout_def second_def\<close>)
    have "guarded (idleGuard E claim) (pre @ [TimeEv ?now]) evs"
      by (rule guarded_from [where P = "\<lambda>_. True"])
        (simp_all add: list_all_iff idleDue_guard [OF idleDue_mono [OF due]])
    with t show "guarded (idleGuard E claim) [] (drop (length tr) tr')"
      by (simp add: evs)
  qed
  with g t show ?thesis
    by (simp add: idleCheck_def wp_simps timeNow_def Let_def)
qed

lemma wp_handleActive:
  assumes "servesPods E" "crSnapshots R = Some S" "claimPhase (claimStatus claim) = ''Active''"
  shows "wp (handleActive E R claim)
     (\<lambda>r tr'. guarded (idleGuard E claim) [] (drop (length tr) tr')) tr"
proof -
  let ?Q = "\<lambda>r tr'. guarded (idleGuard E claim) [] (drop (length tr) tr')"
  let ?wk = "nsName (Namespace (claimMeta claim)) (claimWorkloadRef (claimSpec claim))"
  let ?pk = "nsName (Namespace (claimMeta claim)) (InstanceId (claimStatus claim))"
  have rest: "wp (getObj WorkloadEv (workloads E) ?wk \<bind> (\<lambda>g. case g of
         Inl e \<Rightarrow> if isNotFound e then ret (Inr noResult) else ret (Inl e)
       | Inr wl \<Rightarrow> (case wlIdle (wlSpec wl) of
              None \<Rightarrow> ret (Inr noResult)
            | Some idle \<Rightarrow> if TimeoutSeconds idle \<le> 0 then ret (Inr noResult)
                else idleCheck E R claim idle))) ?Q (tr @ pre)"
    if "guarded (idleGuard E claim) [] pre" "\<not> podLost claim pre" for pre
  proof -
    let ?g = "k_get (workloads E) (tr @ pre) ?wk"
    have g: "guarded (idleGuard E claim) [] (pre @ [WorkloadEv (GetEv ?wk ?g)])"
      using that by (simp add: idleGuard_def)
    have "wp (idleCheck E R claim idle) ?Q (tr @ pre @ [WorkloadEv (GetEv ?wk ?g)])"
      if "?g = Inr wl" "wlIdle (wlSpec wl) = Some idle" "TimeoutSeconds idle > 0" for wl idle
      by (rule wp_idleCheck [OF assms, where wl = wl and idle = idle,
            of "pre @ [WorkloadEv (GetEv ?wk ?g)]", simplified]) (use that g in auto)
    with g show ?thesis
      by (cases ?g) (auto simp: wp_simps getObj_def split: option.split)
  qed
  have pod: "guarded (idleGuard E claim) [] [PodEv (GetEv ?pk x)]" if "InstanceId (claimStatus claim) \<noteq> []" for x
    using that by (simp add: idleGuard_def)
  have lost: "podLost claim [PodEv (GetEv ?pk x)] \<longleftrightarrow> (\<exists>e. x = Inl e \<and> isNotFound e)"
    if "InstanceId (claimStatus claim) \<noteq> []" for x
    using that by (auto simp: podLost_def)
  show ?thesis
    unfolding handleActive_def backingPodGone_def
    using rest [of "[]"] rest [OF pod] pod lost
    by (auto simp: wp_simps getObj_def [of PodEv] updateClaimStatus_def statusObj_def podLost_def [of claim "[]"]
        idleGuard_def [of E claim "[x]" for x] split: sum.splits)
qed

end

section \<open>Properties\<close>

text \<open>
  C2. From the empty status a claim only ever reaches, by the writes of reconcile passes (each from
  the claim it read, in any environment whose answers for deleted pods keep to the interface),
  statuses with a known phase and a known source, and an Active one always has an address, a time,
  a source and no detail.
\<close>

theorem claim_invariant:
  assumes "(claim_step E R)\<^sup>*\<^sup>* c c'" and "servesPods E"
    and "crSnapshots R = Some (managerSnapshotter E s)" and "claimStatus c = emptyClaimStatus"
  shows "claimInv (claimStatus c')"
  using manager.claim_reaches_inv [OF assms(1-3)] assms(4) by (simp add: claimInv_initial)

text \<open>The example claim of a ready workload with a running pod, read first as new, then as pending.\<close>

definition pendingClaim :: BoilerhouseClaim where
  "pendingClaim = demoClaim\<lparr>claimStatus := emptyClaimStatus\<lparr>claimPhase := ''Pending''\<rparr>\<rparr>"

definition activeClaim :: BoilerhouseClaim where
  "activeClaim = demoClaim\<lparr>claimStatus := \<lparr>claimPhase = ''Active'', InstanceId = ''w-t-1'',
     Endpoint = Some \<lparr>Host = ''10.0.0.7'', Port = 0\<rparr>, Source = ''existing'', ClaimedAt = Some 60,
     claimDetail = []\<rparr>\<rparr>"

definition activatingEnv :: env where
  "activatingEnv = demoEnv\<lparr>
     workloads := offlineKind\<lparr>k_get := \<lambda>_ _. Inr (demoWorkload\<lparr>wlStatus := (wlStatus demoWorkload)\<lparr>wlPhase := ''Ready''\<rparr>\<rparr>)\<rparr>,
     claims := offlineKind\<lparr>k_get := \<lambda>tr _. Inr (if tr = [] then demoClaim else if length tr = 1
       then pendingClaim else activeClaim), k_status := \<lambda>_ c. Inr c, k_update := \<lambda>_ c. Inr c\<rparr>,
     time_now := \<lambda>_. 60\<rparr>"

definition activatingReconciler :: ClaimReconciler where
  "activatingReconciler =
     demoReconciler\<lparr>crSnapshots := Some (managerSnapshotter activatingEnv \<lparr>smNamespace = ''ns''\<rparr>)\<rparr>"

lemma activatingEnv_serves: "servesPods activatingEnv"
  by (simp add: servesPods_def activatingEnv_def demoEnv_def offline_defs)

lemmas demo_defs = activatingEnv_def demoEnv_def demoClaim_def demoPod_def demoWorkload_def
  pendingClaim_def activeClaim_def offline_defs

lemma demo_pends: "claim_step activatingEnv activatingReconciler demoClaim pendingClaim"
  by (rule claim_step.status [where tr = "[]" and r = "Inr pendingClaim"])
    (simp_all add: appended_def reconcileClaim_def handleNewClaim_def updateClaimStatus_def api_defs
      demo_defs ContainsFinalizer_def isDeleting_def objectMeta_def zeroMeta_def emptyClaimStatus_def)

lemma demo_activates: "claim_step activatingEnv activatingReconciler pendingClaim activeClaim"
  by (rule claim_step.status [where tr = "[TimeEv 0]" and r = "Inr activeClaim"])
    (simp_all add: appended_def reconcileClaim_def handleNewClaim_def updateClaimStatus_def api_defs
      demo_defs ContainsFinalizer_def isDeleting_def objectMeta_def zeroMeta_def placeClaim_def findTenantPod_def firstItem_def activateClaim_def
      keepSource_def endpointPort_def Let_def zeroWorkload_def emptyClaimStatus_def)

lemma demo_reaches: "(claim_step activatingEnv activatingReconciler)\<^sup>*\<^sup>* demoClaim activeClaim"
  using demo_pends demo_activates by (meson rtranclp.rtrancl_into_rtrancl rtranclp.rtrancl_refl)

theorem claim_invariant_witness: "claimInv (claimStatus activeClaim)"
  by (rule claim_invariant [OF demo_reaches activatingEnv_serves, of "\<lparr>smNamespace = ''ns''\<rparr>"])
    (simp_all add: activatingReconciler_def demoClaim_def)

text \<open>
  A Released or ReleaseFailed claim keeps its status: no pass ever writes another one, so a claim
  whose extraction failed stays so, the requeues of its failed release included, until it is deleted.
\<close>

theorem claim_terminal_status:
  assumes "(claim_step E R)\<^sup>*\<^sup>* c c'" and "servesPods E"
    and "crSnapshots R = Some (managerSnapshotter E s)"
    and "claimPhase (claimStatus c) \<in> {''Released'', ''ReleaseFailed''}"
  shows "claimStatus c' = claimStatus c"
  by (rule manager.claim_terminal [OF assms])

text \<open>A failed claim read without its finalizer still being deleted: the last pass drops the finalizer.\<close>

definition failedClaim :: BoilerhouseClaim where
  "failedClaim = \<lparr>claimMeta = (claimMeta demoClaim)\<lparr>DeletionTimestamp := Some 5\<rparr>,
     claimSpec = claimSpec demoClaim,
     claimStatus = emptyClaimStatus\<lparr>claimPhase := ''ReleaseFailed''\<rparr>\<rparr>"

definition finishedClaim :: BoilerhouseClaim where
  "finishedClaim = failedClaim\<lparr>claimMeta := RemoveFinalizer (claimMeta failedClaim) finalizerName\<rparr>"

definition finishingEnv :: env where
  "finishingEnv = demoEnv\<lparr>claims := offlineKind\<lparr>k_get := \<lambda>_ _. Inr failedClaim, k_update := \<lambda>_ c. Inr c\<rparr>,
     pods := offlineKind\<lparr>k_list := \<lambda>_ _ _. Inr []\<rparr>\<rparr>"

definition finishingReconciler :: ClaimReconciler where
  "finishingReconciler =
     demoReconciler\<lparr>crSnapshots := Some (managerSnapshotter finishingEnv \<lparr>smNamespace = ''ns''\<rparr>)\<rparr>"

lemma finishingEnv_serves: "servesPods finishingEnv"
  by (simp add: servesPods_def finishingEnv_def demoEnv_def offline_defs)

lemma demo_finishes: "claim_step finishingEnv finishingReconciler failedClaim finishedClaim"
  by (rule claim_step.update [where tr = "[]" and r = "Inr finishedClaim"])
    (simp_all add: appended_def reconcileClaim_def handleDeletion_def removePod_def findTenantPod_def firstItem_def
      finishDeletion_def deleteClaimToken_def api_defs finishingEnv_def demo_defs failedClaim_def
      finishedClaim_def isDeleting_def objectMeta_def zeroMeta_def isZeroTime_def zeroTime_def second_def ContainsFinalizer_def)

theorem claim_terminal_status_witness: "claimStatus finishedClaim = claimStatus failedClaim"
  by (rule claim_terminal_status [OF r_into_rtranclp [of "claim_step finishingEnv finishingReconciler"],
        OF demo_finishes finishingEnv_serves, of "\<lparr>smNamespace = ''ns''\<rparr>"])
    (simp_all add: finishingReconciler_def failedClaim_def)

text \<open>
  C17. Until the time is up, a pass over an active claim only reads the claim's own pod (when it names one), the claim's own
  workload (unless the pod was not found) and the clock; the one thing it may write then is the phase Released, when that
  Get of the pod was answered not found.  The time is up when the workload it read has a positive idle
  timeout and the clock it read is at least that timeout past the last activity, which is the annotation's time or, when
  that is absent, unreadable or zero, the time of the claim; a claim without either is never released for being idle.
\<close>

theorem idle_release_only:
  assumes "servesPods E" and "crSnapshots R = Some (managerSnapshotter E s)"
    and "claimPhase (claimStatus claim) = ''Active''"
  shows "guarded (idleGuard E claim) [] (appended (handleActive E R claim) tr)"
  by (rule guarded_appendedI [OF manager.wp_handleActive [OF assms]])

theorem idle_release_only_witness:
  "guarded (idleGuard demoEnv activeClaim) [] (appended (handleActive demoEnv demoReconciler activeClaim) [])"
  using idle_release_only [OF demoEnv_serves, of demoReconciler "\<lparr>smNamespace = ''ns''\<rparr>" activeClaim "[]"]
  by (simp add: demoReconciler_def activeClaim_def demoClaim_def)

end
