(* ===== verification/Pool_Controller.thy ===== *)
theory Pool_Controller
  imports Claim_Pods
begin

text \<open>
  \<open>pool_controller.go\<close>: keeping \<open>spec.size\<close> pods of a workload warm.  The two loops of
  \<open>Reconcile\<close>, the relabelling of warming pods that became ready and the creation of missing
  pods, are recursive functions over the pods listed and over the number to create.
\<close>

definition defaultMaxFillConcurrency :: int where "defaultMaxFillConcurrency = 2"

definition isPodReady :: "Pod \<Rightarrow> bool" where
  "isPodReady pod \<longleftrightarrow> podPhase (podStatus pod) = ''Running'' \<and>
     list_ex (\<lambda>c. condType c = ''ContainersReady'' \<and> condStatus c = ''True'') (Conditions (podStatus pod))"

definition poolStatusOf :: "Pod \<Rightarrow> string" where
  "poolStatusOf pod = lookupS (Labels (podMeta pod)) LabelPoolStatus"

definition markReady :: "Pod \<Rightarrow> Pod" where
  "markReady p = p\<lparr>podMeta := (podMeta p)\<lparr>Labels := (Labels (podMeta p))(LabelPoolStatus \<mapsto> ''ready'')\<rparr>\<rparr>"

definition setPoolStatus :: "env \<Rightarrow> BoilerhousePool \<Rightarrow> int \<Rightarrow> int \<Rightarrow> string \<Rightarrow> string
    \<Rightarrow> (err + Result) io" where
  "setPoolStatus E pool rdy warming phase detail = do {
     u \<leftarrow> statusObj PoolEv (pools E) (pool\<lparr>poolStatus := (poolStatus pool)
            \<lparr>poolReady := rdy, poolWarming := warming, poolPhase := phase\<rparr>\<rparr>);
     case u of
       Inl e \<Rightarrow> ret (Inl e)
     | Inr _ \<Rightarrow> ret (Inr (requeueAfter (10 * second)))
   }"

definition workloadSelector :: "string \<Rightarrow> (string \<times> string) list" where
  "workloadSelector workloadRef = [(LabelWorkload, workloadRef)]"

definition isPoolPod :: "Pod \<Rightarrow> bool" where
  "isPoolPod pod \<longleftrightarrow> poolStatusOf pod = ''warming'' \<or> poolStatusOf pod = ''ready''"

definition listPoolPods :: "env \<Rightarrow> string \<Rightarrow> string \<Rightarrow> (err + Pod list) io" where
  "listPoolPods E ns workloadRef = do {
     r \<leftarrow> listObj PodEv (pods E) ns (workloadSelector workloadRef);
     case r of
       Inl e \<Rightarrow> ret (Inl e)
     | Inr ps \<Rightarrow> ret (Inr (filter isPoolPod ps))
   }"

definition deletePoolPods :: "env \<Rightarrow> string \<Rightarrow> string \<Rightarrow> (err + unit) io" where
  "deletePoolPods E ns workloadRef = do {
     r \<leftarrow> listObj PodEv (pods E) ns (workloadSelector workloadRef);
     case r of
       Inl e \<Rightarrow> ret (Inl e)
     | Inr ps \<Rightarrow> forEach (deletePodOrSkip E)
                   (filter (\<lambda>p. Labels (podMeta p) LabelPoolStatus \<noteq> None) ps)
   }"

text \<open>The warming and ready counts after the relabelling pass, started at the counts so far.\<close>

fun relabelPods :: "env \<Rightarrow> Pod list \<Rightarrow> int \<Rightarrow> int \<Rightarrow> (err + int \<times> int) io" where
  "relabelPods E [] warming rdy = ret (Inr (warming, rdy))"
| "relabelPods E (pod # ps) warming rdy =
     (if poolStatusOf pod = ''warming'' \<and> isPodReady pod
      then do {
        u \<leftarrow> updateObj PodEv (pods E) (markReady pod);
        case u of
          Inl e \<Rightarrow> ret (Inl (wrapf (''relabeling pod '' @ podName pod) e))
        | Inr _ \<Rightarrow> relabelPods E ps warming (rdy + 1)
      }
      else if poolStatusOf pod = ''ready'' then relabelPods E ps warming (rdy + 1)
      else if poolStatusOf pod = ''warming'' then relabelPods E ps (warming + 1) rdy
      else relabelPods E ps warming rdy)"

definition poolOpts :: "BoilerhousePool \<Rightarrow> BoilerhouseWorkload \<Rightarrow> ProxyConfig option \<Rightarrow> string
    \<Rightarrow> TranslateOpts" where
  "poolOpts pool wl proxy sfx =
     \<lparr>optInstanceId = poolWorkloadRef (poolSpec pool) @ ''-pool-'' @ sfx,
      WorkloadName = poolWorkloadRef (poolSpec pool), TenantId = [],
      optNamespace = Namespace (poolMeta pool), PoolStatus = ''warming'',
      ImageRef = ResolvedImageRef wl, optProxyConfig = proxy, ClaimTokenSecret = [],
      optAPIServiceURL = []\<rparr>"

definition createPoolConfigMap :: "env \<Rightarrow> ConfigMap option \<Rightarrow> (err + unit) io" where
  "createPoolConfigMap E cm =
     (case cm of
        None \<Rightarrow> ret (Inr ())
      | Some cm \<Rightarrow> do {
          c \<leftarrow> createObj ConfigMapEv (configMaps E) cm;
          case c of
            Inl e \<Rightarrow> if isAlreadyExists e then ret (Inr ())
                     else ret (Inl (wrapf ''creating proxy configmap'' e))
          | Inr _ \<Rightarrow> ret (Inr ())
        })"

definition createPoolPod :: "env \<Rightarrow> BoilerhousePool \<Rightarrow> BoilerhouseWorkload \<Rightarrow> ProxyConfig option
    \<Rightarrow> (err + unit) io" where
  "createPoolPod E pool wl proxy = do {
     sfx \<leftarrow> randomSuffix E;
     case Translate (wlSpec wl) (poolOpts pool wl proxy sfx) of
       Inl e \<Rightarrow> ret (Inl (wrapf ''translating pool pod'' e))
     | Inr res \<Rightarrow> do {
         m \<leftarrow> createPoolConfigMap E (resConfigMap res);
         case m of
           Inl e \<Rightarrow> ret (Inl e)
         | Inr _ \<Rightarrow> do {
             p \<leftarrow> createObj PodEv (pods E) (resPod res);
             case p of
               Inl e \<Rightarrow> ret (Inl (wrapf ''creating pool pod'' e))
             | Inr _ \<Rightarrow> ret (Inr ())
           }
       }
   }"

text \<open>The loop \<open>for i := 0; i < canCreate; i++\<close>: the warming count when it ends.\<close>

fun createPoolPods :: "env \<Rightarrow> BoilerhousePool \<Rightarrow> BoilerhouseWorkload \<Rightarrow> ProxyConfig option \<Rightarrow> nat
    \<Rightarrow> int \<Rightarrow> (err + int) io" where
  "createPoolPods E pool wl proxy 0 warming = ret (Inr warming)"
| "createPoolPods E pool wl proxy (Suc n) warming = do {
     r \<leftarrow> createPoolPod E pool wl proxy;
     case r of
       Inl e \<Rightarrow> ret (Inl e)
     | Inr _ \<Rightarrow> createPoolPods E pool wl proxy n (warming + 1)
   }"

text \<open>The proxy configuration of pool pods resolves credentials in the pool's namespace.\<close>

definition poolProxy :: "env \<Rightarrow> BoilerhousePool \<Rightarrow> BoilerhouseWorkload
    \<Rightarrow> (err + ProxyConfig option) io" where
  "poolProxy E pool wl =
     (case wlNetwork (wlSpec wl) of
        None \<Rightarrow> ret (Inr None)
      | Some net \<Rightarrow>
          if Credentials net = [] then ret (Inr None)
          else do {
            p \<leftarrow> BuildProxyConfig E (Namespace (poolMeta pool)) net;
            case p of
              Inl e \<Rightarrow> ret (Inl (wrapf ''building proxy config for pool'' e))
            | Inr pc \<Rightarrow> ret (Inr (Some pc))
          })"

definition maxFill :: "BoilerhousePool \<Rightarrow> int" where
  "maxFill pool = (case MaxFillConcurrency (poolSpec pool) of
     None \<Rightarrow> defaultMaxFillConcurrency | Some m \<Rightarrow> m)"

definition canCreate :: "BoilerhousePool \<Rightarrow> int \<Rightarrow> int \<Rightarrow> int" where
  "canCreate pool gap warming =
     (let c = wrap64 (maxFill pool - warming) in if c > gap then gap else c)"

definition fillPool :: "env \<Rightarrow> BoilerhousePool \<Rightarrow> BoilerhouseWorkload \<Rightarrow> int \<Rightarrow> int
    \<Rightarrow> (err + int) io" where
  "fillPool E pool wl tot warming =
     (let gap = wrap64 (poolSize (poolSpec pool) - tot)
      in if gap > 0
         then do {
           p \<leftarrow> poolProxy E pool wl;
           case p of
             Inl e \<Rightarrow> ret (Inl e)
           | Inr proxy \<Rightarrow> createPoolPods E pool wl proxy (nat (canCreate pool gap warming)) warming
         }
         else ret (Inr warming))"

text \<open>Steps 7 and 8 of \<open>Reconcile\<close>, with the counts of the relabelling.\<close>

definition fillAndReport :: "env \<Rightarrow> BoilerhousePool \<Rightarrow> BoilerhouseWorkload \<Rightarrow> int \<Rightarrow> int \<Rightarrow> int
    \<Rightarrow> (err + Result) io" where
  "fillAndReport E pool wl tot warming rdy = do {
     f \<leftarrow> fillPool E pool wl tot warming;
     case f of
       Inl e \<Rightarrow> ret (Inl e)
     | Inr warming' \<Rightarrow> setPoolStatus E pool rdy warming'
         (if warming' > 0 then ''Degraded'' else ''Healthy'') []
   }"

definition managePool :: "env \<Rightarrow> BoilerhousePool \<Rightarrow> BoilerhouseWorkload \<Rightarrow> (err + Result) io" where
  "managePool E pool wl = do {
     l \<leftarrow> listPoolPods E (Namespace (poolMeta pool)) (poolWorkloadRef (poolSpec pool));
     case l of
       Inl e \<Rightarrow> ret (Inl (wrapf ''listing pool pods'' e))
     | Inr poolPods \<Rightarrow> do {
         c \<leftarrow> relabelPods E poolPods 0 0;
         case c of
           Inl e \<Rightarrow> ret (Inl e)
         | Inr (warming, rdy) \<Rightarrow> fillAndReport E pool wl (int (length poolPods)) warming rdy
       }
   }"

definition reconcilePool :: "env \<Rightarrow> NamespacedName \<Rightarrow> (err + Result) io" where
  "reconcilePool E req = do {
     g \<leftarrow> getObj PoolEv (pools E) req;
     case g of
       Inl e \<Rightarrow> if isNotFound e then ret (Inr noResult) else ret (Inl e)
     | Inr pool \<Rightarrow>
         if \<not> ContainsFinalizer (poolMeta pool) finalizerName
         then do {
           u \<leftarrow> updateObj PoolEv (pools E)
                  (pool\<lparr>poolMeta := AddFinalizer (poolMeta pool) finalizerName\<rparr>);
           case u of
             Inl e \<Rightarrow> ret (Inl e)
           | Inr _ \<Rightarrow> ret (Inr requeueNow)
         }
         else if isDeleting (poolMeta pool)
         then do {
           d \<leftarrow> deletePoolPods E (Namespace (poolMeta pool)) (poolWorkloadRef (poolSpec pool));
           case d of
             Inl e \<Rightarrow> ret (Inl (wrapf ''cleaning up pool pods'' e))
           | Inr _ \<Rightarrow> do {
               u \<leftarrow> updateObj PoolEv (pools E)
                      (pool\<lparr>poolMeta := RemoveFinalizer (poolMeta pool) finalizerName\<rparr>);
               ret (resultOf u)
             }
         }
         else do {
           w \<leftarrow> getObj WorkloadEv (workloads E)
                  (nsName (Namespace (poolMeta pool)) (poolWorkloadRef (poolSpec pool)));
           case w of
             Inl e \<Rightarrow>
               if isNotFound e then setPoolStatus E pool 0 0 ''Error'' ''workload not found''
               else ret (Inl e)
           | Inr wl \<Rightarrow>
               if wlPhase (wlStatus wl) \<noteq> ''Ready''
               then setPoolStatus E pool 0 0 ''Error'' ''workload not ready''
               else managePool E pool wl
         }
   }"

section \<open>Lemmas\<close>

definition isPodCreate :: "event \<Rightarrow> bool" where
  "isPodCreate e = (case e of PodEv (CreateEv p r) \<Rightarrow> True | _ \<Rightarrow> False)"

lemma isPodCreate_simps [simp]:
  "isPodCreate (PodEv (CreateEv p r))" "\<not> isPodCreate (PodEv (ListEv ns l ps))"
  "\<not> isPodCreate (PodEv (UpdateEv p r))" "\<not> isPodCreate (PodEv (DeleteEv k d))"
  "\<not> isPodCreate (PoolEv pe)" "\<not> isPodCreate (RandEv n rr)" "\<not> isPodCreate (ConfigMapEv me)"
  "\<not> isPodCreate (WorkloadEv we)" "\<not> isPodCreate (SecretEv se)" "\<not> isPodCreate (CryptoEv c cr)"
  "\<not> isPodCreate (TimeEv t)"
  by (simp_all add: isPodCreate_def)

definition notPool :: "event \<Rightarrow> bool" where
  "notPool e = (case e of PoolEv _ \<Rightarrow> False | _ \<Rightarrow> True)"

lemma notPool_simps [simp]:
  "notPool (PodEv pe)" "notPool (RandEv n rr)" "notPool (ConfigMapEv me)" "\<not> notPool (PoolEv le)"
  by (simp_all add: notPool_def)

text \<open>A pod the pool may create: warming, of the pool's workload and namespace, without a tenant.\<close>

definition poolPodOk :: "BoilerhousePool \<Rightarrow> event \<Rightarrow> bool" where
  "poolPodOk pool e = (case e of
      PodEv (CreateEv p r) \<Rightarrow>
        Labels (podMeta p) LabelPoolStatus = Some ''warming'' \<and> Labels (podMeta p) LabelTenant = None \<and>
        Labels (podMeta p) LabelWorkload = Some (poolWorkloadRef (poolSpec pool)) \<and>
        Namespace (podMeta p) = Namespace (poolMeta pool) \<and>
        HasPrefix (podName p) (poolWorkloadRef (poolSpec pool) @ ''-pool-'')
    | _ \<Rightarrow> True)"

lemma poolPodOk_other: "\<not> isPodCreate e \<Longrightarrow> poolPodOk pool e"
  by (auto simp: isPodCreate_def poolPodOk_def split: event.splits kev.splits)

lemma Translate_poolPodOk:
  assumes "Translate (wlSpec wl) (poolOpts pool wl proxy sfx) = Inr res"
  shows "poolPodOk pool (PodEv (CreateEv (resPod res) r))"
  using Translate_identity [OF assms] by (simp add: poolPodOk_def poolOpts_def HasPrefix_iff)

definition poolOutcome :: "BoilerhousePool \<Rightarrow> nat \<Rightarrow> int \<Rightarrow> err + int \<Rightarrow> event list \<Rightarrow> bool" where
  "poolOutcome pool n warming r evs \<longleftrightarrow> list_all (poolPodOk pool) evs \<and> list_all notPool evs \<and>
     length (filter isPodCreate evs) \<le> n \<and>
     (case r of Inl _ \<Rightarrow> True
      | Inr w \<Rightarrow> length (filter isPodCreate evs) = n \<and> w = warming + int n)"

lemma wp_createPoolPod:
  "wp (createPoolPod E pool wl proxy) (\<lambda>r tr'. \<exists>evs. tr' = tr @ evs \<and>
     list_all (poolPodOk pool) evs \<and> list_all notPool evs \<and> length (filter isPodCreate evs) \<le> 1 \<and>
     (case r of Inl _ \<Rightarrow> True | Inr _ \<Rightarrow> length (filter isPodCreate evs) = 1)) tr"
  unfolding createPoolPod_def randomSuffix_def createPoolConfigMap_def api_defs
  by (auto simp: wp_simps poolPodOk_other Translate_poolPodOk split: sum.splits option.splits)

lemma wp_createPoolPods:
  "wp (createPoolPods E pool wl proxy n warming)
     (\<lambda>r tr'. \<exists>evs. tr' = tr @ evs \<and> poolOutcome pool n warming r evs) tr"
proof (induction n arbitrary: warming tr)
  case 0
  then show ?case by (simp add: wp_simps poolOutcome_def)
next
  case (Suc n)
  show ?case
    unfolding createPoolPods.simps wp_bind
  proof (rule wp_mono [OF wp_createPoolPod])
    fix r :: "err + unit" and tr'
    assume "\<exists>evs. tr' = tr @ evs \<and> list_all (poolPodOk pool) evs \<and> list_all notPool evs \<and>
      length (filter isPodCreate evs) \<le> 1 \<and>
      (case r of Inl _ \<Rightarrow> True | Inr _ \<Rightarrow> length (filter isPodCreate evs) = 1)"
    then obtain evs where evs: "tr' = tr @ evs" "list_all (poolPodOk pool) evs" "list_all notPool evs"
      "length (filter isPodCreate evs) \<le> 1"
      "case r of Inl _ \<Rightarrow> True | Inr _ \<Rightarrow> length (filter isPodCreate evs) = 1" by auto
    show "wp (case r of Inl e \<Rightarrow> ret (Inl e) | Inr _ \<Rightarrow> createPoolPods E pool wl proxy n (warming + 1))
      (\<lambda>r tr'. \<exists>evs. tr' = tr @ evs \<and> poolOutcome pool (Suc n) warming r evs) tr'"
    proof (cases r)
      case (Inl e)
      with evs show ?thesis by (auto simp: wp_simps poolOutcome_def)
    next
      case (Inr u)
      have "wp (createPoolPods E pool wl proxy n (warming + 1))
        (\<lambda>r tr'. \<exists>evs. tr' = tr @ evs \<and> poolOutcome pool (Suc n) warming r evs) (tr @ evs)"
        by (rule wp_shift [OF Suc.IH]) (use evs Inr in \<open>auto simp: poolOutcome_def split: sum.splits\<close>)
      with Inr evs(1) show ?thesis by simp
    qed
  qed
qed

text \<open>The relabelling pass counts every pool pod once, and creates none.\<close>

lemma wp_relabelPods:
  "list_all isPoolPod ps \<Longrightarrow>
   wp (relabelPods E ps warming rdy) (\<lambda>r tr'. \<exists>evs. tr' = tr @ evs \<and>
     filter isPodCreate evs = [] \<and> list_all notPool evs \<and> (case r of Inl _ \<Rightarrow> True
       | Inr (w, n) \<Rightarrow> w + n = warming + rdy + int (length ps) \<and> warming \<le> w \<and> rdy \<le> n)) tr"
proof (induction ps arbitrary: warming rdy tr)
  case Nil
  then show ?case by (simp add: wp_simps)
next
  case (Cons p ps)
  from Cons.prems have ps: "list_all isPoolPod ps" by simp
  from Cons.prems have p: "poolStatusOf p = ''warming'' \<or> poolStatusOf p = ''ready''"
    by (simp add: isPoolPod_def [of p])
  have step: "wp (relabelPods E ps w n) (\<lambda>r tr'. \<exists>evs. tr' = tr @ evs \<and>
     filter isPodCreate evs = [] \<and> list_all notPool evs \<and> (case r of Inl _ \<Rightarrow> True
       | Inr (w, n) \<Rightarrow> w + n = warming + rdy + int (length (p # ps)) \<and> warming \<le> w \<and> rdy \<le> n)) (tr @ pre)"
    if "filter isPodCreate pre = []" "list_all notPool pre" "w + n = warming + rdy + 1" "warming \<le> w" "rdy \<le> n" for w n pre
    by (rule wp_shift [OF Cons.IH [OF ps]]) (use that in \<open>auto split: sum.splits\<close>)
  show ?case
    using p step [of "[]" "warming + 1" rdy] step [of "[]" warming "rdy + 1"]
      step [of "[PodEv (UpdateEv (markReady p) r)]" warming "rdy + 1" for r]
    by (auto simp: wp_simps updateObj_def split: sum.split)
qed

text \<open>
  A pass over a pool with \<open>tot\<close> pool pods that appends \<open>evs\<close>: at most the missing pods are
  created, at most \<open>maxFill\<close>, and a status that is written counts the pods after the pass.
\<close>

definition poolInRange :: "BoilerhousePool \<Rightarrow> nat \<Rightarrow> bool" where
  "poolInRange pool tot \<longleftrightarrow> \<bar>poolSize (poolSpec pool)\<bar> < 2 ^ 62 \<and> \<bar>maxFill pool\<bar> < 2 ^ 62 \<and> tot < 2 ^ 62"

definition poolPassOk :: "BoilerhousePool \<Rightarrow> nat \<Rightarrow> event list \<Rightarrow> bool" where
  "poolPassOk pool tot evs \<longleftrightarrow>
     (let c = length (filter isPodCreate evs)
      in list_all (poolPodOk pool) evs \<and>
         c \<le> nat (poolSize (poolSpec pool) - int tot) \<and> c \<le> nat (maxFill pool) \<and>
         list_all (\<lambda>e. case e of
             PoolEv (StatusEv p r) \<Rightarrow>
               (let st = poolStatus p
                in poolReady st + poolWarming st = int tot + int c \<and> 0 \<le> poolReady st \<and>
                   (if c = 0 then True else poolWarming st \<le> maxFill pool) \<and>
                   poolPhase st = (if poolWarming st > 0 then ''Degraded'' else ''Healthy''))
           | _ \<Rightarrow> True) evs)"

lemma proxy_quietPool: "list_all (proxyEvent ns) evs \<Longrightarrow> filter isPodCreate evs = [] \<and> list_all notPool evs"
  by (induction evs) (auto simp: isPodCreate_def notPool_def split: event.splits)

lemma creates_poolPodOk: "filter isPodCreate evs = [] \<Longrightarrow> list_all (poolPodOk pool) evs"
  by (induction evs) (auto simp: poolPodOk_other split: if_splits)

text \<open>Pods are created after the proxy's Secrets were read.\<close>

lemma wp_createPoolPods_after:
  assumes "list_all (proxyEvent (Namespace (poolMeta pool))) evs"
  shows "wp (case p of Inl e \<Rightarrow> ret (Inl e) | Inr pr \<Rightarrow> createPoolPods E pool wl pr n warming)
    (\<lambda>r tr'. \<exists>evs. tr' = tr @ evs \<and> poolOutcome pool n warming r evs) (tr @ evs)"
proof (cases p)
  case (Inl e)
  with proxy_quietPool [OF assms] show ?thesis
    by (auto simp: wp_simps poolOutcome_def creates_poolPodOk)
next
  case (Inr pr)
  have "wp (createPoolPods E pool wl pr n warming)
    (\<lambda>r tr'. \<exists>evs. tr' = tr @ evs \<and> poolOutcome pool n warming r evs) (tr @ evs)"
    by (rule wp_shift [OF wp_createPoolPods])
      (use proxy_quietPool [OF assms] in \<open>auto simp: poolOutcome_def creates_poolPodOk split: sum.splits\<close>)
  with Inr show ?thesis by simp
qed

lemma wp_fillPool:
  assumes "poolInRange pool tot" and "0 \<le> warming" and "warming \<le> int tot"
  shows "wp (fillPool E pool wl (int tot) warming) (\<lambda>r tr'. \<exists>evs. tr' = tr @ evs \<and>
     poolOutcome pool (nat (min (poolSize (poolSpec pool) - int tot) (maxFill pool - warming))) warming r evs) tr"
proof -
  have gap: "wrap64 (poolSize (poolSpec pool) - int tot) = poolSize (poolSpec pool) - int tot"
    "wrap64 (maxFill pool - warming) = maxFill pool - warming"
    using assms by (auto simp: poolInRange_def intro!: wrap64_id)
  have can: "canCreate pool (poolSize (poolSpec pool) - int tot) warming =
    min (poolSize (poolSpec pool) - int tot) (maxFill pool - warming)"
    using gap by (simp add: canCreate_def Let_def)
  have proxy: "emits (proxyEvent (Namespace (poolMeta pool))) (poolProxy E pool wl)"
    unfolding poolProxy_def by (intro emits_intros emits_BuildProxyConfig)
  show ?thesis
  proof (cases "poolSize (poolSpec pool) - int tot > 0")
    case False
    then show ?thesis by (auto simp: fillPool_def gap wp_simps poolOutcome_def)
  next
    case True
    let ?n = "nat (min (poolSize (poolSpec pool) - int tot) (maxFill pool - warming))"
    have "wp (poolProxy E pool wl) (\<lambda>p. wp (case p of Inl e \<Rightarrow> ret (Inl e)
        | Inr pr \<Rightarrow> createPoolPods E pool wl pr ?n warming)
      (\<lambda>r tr'. \<exists>evs. tr' = tr @ evs \<and> poolOutcome pool ?n warming r evs)) tr"
      by (rule emits_wpI [OF proxy]) (rule wp_createPoolPods_after)
    with True show ?thesis by (simp add: fillPool_def gap can wp_bind)
  qed
qed

lemma poolPassOk_final:
  assumes "filter isPodCreate evs0 = []" "list_all notPool evs0"
    and "poolOutcome pool (nat (min (poolSize (poolSpec pool) - int tot) (maxFill pool - warming)))
           warming r evs" "0 \<le> warming" "w + n = int tot" "w = warming" "0 \<le> n"
    and "fin = [] \<or> (\<exists>st u. r = Inr w' \<and> fin = [PoolEv (StatusEv (pool\<lparr>poolStatus := st\<rparr>) u)] \<and>
           poolReady st = n \<and> poolWarming st = w' \<and>
           poolPhase st = (if w' > 0 then ''Degraded'' else ''Healthy''))"
  shows "poolPassOk pool tot (evs0 @ evs @ fin)"
proof -
  have notStatus: "list_all (\<lambda>e. case e of PoolEv (StatusEv p r) \<Rightarrow> P p r | _ \<Rightarrow> True) xs"
    if "list_all notPool xs" for xs P
    using that by (auto simp: list_all_iff notPool_def split: event.splits kev.splits)
  show ?thesis
    using assms notStatus [of evs0] notStatus [of evs]
    by (auto simp: poolPassOk_def Let_def poolOutcome_def creates_poolPodOk poolPodOk_other
        split: sum.splits)
qed

text \<open>What a pass appended before it fills the pool: the List and the updates of the relabelling.\<close>

definition relabelled :: "nat \<Rightarrow> event list \<Rightarrow> int \<Rightarrow> int \<Rightarrow> bool" where
  "relabelled tot evs w n \<longleftrightarrow> filter isPodCreate evs = [] \<and> list_all notPool evs \<and>
     w + n = int tot \<and> 0 \<le> w \<and> 0 \<le> n"

lemma wp_fillAndReport:
  assumes range: "poolInRange pool tot" and pre: "relabelled tot pre w n"
  shows "wp (fillAndReport E pool wl (int tot) w n) (\<lambda>r tr'. poolPassOk pool tot (drop (length tr) tr')) (tr @ pre)"
  unfolding fillAndReport_def wp_bind
proof (rule wp_mono [OF wp_fillPool [OF range]])
  show "0 \<le> w" "w \<le> int tot" using pre by (auto simp: relabelled_def)
  let ?Q = "\<lambda>r tr'. poolPassOk pool tot (drop (length tr) tr')"
  fix f :: "err + int" and tr'
  assume "\<exists>evs. tr' = (tr @ pre) @ evs \<and>
    poolOutcome pool (nat (min (poolSize (poolSpec pool) - int tot) (maxFill pool - w))) w f evs"
  then obtain evs where evs: "tr' = tr @ (pre @ evs)"
    "poolOutcome pool (nat (min (poolSize (poolSpec pool) - int tot) (maxFill pool - w))) w f evs" by auto
  note final = poolPassOk_final [OF _ _ evs(2), of pre w n]
  show "wp (case f of
       Inl e \<Rightarrow> ret (Inl e)
     | Inr warming' \<Rightarrow> setPoolStatus E pool n warming'
         (if warming' > 0 then ''Degraded'' else ''Healthy'') []) ?Q tr'"
  proof (cases f)
    case (Inl e)
    with final [where fin = "[]"] evs(1) pre show ?thesis by (simp add: wp_simps relabelled_def)
  next
    case (Inr v)
    let ?st = "(poolStatus pool)\<lparr>poolReady := n, poolWarming := v,
      poolPhase := (if v > 0 then ''Degraded'' else ''Healthy'')\<rparr>"
    have "poolPassOk pool tot (pre @ evs @ [PoolEv (StatusEv (pool\<lparr>poolStatus := ?st\<rparr>) u)])" for u
      by (rule final [where w' = v]) (use Inr pre in \<open>auto simp: relabelled_def intro!: exI [of _ ?st]\<close>)
    with Inr evs(1) show ?thesis
      by (simp add: setPoolStatus_def statusObj_def wp_simps split: sum.split split del: if_split)
  qed
qed

lemma poolPassOk_quiet:
  "filter isPodCreate evs = [] \<Longrightarrow> list_all notPool evs \<Longrightarrow> poolPassOk pool tot evs"
  using poolPassOk_final [of evs pool tot 0 "Inl undefined" "[]" 0 "int tot" "[]"] by (simp add: poolOutcome_def)

lemma wp_managePool:
  assumes l: "k_list (pods E) tr (Namespace (poolMeta pool))
      (workloadSelector (poolWorkloadRef (poolSpec pool))) = Inr ps"
    and tot: "tot = length (filter isPoolPod ps)" and range: "poolInRange pool tot"
  shows "wp (managePool E pool wl) (\<lambda>r tr'. poolPassOk pool tot (drop (length tr) tr')) tr"
proof -
  let ?l = "PodEv (ListEv (Namespace (poolMeta pool)) (workloadSelector (poolWorkloadRef (poolSpec pool))) (Inr ps))"
  let ?pp = "filter isPoolPod ps"
  let ?Q = "\<lambda>r tr'. poolPassOk pool tot (drop (length tr) tr')"
  have "list_all isPoolPod ?pp" by (simp add: list_all_iff)
  from wp_relabelPods [OF this, of E 0 0 "tr @ [?l]"]
  have "wp (relabelPods E ?pp 0 0) (\<lambda>c tr'. wp (case c of
       Inl e \<Rightarrow> ret (Inl e)
     | Inr (warming, rdy) \<Rightarrow> fillAndReport E pool wl (int (length ?pp)) warming rdy) ?Q tr') (tr @ [?l])"
  proof (rule wp_mono)
    fix c :: "err + int \<times> int" and tr'
    assume "\<exists>evs. tr' = (tr @ [?l]) @ evs \<and> filter isPodCreate evs = [] \<and> list_all notPool evs \<and>
      (case c of Inl _ \<Rightarrow> True
       | Inr (w, n) \<Rightarrow> w + n = 0 + 0 + int (length ?pp) \<and> 0 \<le> w \<and> 0 \<le> n)"
    then obtain evs where evs: "tr' = tr @ (?l # evs)" "filter isPodCreate evs = []" "list_all notPool evs"
      "case c of Inl _ \<Rightarrow> True | Inr (w, n) \<Rightarrow> relabelled tot (?l # evs) w n"
      by (auto simp: tot relabelled_def split: sum.splits)
    then show "wp (case c of
       Inl e \<Rightarrow> ret (Inl e)
     | Inr (warming, rdy) \<Rightarrow> fillAndReport E pool wl (int (length ?pp)) warming rdy) ?Q tr'"
      using poolPassOk_quiet [of "?l # evs" pool tot] wp_fillAndReport [OF range, of "?l # evs"]
      by (auto simp: wp_ret tot [symmetric] split: sum.splits)
  qed
  with l show ?thesis
    by (simp add: managePool_def listPoolPods_def listObj_def wp_bind wp_call wp_ret)
qed

section \<open>The cleanup of a deleted pool\<close>

lemma run_forEach:
  assumes "\<And>x tr. run_state (f x) tr = (Inr (), tr @ [g x])"
  shows "run_state (forEach f xs) tr = (Inr (), tr @ map g xs)"
  using assms by (induction xs arbitrary: tr) simp_all

lemma run_deletePodOrSkip:
  "k_delete (pods E) = (\<lambda>_ _. None) \<Longrightarrow>
   run_state (deletePodOrSkip E p) tr = (Inr (), tr @ [PodEv (DeleteEv (podKey p) None)])"
  by (simp add: deletePodOrSkip_def deleteObj_def)

section \<open>Properties\<close>

text \<open>
  C12. A pass over a pool with \<open>tot\<close> warming or ready pods, with sizes below 2^62: it creates at most the
  pods missing to the size and at most maxFillConcurrency, each warming, of the pool's workload and
  namespace, named after it and without a tenant; and the status it writes counts ready and
  warming pods to exactly \<open>tot\<close> plus the created ones, Degraded when some are warming, else Healthy.
\<close>

theorem pool_pass:
  assumes "k_list (pods E) tr (Namespace (poolMeta pool))
      (workloadSelector (poolWorkloadRef (poolSpec pool))) = Inr ps"
    and "tot = length (filter isPoolPod ps)" and "poolInRange pool tot"
  shows "poolPassOk pool tot (appended (managePool E pool wl) tr)"
  using wp_managePool [OF assms, of wl]
  by (simp add: wp_appended [where Q = "\<lambda>_ evs. poolPassOk pool tot evs"])

text \<open>A pool of two with one ready pod and an acquired one.\<close>

definition demoPool :: BoilerhousePool where
  "demoPool = \<lparr>poolMeta = objectMeta ''p'' ''ns'',
     poolSpec = \<lparr>poolWorkloadRef = ''w'', poolSize = 2, MaxFillConcurrency = None\<rparr>,
     poolStatus = \<lparr>poolReady = 0, poolWarming = 0, poolPhase = []\<rparr>\<rparr>"

definition poolEnv :: env where
  "poolEnv = offlineEnv\<lparr>
     pods := offlineKind\<lparr>k_list := \<lambda>_ _ _. Inr [markReady demoPod, acquiredPod demoPod ''t''],
       k_create := \<lambda>_ p. Inr p, k_delete := \<lambda>_ _. None\<rparr>,
     pools := offlineKind\<lparr>k_status := \<lambda>_ p. Inr p\<rparr>\<rparr>"

lemma demoPool_counts: "isPoolPod (markReady demoPod)" "\<not> isPoolPod (acquiredPod demoPod ''t'')"
  by (simp_all add: isPoolPod_def poolStatusOf_def markReady_def acquiredPod_def lookupS_def demoPod_def)

theorem pool_pass_witness: "poolPassOk demoPool 1 (appended (managePool poolEnv demoPool demoWorkload) [])"
  by (rule pool_pass [of _ _ _ "[markReady demoPod, acquiredPod demoPod ''t'']"])
    (simp_all add: poolEnv_def demoPool_counts demoPool_def poolInRange_def maxFill_def
      defaultMaxFillConcurrency_def offline_defs)

text \<open>
  Deleting a pool deletes every pod of its workload that has a pool status label, whatever the
  status: pods that a claim acquired and that hold a tenant's data are deleted with it.
\<close>

theorem pool_deletion:
  assumes "k_list (pods E) = (\<lambda>_ _ _. Inr ps)" and "k_delete (pods E) = (\<lambda>_ _. None)"
  shows "appended (deletePoolPods E ns w) tr = PodEv (ListEv ns (workloadSelector w) (Inr ps)) #
      map (\<lambda>p. PodEv (DeleteEv (podKey p) None)) (filter (\<lambda>p. Labels (podMeta p) LabelPoolStatus \<noteq> None) ps) \<and>
    list_all (\<lambda>p. PodEv (DeleteEv (podKey p) None) \<in> set (appended (deletePoolPods E ns w) tr))
      (filter (\<lambda>p. poolStatusOf p = ''acquired'') ps)"
proof -
  have "run_state (forEach (deletePodOrSkip E) qs) tr' =
      (Inr (), tr' @ map (\<lambda>p. PodEv (DeleteEv (podKey p) None)) qs)" for qs tr'
    by (rule run_forEach) (rule run_deletePodOrSkip [OF assms(2)])
  then have "appended (deletePoolPods E ns w) tr = PodEv (ListEv ns (workloadSelector w) (Inr ps)) #
      map (\<lambda>p. PodEv (DeleteEv (podKey p) None)) (filter (\<lambda>p. Labels (podMeta p) LabelPoolStatus \<noteq> None) ps)"
    by (simp add: appended_def deletePoolPods_def listObj_def assms(1))
  then show ?thesis
    by (auto simp: list_all_iff poolStatusOf_def lookupS_def split: option.splits)
qed

theorem pool_deletion_witness:
  "PodEv (DeleteEv (podKey (acquiredPod demoPod ''t'')) None) \<in> set (appended (deletePoolPods poolEnv ''ns'' ''w'') [])"
  using pool_deletion [of poolEnv "[markReady demoPod, acquiredPod demoPod ''t'']" "''ns''" "''w''" "[]"]
  by (simp add: poolEnv_def offline_defs markReady_def acquiredPod_def)

end
