(* ===== verification/Workload_Controller.thy ===== *)
theory Workload_Controller
  imports Claim_Pods
begin

text \<open>
  \<open>workload_controller.go\<close>: validating a workload, building its image when it names a
  Dockerfile, and its phase.
\<close>

section \<open>Paths (filepath)\<close>

text \<open>\<open>Clean\<close> keeps a stack of the elements so far, last first.\<close>

fun cleanElems :: "bool \<Rightarrow> string list \<Rightarrow> string list \<Rightarrow> string list" where
  "cleanElems rooted [] stack = rev stack"
| "cleanElems rooted (p # ps) stack =
     (if p = [] \<or> p = ''.'' then cleanElems rooted ps stack
      else if p = ''..''
      then (case stack of
              [] \<Rightarrow> if rooted then cleanElems rooted ps [] else cleanElems rooted ps [''..'']
            | q # qs \<Rightarrow> if q = ''..'' then cleanElems rooted ps (''..'' # q # qs)
                        else cleanElems rooted ps qs)
      else cleanElems rooted ps (p # stack))"

definition pathClean :: "string \<Rightarrow> string" where
  "pathClean p =
     (let rooted = HasPrefix p ''/'';
          s = Join (cleanElems rooted (Split p (CHR ''/'')) []) ''/''
      in if rooted then ''/'' @ s else if s = [] then ''.'' else s)"

definition pathJoin :: "string \<Rightarrow> string \<Rightarrow> string" where
  "pathJoin a b =
     (if a = [] \<and> b = [] then []
      else if a = [] then pathClean b
      else if b = [] then pathClean a
      else pathClean (a @ ''/'' @ b))"

definition pathDir :: "string \<Rightarrow> string" where
  "pathDir p = pathClean (rev (dropWhile (\<lambda>c. c \<noteq> CHR ''/'') (rev p)))"

fun Contains :: "string \<Rightarrow> string \<Rightarrow> bool" where
  "Contains [] sub = (sub = [])"
| "Contains (c # s) sub = (HasPrefix (c # s) sub \<or> Contains s sub)"

section \<open>Images\<close>

record WorkloadReconciler =
  WorkloadsDir :: string

definition detectMinikubeProfile :: "env \<Rightarrow> string io" where
  "detectMinikubeProfile E = do {
     r \<leftarrow> execCmd E [''minikube'', ''profile'', ''list'', ''-o'', ''json''] [];
     ret (case r of
            ExecOk out _ \<Rightarrow> if Contains out ''boilerhouse'' then ''boilerhouse'' else []
          | _ \<Rightarrow> [])
   }"

definition envLines :: "string \<Rightarrow> string list" where
  "envLines out = filter (\<lambda>l. l \<noteq> [] \<and> \<not> HasPrefix l ''#'' \<and> CHR ''='' \<in> set l)
     (map TrimSpace (Split out (CHR 0x0A)))"

text \<open>
  The additions to the environment of \<open>docker build\<close>.  In the command's event they stand before
  the command as \<open>KEY=VALUE\<close> words.
\<close>

definition minikubeEnv :: "env \<Rightarrow> string list io" where
  "minikubeEnv E = do {
     profile \<leftarrow> detectMinikubeProfile E;
     if profile = [] then ret []
     else do {
       r \<leftarrow> execCmd E [''minikube'', ''-p'', profile, ''docker-env'', ''--shell'', ''none''] [];
       ret (case r of ExecOk out _ \<Rightarrow> envLines out | _ \<Rightarrow> [])
     }
   }"

definition dockerArgs :: "WorkloadReconciler \<Rightarrow> string \<Rightarrow> string \<Rightarrow> string list" where
  "dockerArgs W dockerfile imageTag =
     (let path = (if WorkloadsDir W \<noteq> [] then pathJoin (WorkloadsDir W) dockerfile else dockerfile)
      in [''docker'', ''build'', ''-t'', imageTag, ''-f'', path, pathDir path])"

definition buildImage :: "env \<Rightarrow> WorkloadReconciler \<Rightarrow> string \<Rightarrow> string \<Rightarrow> err option io" where
  "buildImage E W dockerfile imageTag = do {
     extra \<leftarrow> minikubeEnv E;
     r \<leftarrow> execCmd E (extra @ dockerArgs W dockerfile imageTag) [];
     ret (runError ''docker build'' r)
   }"

section \<open>Validation and phases\<close>

definition validateWorkloadSpec :: "BoilerhouseWorkloadSpec \<Rightarrow> string list" where
  "validateWorkloadSpec spec =
     (if imageRef (wlImage spec) = [] \<and> Dockerfile (wlImage spec) = []
      then [''either image.ref or image.dockerfile must be set''] else []) @
     (if imageRef (wlImage spec) \<noteq> [] \<and> Dockerfile (wlImage spec) \<noteq> []
      then [''image.ref and image.dockerfile are mutually exclusive''] else []) @
     (if VCPUs (wlResources spec) \<le> 0 then [''resources.vcpus must be > 0''] else []) @
     (if MemoryMb (wlResources spec) \<le> 0 then [''resources.memoryMb must be > 0''] else [])"

definition deleteOwnedPods :: "env \<Rightarrow> string \<Rightarrow> string \<Rightarrow> (err + unit) io" where
  "deleteOwnedPods E ns workloadName = do {
     r \<leftarrow> listObj PodEv (pods E) ns [(LabelWorkload, workloadName)];
     case r of
       Inl e \<Rightarrow> ret (Inl e)
     | Inr ps \<Rightarrow> forEach (deletePodOrSkip E) ps
   }"

definition workloadStatus :: "BoilerhouseWorkload \<Rightarrow> string \<Rightarrow> string \<Rightarrow> BoilerhouseWorkload" where
  "workloadStatus wl phase detail = wl\<lparr>wlStatus := \<lparr>wlPhase = phase, wlDetail = detail,
     ObservedGeneration = Generation (wlMeta wl)\<rparr>\<rparr>"

definition setWorkloadStatus :: "env \<Rightarrow> BoilerhouseWorkload \<Rightarrow> string \<Rightarrow> string \<Rightarrow> Result
    \<Rightarrow> (err + Result) io" where
  "setWorkloadStatus E wl phase detail res = do {
     u \<leftarrow> statusObj WorkloadEv (workloads E) (workloadStatus wl phase detail);
     case u of
       Inl e \<Rightarrow> ret (Inl e)
     | Inr _ \<Rightarrow> ret (Inr res)
   }"

definition imageTagOf :: "BoilerhouseWorkload \<Rightarrow> string" where
  "imageTagOf wl = ''boilerhouse/'' @ Name (wlMeta wl) @ '':'' @ wlVersion (wlSpec wl)"

definition buildAndReady :: "env \<Rightarrow> WorkloadReconciler \<Rightarrow> BoilerhouseWorkload \<Rightarrow> (err + Result) io" where
  "buildAndReady E W wl =
     (if Dockerfile (wlImage (wlSpec wl)) = [] then setWorkloadStatus E wl ''Ready'' [] noResult
      else if wlPhase (wlStatus wl) \<noteq> ''Creating''
      then setWorkloadStatus E wl ''Creating'' (''building image '' @ imageTagOf wl) requeueNow
      else do {
        b \<leftarrow> buildImage E W (Dockerfile (wlImage (wlSpec wl))) (imageTagOf wl);
        case b of
          Some e \<Rightarrow> setWorkloadStatus E wl ''Error'' (''image build failed: '' @ err_msg e) noResult
        | None \<Rightarrow> setWorkloadStatus E wl ''Ready'' [] noResult
      })"

definition reconcileWorkload :: "env \<Rightarrow> WorkloadReconciler \<Rightarrow> NamespacedName \<Rightarrow> (err + Result) io" where
  "reconcileWorkload E W req = do {
     g \<leftarrow> getObj WorkloadEv (workloads E) req;
     case g of
       Inl e \<Rightarrow> if isNotFound e then ret (Inr noResult) else ret (Inl e)
     | Inr wl \<Rightarrow>
         if isDeleting (wlMeta wl)
         then if ContainsFinalizer (wlMeta wl) finalizerName
              then do {
                d \<leftarrow> deleteOwnedPods E (Namespace (wlMeta wl)) (Name (wlMeta wl));
                case d of
                  Inl e \<Rightarrow> ret (Inl (wrapf ''cleaning up pods'' e))
                | Inr _ \<Rightarrow> do {
                    u \<leftarrow> updateObj WorkloadEv (workloads E)
                           (wl\<lparr>wlMeta := RemoveFinalizer (wlMeta wl) finalizerName\<rparr>);
                    ret (resultOf u)
                  }
              }
              else ret (Inr noResult)
         else if \<not> ContainsFinalizer (wlMeta wl) finalizerName
         then do {
           u \<leftarrow> updateObj WorkloadEv (workloads E)
                  (wl\<lparr>wlMeta := AddFinalizer (wlMeta wl) finalizerName\<rparr>);
           case u of
             Inl e \<Rightarrow> ret (Inl e)
           | Inr _ \<Rightarrow> ret (Inr requeueNow)
         }
         else if wlPhase (wlStatus wl) = ''Ready'' \<and>
                 ObservedGeneration (wlStatus wl) = Generation (wlMeta wl)
         then ret (Inr noResult)
         else if validateWorkloadSpec (wlSpec wl) \<noteq> []
         then setWorkloadStatus E wl ''Error'' (Join (validateWorkloadSpec (wlSpec wl)) ''; '') noResult
         else buildAndReady E W wl
   }"

section \<open>Lemmas\<close>

lemma validateWorkloadSpec_iff:
  "validateWorkloadSpec spec = [] \<longleftrightarrow>
     (imageRef (wlImage spec) = [] \<longleftrightarrow> Dockerfile (wlImage spec) \<noteq> []) \<and>
     VCPUs (wlResources spec) > 0 \<and> MemoryMb (wlResources spec) > 0"
  by (auto simp: validateWorkloadSpec_def)

text \<open>\<open>Clean\<close> of a rooted path leaves no empty, \<open>.\<close> or \<open>..\<close> element.\<close>

definition plainElem :: "string \<Rightarrow> bool" where
  "plainElem p \<longleftrightarrow> p \<noteq> [] \<and> p \<noteq> ''.'' \<and> p \<noteq> ''..''"

lemma cleanElems_rooted: "list_all plainElem stack \<Longrightarrow> list_all plainElem (cleanElems True ps stack)"
proof (induction ps arbitrary: stack)
  case Nil
  then show ?case by (simp add: list_all_iff)
next
  case (Cons p ps)
  have t: "list_all plainElem (tl stack)" using Cons.prems by (cases stack) simp_all
  show ?case
  proof (cases "p = [] \<or> p = ''.''")
    case True
    with Cons show ?thesis by auto
  next
    case False
    show ?thesis
    proof (cases "p = ''..''")
      case True
      with False Cons.IH [OF t] Cons.prems Cons.IH [of "[]"] show ?thesis
        by (cases stack) (simp_all add: plainElem_def)
    next
      case dots: False
      with False have "plainElem p" by (simp add: plainElem_def)
      with False dots Cons.IH [of "p # stack"] Cons.prems show ?thesis by simp
    qed
  qed
qed

text \<open>The image of \<open>wl\<close> was built: a \<open>docker build\<close> of its Dockerfile exited with 0.\<close>

definition imageBuilt :: "WorkloadReconciler \<Rightarrow> BoilerhouseWorkload \<Rightarrow> event list \<Rightarrow> bool" where
  "imageBuilt W wl pre \<longleftrightarrow>
     (\<exists>extra out x. ExecEv (extra @ dockerArgs W (Dockerfile (wlImage (wlSpec wl))) (imageTagOf wl)) []
        (ExecOk out x) \<in> set pre)"

definition workloadGuard :: "WorkloadReconciler \<Rightarrow> BoilerhouseWorkload \<Rightarrow> event list \<Rightarrow> event \<Rightarrow> bool" where
  "workloadGuard W wl pre e =
     (case e of
        WorkloadEv (StatusEv w r) \<Rightarrow>
          wlSpec w = wlSpec wl \<and> wlMeta w = wlMeta wl \<and>
          ObservedGeneration (wlStatus w) = Generation (wlMeta wl) \<and>
          (if wlPhase (wlStatus w) = ''Ready''
           then validateWorkloadSpec (wlSpec wl) = [] \<and>
                (if Dockerfile (wlImage (wlSpec wl)) = [] then True else imageBuilt W wl pre)
           else if wlPhase (wlStatus w) = ''Creating''
           then validateWorkloadSpec (wlSpec wl) = [] \<and> Dockerfile (wlImage (wlSpec wl)) \<noteq> []
           else wlPhase (wlStatus w) = ''Error'' \<and> wlDetail (wlStatus w) \<noteq> [])
      | _ \<Rightarrow> True)"

lemma workloadGuard_simps [simp]:
  "workloadGuard W wl pre (WorkloadEv (GetEv k r))" "workloadGuard W wl pre (WorkloadEv (UpdateEv w r))"
  "workloadGuard W wl pre (PodEv pe)" "workloadGuard W wl pre (ExecEv a i x)"
  by (simp_all add: workloadGuard_def)

definition isExec :: "event \<Rightarrow> bool" where
  "isExec e = (case e of ExecEv a i x \<Rightarrow> True | _ \<Rightarrow> False)"

lemma isExec_guard: "isExec e \<Longrightarrow> workloadGuard W wl pre e"
  by (simp add: isExec_def split: event.splits)

lemma emits_minikubeEnv: "emits isExec (minikubeEnv E)"
  by (auto simp: minikubeEnv_def detectMinikubeProfile_def execCmd_def isExec_def intro!: emits_intros)

lemma wp_buildImage:
  assumes "\<And>evs extra r. list_all isExec evs \<Longrightarrow>
     Q (runError ''docker build'' r) (tr @ evs @ [ExecEv (extra @ dockerArgs W df tag) [] r])"
  shows "wp (buildImage E W df tag) Q tr"
  unfolding buildImage_def wp_bind
  by (rule emits_wpI [OF emits_minikubeEnv]) (simp add: execCmd_def wp_simps assms)

lemma runError_None: "runError what r = None \<longleftrightarrow> (\<exists>out x. r = ExecOk out x)"
  by (simp add: runError_def split: exec_result.split)

lemma wp_setWorkloadStatus:
  assumes "guarded (workloadGuard W wl) [] pre"
    and "\<And>r. workloadGuard W wl pre (WorkloadEv (StatusEv (workloadStatus wl phase detail) r))"
  shows "wp (setWorkloadStatus E wl phase detail res)
     (\<lambda>r tr'. guarded (workloadGuard W wl) [] (drop (length tr) tr')) (tr @ pre)"
  using assms by (simp add: setWorkloadStatus_def statusObj_def wp_simps split: sum.split)

lemma wp_buildAndReady:
  assumes "guarded (workloadGuard W wl) [] pre" and v: "validateWorkloadSpec (wlSpec wl) = []"
  shows "wp (buildAndReady E W wl)
     (\<lambda>r tr'. guarded (workloadGuard W wl) [] (drop (length tr) tr')) (tr @ pre)"
proof -
  let ?df = "Dockerfile (wlImage (wlSpec wl))"
  let ?Q = "\<lambda>r tr'. guarded (workloadGuard W wl) [] (drop (length tr) tr')"
  have build: "wp (buildImage E W ?df (imageTagOf wl)) (\<lambda>b. wp (case b of
          Some e \<Rightarrow> setWorkloadStatus E wl ''Error'' (''image build failed: '' @ err_msg e) noResult
        | None \<Rightarrow> setWorkloadStatus E wl ''Ready'' [] noResult) ?Q) (tr @ pre)" if "?df \<noteq> []"
  proof (rule wp_buildImage)
    fix evs extra r
    assume evs: "list_all isExec evs"
    let ?x = "ExecEv (extra @ dockerArgs W ?df (imageTagOf wl)) [] r"
    have g: "guarded (workloadGuard W wl) [] (pre @ evs @ [?x])"
      using assms(1) guarded_list_all [OF evs isExec_guard] by simp
    show "wp (case runError ''docker build'' r of
          Some e \<Rightarrow> setWorkloadStatus E wl ''Error'' (''image build failed: '' @ err_msg e) noResult
        | None \<Rightarrow> setWorkloadStatus E wl ''Ready'' [] noResult) ?Q ((tr @ pre) @ evs @ [?x])"
    proof (cases "runError ''docker build'' r")
      case (Some e)
      have "wp (setWorkloadStatus E wl ''Error'' (''image build failed: '' @ err_msg e) noResult) ?Q
        (tr @ pre @ evs @ [?x])"
        by (rule wp_setWorkloadStatus [OF g]) (simp add: workloadGuard_def workloadStatus_def)
      with Some show ?thesis by simp
    next
      case None
      then have "imageBuilt W wl (pre @ evs @ [?x])" by (auto simp: imageBuilt_def runError_None)
      then have "wp (setWorkloadStatus E wl ''Ready'' [] noResult) ?Q (tr @ pre @ evs @ [?x])"
        by (intro wp_setWorkloadStatus [OF g]) (simp add: workloadGuard_def workloadStatus_def v)
      with None show ?thesis by simp
    qed
  qed
  have ready: "wp (setWorkloadStatus E wl ''Ready'' [] noResult) ?Q (tr @ pre)" if "?df = []"
    by (rule wp_setWorkloadStatus [OF assms(1)]) (simp add: workloadGuard_def workloadStatus_def v that)
  have creating: "wp (setWorkloadStatus E wl ''Creating'' (''building image '' @ imageTagOf wl) requeueNow)
     ?Q (tr @ pre)" if "?df \<noteq> []"
    by (rule wp_setWorkloadStatus [OF assms(1)]) (simp add: workloadGuard_def workloadStatus_def v that)
  show ?thesis
    using build ready creating by (simp only: buildAndReady_def wp_if wp_bind split: if_split) simp
qed

lemma Join_nonempty: "xs \<noteq> [] \<Longrightarrow> list_all (\<lambda>x. x \<noteq> []) xs \<Longrightarrow> Join xs sep \<noteq> []"
  by (cases xs; cases "tl xs") auto

lemma validate_messages: "list_all (\<lambda>x. x \<noteq> []) (validateWorkloadSpec spec)"
  by (simp add: validateWorkloadSpec_def)

lemma emits_deleteOwnedPods: "emits (\<lambda>e. case e of PodEv _ \<Rightarrow> True | _ \<Rightarrow> False) (deleteOwnedPods E ns n)"
  by (auto simp: deleteOwnedPods_def deletePodOrSkip_def api_defs intro!: emits_intros)

lemma wp_reconcileWorkload:
  assumes "k_get (workloads E) tr req = Inr wl"
  shows "wp (reconcileWorkload E W req)
     (\<lambda>r tr'. guarded (workloadGuard W wl) [] (drop (length tr) tr')) tr"
proof -
  let ?Q = "\<lambda>r tr'. guarded (workloadGuard W wl) [] (drop (length tr) tr')"
  let ?g = "WorkloadEv (GetEv req (Inr wl))"
  have g: "guarded (workloadGuard W wl) [] [?g]" by simp
  have del: "wp (deleteOwnedPods E (Namespace (wlMeta wl)) (Name (wlMeta wl))) (\<lambda>d. wp (case d of
                  Inl e \<Rightarrow> ret (Inl (wrapf ''cleaning up pods'' e))
                | Inr _ \<Rightarrow> do {
                    u \<leftarrow> updateObj WorkloadEv (workloads E)
                           (wl\<lparr>wlMeta := RemoveFinalizer (wlMeta wl) finalizerName\<rparr>);
                    ret (resultOf u)
                  }) ?Q) (tr @ [?g])"
  proof (rule emits_wpI [OF emits_deleteOwnedPods])
    fix d :: "err + unit" and evs
    assume "list_all (\<lambda>e. case e of PodEv _ \<Rightarrow> True | _ \<Rightarrow> False) evs"
    then have "guarded (workloadGuard W wl) [?g] evs"
      by (rule guarded_list_all) (auto split: event.splits)
    then show "wp (case d of
                  Inl e \<Rightarrow> ret (Inl (wrapf ''cleaning up pods'' e))
                | Inr _ \<Rightarrow> updateObj WorkloadEv (workloads E)
                           (wl\<lparr>wlMeta := RemoveFinalizer (wlMeta wl) finalizerName\<rparr>) \<bind>
                    (\<lambda>u. ret (resultOf u))) ?Q ((tr @ [?g]) @ evs)"
      by (simp add: wp_simps updateObj_def split: sum.split)
  qed
  have err: "wp (setWorkloadStatus E wl ''Error'' (Join (validateWorkloadSpec (wlSpec wl)) ''; '') noResult)
     ?Q (tr @ [?g])" if "validateWorkloadSpec (wlSpec wl) \<noteq> []"
    by (rule wp_setWorkloadStatus [OF g])
      (simp add: workloadGuard_def workloadStatus_def Join_nonempty [OF that validate_messages])
  have ready: "wp (buildAndReady E W wl) ?Q (tr @ [?g])" if "validateWorkloadSpec (wlSpec wl) = []"
    by (rule wp_buildAndReady [OF g that])
  show ?thesis
    unfolding reconcileWorkload_def getObj_def
    using assms del err ready
    by (simp add: wp_bind wp_call wp_ret wp_if updateObj_def [of WorkloadEv _ "wl\<lparr>wlMeta := AddFinalizer m f\<rparr>" for m f]
        wp_case_sum split: sum.split)
qed

section \<open>Properties\<close>

text \<open>
  C33. A pass over a workload writes its status only for the generation it read, with its specification
  unchanged, and only as: Ready, when the specification is valid and, if it names a Dockerfile, after
  a docker build of that Dockerfile with that workload's tag exited with 0; Creating, when it is valid and
  names a Dockerfile; or Error with a detail.
\<close>

theorem workload_ready_built:
  assumes "k_get (workloads E) tr req = Inr wl"
  shows "guarded (workloadGuard W wl) [] (appended (reconcileWorkload E W req) tr)"
  by (rule guarded_appendedI [OF wp_reconcileWorkload [OF assms]])

theorem workload_ready_built_witness:
  "guarded (workloadGuard \<lparr>WorkloadsDir = ''/w''\<rparr> demoWorkload) []
     (appended (reconcileWorkload demoEnv \<lparr>WorkloadsDir = ''/w''\<rparr> (nsName ''ns'' ''w'')) [])"
  by (rule workload_ready_built) (simp add: demoEnv_def)

end
