(* ===== verification/Trigger_Controller.thy ===== *)
theory Trigger_Controller
  imports Claim_Token
begin

text \<open>\<open>trigger_controller.go\<close>: validating a trigger and its phase.\<close>

definition validTriggerTypes :: "string list" where
  "validTriggerTypes = [''webhook'', ''slack'', ''telegram'', ''cron'']"

definition validateTriggerSpec :: "BoilerhouseTriggerSpec \<Rightarrow> string list" where
  "validateTriggerSpec spec =
     (if triggerWorkloadRef spec = [] then [''workloadRef must be set''] else []) @
     (if triggerType spec \<notin> set validTriggerTypes
      then [''type '' @ Quote (triggerType spec) @
            '' is not valid; must be one of: webhook, slack, telegram, cron''] else []) @
     (case triggerTenant spec of
        None \<Rightarrow> []
      | Some t \<Rightarrow> if Static t = [] \<and> From t = []
                  then [''tenant.static or tenant.from must be set when tenant is specified'']
                  else [])"

definition setTriggerStatus :: "env \<Rightarrow> BoilerhouseTrigger \<Rightarrow> string \<Rightarrow> string \<Rightarrow> (err + Result) io" where
  "setTriggerStatus E trigger phase detail = do {
     u \<leftarrow> statusObj TriggerEv (triggers E)
            (trigger\<lparr>triggerStatus := \<lparr>triggerPhase = phase, triggerDetail = detail\<rparr>\<rparr>);
     ret (resultOf u)
   }"

text \<open>Steps 4 to 6: validate, look up the workload, set the phase.\<close>

definition judgeTrigger :: "env \<Rightarrow> BoilerhouseTrigger \<Rightarrow> (err + Result) io" where
  "judgeTrigger E trigger =
     (let errs = validateTriggerSpec (triggerSpec trigger)
      in if errs \<noteq> [] then setTriggerStatus E trigger ''Error'' (Join errs ''; '')
         else do {
           g \<leftarrow> getObj WorkloadEv (workloads E)
                  (nsName (Namespace (triggerMeta trigger)) (triggerWorkloadRef (triggerSpec trigger)));
           case g of
             Inl e \<Rightarrow>
               if isNotFound e
               then setTriggerStatus E trigger ''Error'' (''referenced workload '' @
                      Quote (triggerWorkloadRef (triggerSpec trigger)) @ '' not found'')
               else ret (Inl e)
           | Inr _ \<Rightarrow> setTriggerStatus E trigger ''Active'' []
         })"

definition reconcileTrigger :: "env \<Rightarrow> NamespacedName \<Rightarrow> (err + Result) io" where
  "reconcileTrigger E req = do {
     g \<leftarrow> getObj TriggerEv (triggers E) req;
     case g of
       Inl e \<Rightarrow> if isNotFound e then ret (Inr noResult) else ret (Inl e)
     | Inr trigger \<Rightarrow>
         if isDeleting (triggerMeta trigger)
         then if ContainsFinalizer (triggerMeta trigger) finalizerName
              then do {
                u \<leftarrow> updateObj TriggerEv (triggers E)
                       (trigger\<lparr>triggerMeta := RemoveFinalizer (triggerMeta trigger) finalizerName\<rparr>);
                ret (resultOf u)
              }
              else ret (Inr noResult)
         else if \<not> ContainsFinalizer (triggerMeta trigger) finalizerName
         then do {
           u \<leftarrow> updateObj TriggerEv (triggers E)
                  (trigger\<lparr>triggerMeta := AddFinalizer (triggerMeta trigger) finalizerName\<rparr>);
           case u of
             Inl e \<Rightarrow> ret (Inl e)
           | Inr _ \<Rightarrow> do {
               g2 \<leftarrow> getObj TriggerEv (triggers E) req;
               case g2 of
                 Inl e \<Rightarrow> ret (Inl e)
               | Inr trigger2 \<Rightarrow> judgeTrigger E trigger2
             }
         }
         else judgeTrigger E trigger
   }"

section \<open>Lemmas\<close>

lemma validateTriggerSpec_iff:
  "validateTriggerSpec spec = [] \<longleftrightarrow>
     triggerWorkloadRef spec \<noteq> [] \<and> triggerType spec \<in> set validTriggerTypes \<and>
     (case triggerTenant spec of None \<Rightarrow> True | Some t \<Rightarrow> Static t \<noteq> [] \<or> From t \<noteq> [])"
  by (auto simp: validateTriggerSpec_def split: option.splits)

definition triggerGuard :: "event list \<Rightarrow> event \<Rightarrow> bool" where
  "triggerGuard pre e =
     (case e of
        TriggerEv (StatusEv t r) \<Rightarrow>
          if triggerPhase (triggerStatus t) = ''Active''
          then validateTriggerSpec (triggerSpec t) = [] \<and> triggerDetail (triggerStatus t) = [] \<and>
               (\<exists>wl. WorkloadEv (GetEv (nsName (Namespace (triggerMeta t))
                  (triggerWorkloadRef (triggerSpec t))) (Inr wl)) \<in> set pre)
          else triggerPhase (triggerStatus t) = ''Error''
      | _ \<Rightarrow> True)"

lemma triggerGuard_simps [simp]:
  "triggerGuard pre (TriggerEv (GetEv k r))" "triggerGuard pre (TriggerEv (UpdateEv t r))"
  "triggerGuard pre (WorkloadEv we)"
  by (simp_all add: triggerGuard_def)

lemma wp_judgeTrigger:
  assumes "guarded triggerGuard [] pre"
  shows "wp (judgeTrigger E t) (\<lambda>r tr'. guarded triggerGuard [] (drop (length tr) tr')) (tr @ pre)"
  using assms
  by (auto simp: judgeTrigger_def setTriggerStatus_def api_defs wp_simps Let_def
      triggerGuard_def [of _ "TriggerEv (StatusEv ts r)" for ts r] split: sum.split)

lemma wp_reconcileTrigger:
  "wp (reconcileTrigger E req) (\<lambda>r tr'. guarded triggerGuard [] (drop (length tr) tr')) tr"
  unfolding reconcileTrigger_def api_defs
  using wp_judgeTrigger [of "[a]" for a] wp_judgeTrigger [of "[a, b, c]" for a b c]
  by (auto simp: wp_simps split: sum.split)

section \<open>Properties\<close>

text \<open>
  A pass over a trigger makes it Active, with no detail, only when the specification it writes is valid
  and a Get in this pass returned the workload it refers to in its own namespace; the only other phase
  it writes is Error.
\<close>

theorem trigger_active_valid:
  "guarded triggerGuard [] (appended (reconcileTrigger E req) tr)"
  by (rule guarded_appendedI [OF wp_reconcileTrigger])

end
