(* ===== verification/Translated_Objects.thy ===== *)
theory Translated_Objects
  imports Translator
begin

text \<open>
  How the objects of one translation refer to each other: the mounts of the containers to the volumes of the pod, the
  ports of the Service to the ports of the main container, its selector to the labels of the pod, and the volume of
  the proxy to the ConfigMap.
\<close>

definition podContainers :: "Pod \<Rightarrow> Container list" where
  "podContainers p = InitContainers (podSpec p) @ Containers (podSpec p)"

definition mountedVolumes :: "Pod \<Rightarrow> string list" where
  "mountedVolumes p = concat (map (\<lambda>c. map mountName (VolumeMounts c)) (podContainers p))"

definition volumesFit :: "Pod \<Rightarrow> bool" where
  "volumesFit p \<longleftrightarrow> distinct (map ctrName (podContainers p)) \<and> distinct (map volName (Volumes (podSpec p))) \<and>
     set (mountedVolumes p) = set (map volName (Volumes (podSpec p)))"

text \<open>Port names are needed, and have to differ, when there are several ports.\<close>

definition serviceFits :: "Service \<Rightarrow> Pod \<Rightarrow> bool" where
  "serviceFits svc p \<longleftrightarrow> Namespace (svcMeta svc) = Namespace (podMeta p) \<and> svcSelector svc \<subseteq>\<^sub>m Labels (podMeta p) \<and>
     map svcTargetPort (svcPorts svc) = map ContainerPort (ctrPorts (hd (Containers (podSpec p)))) \<and>
     (length (svcPorts svc) \<le> 1 \<or> distinct (map svcPortName (svcPorts svc)) \<and> [] \<notin> set (map svcPortName (svcPorts svc)))"

definition configMapNames :: "Pod \<Rightarrow> string list" where
  "configMapNames p = concat (map (\<lambda>v. case volSource v of ConfigMapVolume n \<Rightarrow> [n] | _ \<Rightarrow> []) (Volumes (podSpec p)))"

definition configMapFits :: "ConfigMap option \<Rightarrow> TranslateOpts \<Rightarrow> Pod \<Rightarrow> bool" where
  "configMapFits cm opts p =
     (case (optProxyConfig opts, cm) of
        (None, None) \<Rightarrow> configMapNames p = []
      | (Some pc, Some m) \<Rightarrow> configMapNames p = [Name (cmMeta m)] \<and> Namespace (cmMeta m) = Namespace (podMeta p) \<and>
          cmData m ''envoy.yaml'' = Some (EnvoyYAML pc)
      | _ \<Rightarrow> False)"

definition specDirs :: "BoilerhouseWorkloadSpec \<Rightarrow> string list" where
  "specDirs spec = (case wlFilesystem spec of None \<Rightarrow> [] | Some fs \<Rightarrow> OverlayDirs fs)"

section \<open>The pod\<close>

lemma buildPod_shape:
  assumes "buildPod spec opts labels = Inr p"
  obtains c where "buildContainer spec opts = Inr c"
    "Containers (podSpec p) = [c\<lparr>VolumeMounts := overlayMounts (specDirs spec)\<rparr>]"
    "InitContainers (podSpec p) = []" "Volumes (podSpec p) = overlayVolumes (specDirs spec)"
proof -
  from assms obtain c where c: "buildContainer spec opts = Inr c" by (auto simp: buildPod_def split: sum.splits)
  with assms that [OF c] show thesis
    by (simp add: buildPod_def specDirs_def Let_def buildContainer_fields(5) [OF c])
      (metis Pod.select_convs(2) PodSpec.select_convs(1,2,3))
qed

lemma proxy_volume_new: "''proxy-config'' \<notin> set (map volName (overlayVolumes dirs))"
  by (simp only: names_overlayVolumes) (auto dest: sym)

lemma overlays_mounted: "mountName ` set (overlayMounts dirs) = volName ` set (overlayVolumes dirs)"
  by (metis list.set_map names_overlayMounts names_overlayVolumes)

lemma overlays_empty: "concat (map (\<lambda>v. case volSource v of ConfigMapVolume n \<Rightarrow> [n] | _ \<Rightarrow> []) (overlayVolumes dirs)) = []"
  by (auto simp: overlayVolumes_def)

text \<open>The pod without the proxy and with it.\<close>

lemma volumesFit_plain:
  assumes "Containers (podSpec p) = [c\<lparr>VolumeMounts := overlayMounts dirs\<rparr>]" "InitContainers (podSpec p) = []"
    "Volumes (podSpec p) = overlayVolumes dirs"
  shows "volumesFit p"
  by (simp add: volumesFit_def mountedVolumes_def podContainers_def assms distinct_overlayVolumes overlays_mounted)

lemma volumesFit_proxy:
  assumes "Containers (podSpec p) = [c\<lparr>VolumeMounts := overlayMounts dirs\<rparr>]" "InitContainers (podSpec p) = []"
    "Volumes (podSpec p) = overlayVolumes dirs" and "ctrName c = ''main''"
  shows "volumesFit (InjectSidecar p cm)"
  using proxy_volume_new [of dirs]
  by (auto simp: volumesFit_def mountedVolumes_def podContainers_def InjectSidecar_containers [OF assms(1)] assms(2-4)
      distinct_overlayVolumes trustCA_def envoyContainer_def initContainer_def overlays_mounted)

section \<open>The Service\<close>

lemma servicePort_names:
  "map svcPortName (map (\<lambda>(i, p). servicePort spec i p) (enumerate_from k ps)) =
     map (\<lambda>i. if length (exposedPorts spec) > 1 then ''port-'' @ Itoa (int i) else []) [k..<k + length ps]"
proof (induction ps arbitrary: k)
  case (Cons p ps)
  have "[k..<k + length (p # ps)] = k # [Suc k..<Suc k + length ps]"
    by (subst upt_conv_Cons) simp_all
  with Cons.IH [of "Suc k"] show ?case
    by (simp only: enumerate_from.simps list.map prod.case) (simp add: servicePort_def)
qed simp

lemma servicePort_targets:
  "map svcTargetPort (map (\<lambda>(i, p). servicePort spec i p) (enumerate_from k ps)) = map (wrap32 \<circ> Guest) ps"
  by (induction ps arbitrary: k) (simp_all add: servicePort_def)

lemma buildService_fits:
  assumes "map ContainerPort (ctrPorts (hd (Containers (podSpec p)))) = map (wrap32 \<circ> Guest) (exposedPorts spec)"
    and "Namespace (podMeta p) = optNamespace opts" and "Labels (podMeta p) = buildLabels opts"
  shows "serviceFits (buildService spec opts labels) p"
proof -
  have "length (svcPorts (buildService spec opts labels)) \<le> 1 \<or>
      distinct (map svcPortName (svcPorts (buildService spec opts labels))) \<and>
      [] \<notin> set (map svcPortName (svcPorts (buildService spec opts labels)))"
    unfolding buildService_def Service.select_convs servicePort_names
    by (auto simp: distinct_map inj_on_def)
  then show ?thesis
    using assms servicePort_targets [of spec 0 "exposedPorts spec"]
    by (simp add: serviceFits_def buildService_def objectMeta_def map_le_def)
qed

section \<open>The ConfigMap\<close>

lemma addCerts_yaml: "addCerts dcs data ''envoy.yaml'' = data ''envoy.yaml''"
proof -
  have "''envoy.yaml'' \<noteq> s @ ''.crt''" "''envoy.yaml'' \<noteq> s @ ''.key''" for s
    by (auto simp: append_eq_append_conv2 dest!: arg_cong [where f = rev])
  then show ?thesis
    by (induction dcs data rule: addCerts.induct) (simp_all add: fun_upd_def)
qed

lemma Translate_others:
  assumes "Translate spec opts = Inr r"
  shows "resService r = (if exposedPorts spec = [] then None else Some (buildService spec opts (buildLabels opts)))"
    "resConfigMap r = map_option (\<lambda>pc. buildProxyConfigMap opts pc (buildLabels opts) (''proxy-'' @ optInstanceId opts))
       (optProxyConfig opts)"
  using assms by (auto simp: Translate_def Let_def split: sum.splits option.splits)

section \<open>Properties\<close>

text \<open>
  C31. The objects of a translation fit together.  In the pod all containers and all volumes have different names, and the
  volumes mounted by some container are exactly those declared.  The mount paths of the main container are all
  different exactly when the overlay directories of the workload are, and with a proxy none of them is the path of the
  proxy's CA certificate (nothing checks either).  There is a Service exactly when the workload exposes a port: it
  selects the pod, targets the ports of the main container in their order, and names its ports apart when there are
  several.  There is a ConfigMap exactly with a proxy: it is the one the pod's only ConfigMap volume names, in the pod's
  namespace, and holds the proxy's configuration.
\<close>

theorem objects_fit:
  assumes "Translate spec opts = Inr r"
  shows "volumesFit (resPod r) \<and>
    (distinct (map MountPath (VolumeMounts (hd (Containers (podSpec (resPod r)))))) \<longleftrightarrow>
       distinct (specDirs spec) \<and> (optProxyConfig opts = None \<or> ''/etc/envoy/ca.crt'' \<notin> set (specDirs spec))) \<and>
    (case resService r of
       None \<Rightarrow> (case wlNetwork spec of None \<Rightarrow> True | Some n \<Rightarrow> Expose n = [])
     | Some svc \<Rightarrow> (case wlNetwork spec of None \<Rightarrow> False | Some n \<Rightarrow> Expose n \<noteq> []) \<and> serviceFits svc (resPod r)) \<and>
    configMapFits (resConfigMap r) opts (resPod r)"
proof -
  obtain p where p: "buildPod spec opts (buildLabels opts) = Inr p"
    and r: "resPod r = (if optProxyConfig opts = None then p else InjectSidecar p (''proxy-'' @ optInstanceId opts))"
    by (rule Translate_pod [OF assms])
  from p obtain c where c: "buildContainer spec opts = Inr c"
      and ctrs: "Containers (podSpec p) = [c\<lparr>VolumeMounts := overlayMounts (specDirs spec)\<rparr>]"
      and rest: "InitContainers (podSpec p) = []" "Volumes (podSpec p) = overlayVolumes (specDirs spec)"
    by (rule buildPod_shape)
  have vols: "volumesFit (resPod r)"
    using volumesFit_plain [OF ctrs rest] volumesFit_proxy [OF ctrs rest buildContainer_fields(1) [OF c]]
    by (simp add: r)
  have main: "ctrPorts (hd (Containers (podSpec (resPod r)))) = ctrPorts c"
      "map MountPath (VolumeMounts (hd (Containers (podSpec (resPod r))))) =
         specDirs spec @ (if optProxyConfig opts = None then [] else [''/etc/envoy/ca.crt''])"
    by (simp_all add: r ctrs InjectSidecar_containers [OF ctrs] paths_overlayMounts trustCA_def)
  have ns: "Namespace (podMeta p) = optNamespace opts"
    using Translate_identity(2) [OF assms] by (simp add: r split: if_splits)
  have "configMapFits (resConfigMap r) opts (resPod r)"
    by (auto simp: configMapFits_def configMapNames_def Translate_others(2) [OF assms] r rest overlays_empty
        buildProxyConfigMap_def objectMeta_def Let_def addCerts_yaml ns
        split: option.split)
  moreover have "serviceFits (buildService spec opts (buildLabels opts)) (resPod r)"
    by (rule buildService_fits)
      (simp_all add: main buildContainer_fields(6) [OF c] Translate_identity [OF assms])
  then have "case resService r of
       None \<Rightarrow> (case wlNetwork spec of None \<Rightarrow> True | Some n \<Rightarrow> Expose n = [])
     | Some svc \<Rightarrow> (case wlNetwork spec of None \<Rightarrow> False | Some n \<Rightarrow> Expose n \<noteq> []) \<and> serviceFits svc (resPod r)"
    by (auto simp: Translate_others(1) [OF assms] exposedPorts_def split: option.splits)
  ultimately show ?thesis using vols by (simp only: main(2)) auto
qed

theorem objects_fit_witness:
  "volumesFit (resPod (projr (Translate exampleSpec exampleOpts))) \<and>
   distinct (map MountPath (VolumeMounts (hd (Containers (podSpec (resPod (projr (Translate exampleSpec exampleOpts))))))))"
  using objects_fit [OF example_translates] by (simp add: exampleSpec_def exampleOpts_def specDirs_def zeroWorkloadSpec_def)

end
