(* ===== verification/Snapshot_Volume.thy ===== *)
theory Snapshot_Volume
  imports Snapshots
begin

text \<open>
  The snapshot manager over time: with a helper pod that runs its commands on a volume, the four operations of
  \<open>operator/snapshots.go\<close> are a store of one archive per tenant and workload.
\<close>

section \<open>The volume\<close>

text \<open>The commands that can change files of the volume: those that stream to the helper pod, and its \<open>rm\<close>.\<close>

definition touches :: "SnapshotManager \<Rightarrow> event \<Rightarrow> bool" where
  "touches s e = (case e of
      ExecEv args _ _ \<Rightarrow> take 4 args = [''kubectl'', ''exec'', ''-i'', snapshotHelperPodName] \<or>
        take 7 args = helperExec s [''rm'']
    | _ \<Rightarrow> False)"

definition rmArgs :: "SnapshotManager \<Rightarrow> string \<Rightarrow> string \<Rightarrow> string list" where
  "rmArgs s t w = helperExec s [''rm'', ''-f'', snapshotPath t w, snapshotSHAPath t w]"

text \<open>Names that neither end a path nor a command; label values, which tenants and workloads have to be, are such.\<close>

definition safeName :: "string \<Rightarrow> bool" where
  "safeName n \<longleftrightarrow> CHR ''/'' \<notin> set n \<and> CHR '';'' \<notin> set n"

text \<open>
  What is used of the shell and the commands in the helper pod, with \<open>vol tr\<close> the files after the history \<open>tr\<close>: a
  \<open>cat\<close> of a checksum file that succeeds printed the file; a write script that succeeds ran all of its steps, one that
  fails some first steps, in both cases on some input, which need not be what was sent; an \<open>rm\<close> changes no other files;
  and nothing else touches the volume.  A command may fail at any time, and of the archives nothing is assumed.
\<close>

definition servesVolume :: "env \<Rightarrow> SnapshotManager \<Rightarrow> (trace \<Rightarrow> (string \<rightharpoonup> string)) \<Rightarrow> bool" where
  "servesVolume E s vol \<longleftrightarrow>
     (\<forall>tr t w out err. run_cmd E tr (catArgs s (snapshotSHAPath t w)) [] = ExecOk out err \<longrightarrow>
        vol tr (snapshotSHAPath t w) = Some out) \<and>
     (\<forall>tr t w d out err. safeName t \<longrightarrow> safeName w \<longrightarrow>
        (\<exists>received. vol (tr @ [ExecEv (writeArgs E s t w d) d (ExecOk out err)]) =
           fsSteps (scriptSteps E t w d received) (vol tr))) \<and>
     (\<forall>tr t w d r. safeName t \<longrightarrow> safeName w \<longrightarrow> (\<exists>k received. vol (tr @ [ExecEv (writeArgs E s t w d) d r]) =
        fsSteps (take k (scriptSteps E t w d received)) (vol tr))) \<and>
     (\<forall>tr t w r path. safeName t \<longrightarrow> safeName w \<longrightarrow> path \<notin> {snapshotPath t w, snapshotSHAPath t w} \<longrightarrow>
        vol (tr @ [ExecEv (rmArgs s t w) [] r]) path = vol tr path) \<and>
     (\<forall>tr e. \<not> touches s e \<longrightarrow> vol (tr @ [e]) = vol tr)"

lemma vol_cat: "servesVolume E s vol \<Longrightarrow> run_cmd E tr (catArgs s (snapshotSHAPath t w)) [] = ExecOk out err \<Longrightarrow>
   vol tr (snapshotSHAPath t w) = Some out"
  unfolding servesVolume_def by (elim conjE) fast

lemma vol_written: "servesVolume E s vol \<Longrightarrow> safeName t \<Longrightarrow> safeName w \<Longrightarrow>
   \<exists>received. vol (tr @ [ExecEv (writeArgs E s t w d) d (ExecOk out err)]) = fsSteps (scriptSteps E t w d received) (vol tr)"
  unfolding servesVolume_def by (elim conjE) simp

lemma vol_write: "servesVolume E s vol \<Longrightarrow> safeName t \<Longrightarrow> safeName w \<Longrightarrow>
   \<exists>k received. vol (tr @ [ExecEv (writeArgs E s t w d) d r]) = fsSteps (take k (scriptSteps E t w d received)) (vol tr)"
  unfolding servesVolume_def by (elim conjE) simp

lemma vol_rm: "servesVolume E s vol \<Longrightarrow> safeName t \<Longrightarrow> safeName w \<Longrightarrow> path \<notin> {snapshotPath t w, snapshotSHAPath t w} \<Longrightarrow>
   vol (tr @ [ExecEv (rmArgs s t w) [] r]) path = vol tr path"
  unfolding servesVolume_def by (elim conjE) simp

lemma vol_untouched: "servesVolume E s vol \<Longrightarrow> \<not> touches s e \<Longrightarrow> vol (tr @ [e]) = vol tr"
  unfolding servesVolume_def by (elim conjE) simp

lemma vol_idle: "servesVolume E s vol \<Longrightarrow> list_all (\<lambda>e. \<not> touches s e) evs \<Longrightarrow> vol (tr @ evs) = vol tr"
proof (induction evs rule: rev_induct)
  case (snoc e evs)
  with vol_untouched [of E s vol e "tr @ evs"] show ?case by simp
qed simp

section \<open>Paths of other tenants and workloads\<close>

lemma last_slash:
  assumes "t @ ''/'' @ w = t' @ ''/'' @ w'" "safeName w" "safeName w'"
  shows "t = t' \<and> w = w'"
proof -
  have split: "takeWhile (\<lambda>c. c \<noteq> CHR ''/'') (rev (t @ ''/'' @ w)) = rev w" if "safeName w" for t w :: string
    using that by (simp add: takeWhile_append safeName_def)
  have "rev w = rev w'"
    using split [OF assms(2), of t] split [OF assms(3), of t'] by (simp only: assms(1))
  then have "w = w'" by simp
  with assms(1) show ?thesis by simp
qed

lemma snapshotPath_inj:
  "safeName w \<Longrightarrow> safeName w' \<Longrightarrow> snapshotPath t w = snapshotPath t' w' \<longleftrightarrow> t = t' \<and> w = w'"
  using last_slash [of t w t' w'] by (auto simp: snapshotPath_def)

lemma suffix_differs: "drop (length p - 4) p \<noteq> drop (length q - 4) q \<Longrightarrow> p \<noteq> q"
  by auto

lemma snapshotPath_suffixes:
  "snapshotPath t w \<noteq> snapshotSHAPath t' w'" "snapshotPath t w \<noteq> snapshotPath t' w' @ ''.tmp''"
  "snapshotPath t w \<noteq> snapshotSHAPath t' w' @ ''.tmp''" "snapshotSHAPath t w \<noteq> snapshotPath t' w'"
  "snapshotSHAPath t w \<noteq> snapshotPath t' w' @ ''.tmp''" "snapshotSHAPath t w \<noteq> snapshotSHAPath t' w' @ ''.tmp''"
proof -
  have rev: "rev p \<noteq> rev q \<Longrightarrow> p \<noteq> q" for p q :: string by simp
  show "snapshotPath t w \<noteq> snapshotSHAPath t' w'" "snapshotPath t w \<noteq> snapshotPath t' w' @ ''.tmp''"
    "snapshotPath t w \<noteq> snapshotSHAPath t' w' @ ''.tmp''" "snapshotSHAPath t w \<noteq> snapshotPath t' w'"
    "snapshotSHAPath t w \<noteq> snapshotPath t' w' @ ''.tmp''" "snapshotSHAPath t w \<noteq> snapshotSHAPath t' w' @ ''.tmp''"
    by (rule rev, simp add: snapshotPath_def snapshotSHAPath_def)+
qed

lemma snapshotSHAPath_inj: "snapshotSHAPath t w = snapshotSHAPath t' w' \<longleftrightarrow> snapshotPath t w = snapshotPath t' w'"
  by (simp add: snapshotSHAPath_def)

section \<open>What spares a snapshot\<close>

definition spares :: "env \<Rightarrow> SnapshotManager \<Rightarrow> string \<Rightarrow> string \<Rightarrow> event \<Rightarrow> bool" where
  "spares E s t w e \<longleftrightarrow> \<not> touches s e \<or>
     (\<exists>t' w' d r. (e = ExecEv (writeArgs E s t' w' d) d r \<or> e = ExecEv (rmArgs s t' w') [] r) \<and>
        safeName t' \<and> safeName w' \<and> (t', w') \<noteq> (t, w))"

text \<open>The checksum beside the archive of a tenant and workload is that of \<open>a\<close>.\<close>

definition recordedHash :: "env \<Rightarrow> string \<Rightarrow> string \<Rightarrow> string \<Rightarrow> (string \<rightharpoonup> string) \<Rightarrow> bool" where
  "recordedHash E t w a fs \<longleftrightarrow> fs (snapshotSHAPath t w) = Some (hashArchive E a)"

lemma fsStep_other:
  "(\<And>c. x \<noteq> WriteFile p c) \<Longrightarrow> (\<And>f. x \<noteq> Rename p f) \<Longrightarrow> (\<And>f. x \<noteq> Rename f p) \<Longrightarrow> fsStep x fs p = fs p"
  by (cases x) auto

lemma fsSteps_other:
  "(\<And>x. x \<in> set xs \<Longrightarrow> \<forall>fs. fsStep x fs p = fs p) \<Longrightarrow> fsSteps xs fs p = fs p"
  by (induction xs arbitrary: fs) simp_all

lemma script_other:
  assumes "safeName w" "safeName w'" "(t', w') \<noteq> (t, w)" "p \<in> {snapshotPath t w, snapshotSHAPath t w}"
  shows "fsSteps (take k (scriptSteps E t' w' d received)) fs p = fs p"
proof (rule fsSteps_other)
  fix x
  assume "x \<in> set (take k (scriptSteps E t' w' d received))"
  then have "x \<in> set (scriptSteps E t' w' d received)" by (rule in_set_takeD)
  with assms show "\<forall>fs. fsStep x fs p = fs p"
    by (auto simp: scriptSteps_def Let_def snapshotPath_suffixes snapshotSHAPath_inj snapshotPath_inj
        snapshotPath_suffixes [symmetric])
qed

lemma spared:
  assumes vol: "servesVolume E s vol" and w: "safeName w"
  shows "list_all (spares E s t w) evs \<Longrightarrow>
    recordedHash E t w a (vol (tr @ evs)) = recordedHash E t w a (vol tr)"
proof (induction evs rule: rev_induct)
  case (snoc e evs)
  have "vol ((tr @ evs) @ [e]) p = vol (tr @ evs) p" if p: "p \<in> {snapshotPath t w, snapshotSHAPath t w}" for p
  proof (cases "touches s e")
    case False
    show ?thesis by (simp only: vol_untouched [OF vol False])
  next
    case True
    with snoc.prems obtain t' w' d r where e: "e = ExecEv (writeArgs E s t' w' d) d r \<or> e = ExecEv (rmArgs s t' w') [] r"
      and safe: "safeName t'" "safeName w'" and other: "(t', w') \<noteq> (t, w)"
      by (auto simp: spares_def)
    from e show ?thesis
    proof
      assume e: "e = ExecEv (writeArgs E s t' w' d) d r"
      from vol_write [OF vol safe, of "tr @ evs" d r] script_other [OF w safe(2) other p] show ?thesis
        unfolding e by metis
    next
      assume e: "e = ExecEv (rmArgs s t' w') [] r"
      have notIn: "p \<notin> {snapshotPath t' w', snapshotSHAPath t' w'}"
        using p other safe(2) w by (auto simp: snapshotPath_suffixes snapshotSHAPath_inj snapshotPath_inj)
      show ?thesis unfolding e by (rule vol_rm [OF vol safe notIn])
    qed
  qed
  then have "recordedHash E t w a (vol ((tr @ evs) @ [e])) = recordedHash E t w a (vol (tr @ evs))"
    by (simp add: recordedHash_def)
  with snoc show ?case by simp
qed simp

section \<open>The operations\<close>

lemma touches_simps [simp]:
  "\<not> touches s (PodEv pe)" "\<not> touches s (PvcEv ve)"
  "\<not> touches s (ExecEv (catArgs s path) i r)" "\<not> touches s (ExecEv (tarArgs s p dirs) i r)"
  "\<not> touches s (ExecEv (helperExec s [''test'', x, path]) i r)"
  "touches s (ExecEv (injectArgs s p) i r) \<longleftrightarrow> p = snapshotHelperPodName"
  by (simp_all add: touches_def catArgs_def tarArgs_def helperExec_def injectArgs_def snapshotHelperPodName_def)

definition idle :: "SnapshotManager \<Rightarrow> event \<Rightarrow> bool" where
  "idle s e \<longleftrightarrow> \<not> touches s e \<and> (\<forall>p. notInject s p e)"

lemma emits_ensure_idle: "emits (idle s) (ensureHelperPod E s)"
  by (auto simp: ensureHelperPod_def ensureSnapshotsPVC_def createHelperPod_def api_defs idle_def
      intro!: emits_intros)

lemma idle_list: "list_all (idle s) evs \<Longrightarrow> list_all (\<lambda>e. \<not> touches s e) evs \<and> ExecEv (injectArgs s p) x r \<notin> set evs"
  using notInject_list [of s p evs x r] by (auto simp: list_all_iff idle_def)

lemma injectArgs_inj [simp]: "injectArgs s p = injectArgs s q \<longleftrightarrow> p = q"
  by (simp add: injectArgs_def)

lemma wp_read_volume:
  assumes vol: "servesVolume E s vol"
    and "\<And>e evs. list_all (idle s) evs \<Longrightarrow> Q (Inl e) (tr @ evs)"
    and "\<And>out err evs. list_all (idle s) evs \<Longrightarrow> ExecEv (catArgs s path) [] (ExecOk out err) \<in> set evs \<Longrightarrow>
      (\<And>t w. path = snapshotSHAPath t w \<Longrightarrow> vol tr path = Some out) \<Longrightarrow> Q (Inr out) (tr @ evs)"
  shows "wp (readFromSnapshotsPVC E s path) Q tr"
  unfolding readFromSnapshotsPVC_def wp_bind catArgs_def [symmetric]
proof (rule emits_wpI [OF emits_ensure_idle])
  fix h evs
  assume evs: "list_all (idle s) evs"
  let ?r = "run_cmd E (tr @ evs) (catArgs s path) []"
  have all: "list_all (idle s) (evs @ [ExecEv (catArgs s path) [] r])" for r
    using evs by (simp add: idle_def)
  have printed: "Q (Inr out) (tr @ evs @ [ExecEv (catArgs s path) [] (ExecOk out err)])" if "?r = ExecOk out err" for out err
  proof (rule assms(3) [OF all, where err = err])
    show "vol tr path = Some out" if "path = snapshotSHAPath t w" for t w
      using vol_cat [OF vol, of "tr @ evs" t w out err] \<open>?r = ExecOk out err\<close> vol_idle [OF vol, of evs tr] idle_list [OF evs] that
      by simp
  qed simp
  with assms(2) [OF evs] assms(2) [OF all] show "wp (case h of
      Some e \<Rightarrow> ret (Inl (wrapf ''ensuring helper pod'' e))
    | None \<Rightarrow> execCmd E (catArgs s path) [] \<bind> (\<lambda>r. case r of
          ExecOk out errOut \<Rightarrow> ret (Inr out)
        | _ \<Rightarrow> ret (Inl (the (runError (''reading '' @ path) r))))) Q (tr @ evs)"
    by (auto simp: wp_simps execCmd_def split: option.split exec_result.split)
qed

lemma script_records: "recordedHash E t w a (fsSteps (scriptSteps E t w a received) fs)"
  using fsSteps_prefixes [of 5 E t w a received fs]
  by (simp add: recordedHash_def scriptSteps_def Let_def)

lemma wp_extract_records:
  assumes vol: "servesVolume E s vol"
    and tar: "run_cmd E tr (tarArgs s p dirs) [] = ExecOk a out" "a \<noteq> []" "dirs \<noteq> []"
    and safe: "safeName t" "safeName w"
  shows "wp (smExtractAndStore E s p t w dirs) (\<lambda>r tr'. r = None \<longrightarrow> recordedHash E t w a (vol tr')) tr"
proof -
  have "wp (writeToSnapshotsPVC E s t w a) (\<lambda>r tr'. r = None \<longrightarrow> recordedHash E t w a (vol tr')) tr'" for tr'
    unfolding writeToSnapshotsPVC_def wp_bind
  proof (rule emits_wpI [OF emits_ensure_idle])
    fix h evs
    have "recordedHash E t w a (vol (tr' @ evs @ [ExecEv (writeArgs E s t w a) a (ExecOk x y)]))" for x y
      using vol_written [OF vol safe, of "tr' @ evs" a x y] script_records by auto
    then show "wp (case h of
        Some e \<Rightarrow> ret (Some (wrapf ''ensuring helper pod'' e))
      | None \<Rightarrow> execCmd E (writeArgs E s t w a) a \<bind>
          (\<lambda>r. ret (runError (''writing snapshot '' @ snapshotPath t w) r)))
      (\<lambda>r tr'. r = None \<longrightarrow> recordedHash E t w a (vol tr')) (tr' @ evs)"
      by (auto simp: wp_simps execCmd_def runError_def split: option.split exec_result.split)
  qed
  with tar show ?thesis by (simp add: smExtractAndStore_def execCmd_def wp_simps)
qed

text \<open>An archive with the checksum of \<open>a\<close> was extracted in the pod; the read of the archive printed nothing.\<close>

definition sentInto :: "env \<Rightarrow> SnapshotManager \<Rightarrow> string \<Rightarrow> string \<Rightarrow> event list \<Rightarrow> bool" where
  "sentInto E s p a evs \<longleftrightarrow>
     (\<exists>x out err. ExecEv (injectArgs s p) x (ExecOk out err) \<in> set evs \<and> hashArchive E x = hashArchive E a)"

definition readNothing :: "SnapshotManager \<Rightarrow> string \<Rightarrow> string \<Rightarrow> event list \<Rightarrow> bool" where
  "readNothing s t w evs \<longleftrightarrow> (\<exists>err. ExecEv (catArgs s (snapshotPath t w)) [] (ExecOk [] err) \<in> set evs)"

lemma sentInto_mono: "sentInto E s p a xs \<Longrightarrow> set xs \<subseteq> set ys \<Longrightarrow> sentInto E s p a ys"
  unfolding sentInto_def by blast

lemma readNothing_mono: "readNothing s t w xs \<Longrightarrow> set xs \<subseteq> set ys \<Longrightarrow> readNothing s t w ys"
  unfolding readNothing_def by blast

lemma wp_inject_recorded:
  assumes vol: "servesVolume E s vol" and recorded: "recordedHash E t w a (vol tr)"
  shows "wp (smInjectSnapshot E s p t w) (\<lambda>r tr'. \<exists>evs. tr' = tr @ evs \<and>
      (\<forall>q x r. ExecEv (injectArgs s q) x r \<in> set evs \<longrightarrow> q = p \<and> hashArchive E x = hashArchive E a) \<and>
      (r = None \<longrightarrow> sentInto E s p a evs \<or> readNothing s t w evs)) tr"
    (is "wp _ ?Q tr")
proof -
  have none: "ExecEv (injectArgs s q) x r \<notin> set evs" if "list_all (idle s) evs" for q x r evs
    using idle_list [OF that] by simp
  have failed: "?Q (Some e) (tr @ evs)" if "list_all (idle s) evs" for e evs
    using none [OF that] by auto
  have verified: "wp (case verifyArchive E archive sha of
       Some e \<Rightarrow> ret (Some (wrapf m e))
     | None \<Rightarrow> execCmd E (injectArgs s p) archive \<bind> (\<lambda>r. ret (runError m' r))) ?Q (tr @ evs)"
    if evs: "list_all (idle s) evs" and sha: "TrimSpace sha = hashArchive E a" for archive sha m m' evs
  proof (cases "verifyArchive E archive sha")
    case None
    then have same: "hashArchive E archive = hashArchive E a" by (simp add: verifyArchive_ok sha)
    have "?Q (runError m' r) (tr @ evs @ [ExecEv (injectArgs s p) archive r])" for r
      using same none [OF evs] by (cases r) (auto simp: runError_def sentInto_def)
    with None show ?thesis by (simp add: wp_simps execCmd_def)
  next
    case (Some e)
    with failed [OF evs] show ?thesis by (simp add: wp_simps)
  qed
  show ?thesis
    unfolding smInjectSnapshot_def readSnapshotChecksum_def wp_bind
  proof (rule wp_read_volume [OF vol])
    fix e evs
    assume "list_all (idle s) evs"
    then show "wp (case Inl e of Inl e \<Rightarrow> ret (Some (wrapf ''read snapshot'' e)) | Inr archive \<Rightarrow>
         if archive = [] then ret None
         else (readFromSnapshotsPVC E s (snapshotSHAPath t w) \<bind> (\<lambda>r. case r of
             Inl e \<Rightarrow> ret (Inl e) | Inr raw \<Rightarrow> ret (Inr (TrimSpace raw)))) \<bind> (\<lambda>c. case c of
             Inl e \<Rightarrow> ret (Some (wrapf ''read snapshot checksum'' e))
           | Inr sha \<Rightarrow> (case verifyArchive E archive sha of
                  Some e \<Rightarrow> ret (Some (wrapf (''snapshot '' @ snapshotPath t w) e))
                | None \<Rightarrow> execCmd E (injectArgs s p) archive \<bind>
                    (\<lambda>r. ret (runError (''inject snapshot into pod '' @ p) r))))) ?Q (tr @ evs)"
      using failed by (simp add: wp_simps)
  next
    fix archive err evs
    assume evs: "list_all (idle s) evs" and read: "ExecEv (catArgs s (snapshotPath t w)) [] (ExecOk archive err) \<in> set evs"
    have "?Q None (tr @ evs)" if "archive = []"
      using none [OF evs] read that by (auto simp: readNothing_def)
    moreover have "wp (readFromSnapshotsPVC E s (snapshotSHAPath t w)) (\<lambda>a. wp ((case a of
          Inl e \<Rightarrow> ret (Inl e) | Inr raw \<Rightarrow> ret (Inr (TrimSpace raw))) \<bind> (\<lambda>c. case c of
             Inl e \<Rightarrow> ret (Some (wrapf ''read snapshot checksum'' e))
           | Inr sha \<Rightarrow> (case verifyArchive E archive sha of
                  Some e \<Rightarrow> ret (Some (wrapf (''snapshot '' @ snapshotPath t w) e))
                | None \<Rightarrow> execCmd E (injectArgs s p) archive \<bind>
                    (\<lambda>r. ret (runError (''inject snapshot into pod '' @ p) r))))) ?Q) (tr @ evs)"
    proof (rule wp_read_volume [OF vol])
      fix raw err' evs'
      assume evs': "list_all (idle s) evs'"
        and "\<And>t' w'. snapshotSHAPath t w = snapshotSHAPath t' w' \<Longrightarrow> vol (tr @ evs) (snapshotSHAPath t w) = Some raw"
      then have "vol (tr @ evs) (snapshotSHAPath t w) = Some raw" by simp
      then have "TrimSpace (TrimSpace raw) = hashArchive E a"
        using recorded vol_idle [OF vol, of evs tr] idle_list [OF evs] by (simp add: recordedHash_def)
      from verified [of "evs @ evs'", OF _ this] evs evs'
      show "wp ((case Inr raw of Inl e \<Rightarrow> ret (Inl e) | Inr raw \<Rightarrow> ret (Inr (TrimSpace raw))) \<bind> (\<lambda>c. case c of
             Inl e \<Rightarrow> ret (Some (wrapf ''read snapshot checksum'' e))
           | Inr sha \<Rightarrow> (case verifyArchive E archive sha of
                  Some e \<Rightarrow> ret (Some (wrapf (''snapshot '' @ snapshotPath t w) e))
                | None \<Rightarrow> execCmd E (injectArgs s p) archive \<bind>
                    (\<lambda>r. ret (runError (''inject snapshot into pod '' @ p) r))))) ?Q ((tr @ evs) @ evs')"
        by (simp add: wp_bind wp_ret)
    qed (use failed [of "evs @ x" for x] evs in \<open>auto simp: wp_bind wp_ret\<close>)
    ultimately show "wp (case Inr archive of Inl e \<Rightarrow> ret (Some (wrapf ''read snapshot'' e)) | Inr archive \<Rightarrow>
         if archive = [] then ret None
         else (readFromSnapshotsPVC E s (snapshotSHAPath t w) \<bind> (\<lambda>r. case r of
             Inl e \<Rightarrow> ret (Inl e) | Inr raw \<Rightarrow> ret (Inr (TrimSpace raw)))) \<bind> (\<lambda>c. case c of
             Inl e \<Rightarrow> ret (Some (wrapf ''read snapshot checksum'' e))
           | Inr sha \<Rightarrow> (case verifyArchive E archive sha of
                  Some e \<Rightarrow> ret (Some (wrapf (''snapshot '' @ snapshotPath t w) e))
                | None \<Rightarrow> execCmd E (injectArgs s p) archive \<bind>
                    (\<lambda>r. ret (runError (''inject snapshot into pod '' @ p) r))))) ?Q (tr @ evs)"
      by (simp add: wp_bind wp_ret)
  qed
qed

text \<open>The operations for other tenants and workloads spare the snapshot, and so does any that only reads.\<close>

lemma spares_untouched: "\<not> touches s e \<Longrightarrow> spares E s t w e"
  by (simp add: spares_def)

lemma emits_ensure_spares: "emits (spares E s t w) (ensureHelperPod E s)"
  by (rule emits_mono [OF emits_ensure_idle]) (auto simp: idle_def spares_untouched)

lemma emits_read_spares: "emits (spares E s t w) (readFromSnapshotsPVC E s path)"
  unfolding readFromSnapshotsPVC_def execCmd_def catArgs_def [symmetric]
  by (intro emits_intros emits_ensure_spares emits_case_exec) (auto simp: spares_untouched)

lemma emits_has_spares: "emits (spares E s t w) (smHasSnapshot E s t' w')"
  unfolding smHasSnapshot_def fileExistsInPVC_def execCmd_def
  by (intro emits_intros emits_ensure_spares emits_case_exec) (auto simp: spares_untouched)

lemma emits_inject_spares:
  "p \<noteq> snapshotHelperPodName \<Longrightarrow> emits (spares E s t w) (smInjectSnapshot E s p t' w')"
  unfolding smInjectSnapshot_def readSnapshotChecksum_def execCmd_def
  by (intro emits_intros emits_read_spares emits_case_exec) (auto simp: spares_untouched)

lemma emits_extract_spares:
  assumes "safeName t'" "safeName w'" "(t', w') \<noteq> (t, w)"
  shows "emits (spares E s t w) (smExtractAndStore E s p t' w' dirs)"
proof -
  have "spares E s t w (ExecEv (writeArgs E s t' w' d) d r)" for d r
    using assms by (auto simp: spares_def)
  then show ?thesis
    unfolding smExtractAndStore_def writeToSnapshotsPVC_def execCmd_def
    by (intro emits_intros emits_ensure_spares emits_case_exec) (auto simp: spares_untouched)
qed

lemma emits_delete_spares:
  assumes "safeName t'" "safeName w'" "(t', w') \<noteq> (t, w)"
  shows "emits (spares E s t w) (smDeleteSnapshot E s t' w')"
proof -
  have "spares E s t w (ExecEv (rmArgs s t' w') [] r)" for r
    using assms by (auto simp: spares_def)
  then show ?thesis
    unfolding smDeleteSnapshot_def execCmd_def rmArgs_def [symmetric]
    by (intro emits_intros emits_ensure_spares emits_case_exec) auto
qed

section \<open>Properties\<close>

text \<open>
  A stored snapshot comes back: when an extraction of a pod's overlay returned no error, then after any history in
  which the other operations on the volume were for other tenants or workloads, an injection streams
  nothing but archives with the checksum of the one that was extracted, into whatever pod of the tenant and workload, and
  when it returns no error it has streamed one and \<open>tar\<close> succeeded, or the read of the archive printed nothing.
  Extractions and deletions for other names are such operations, and so are the reads, whether they succeed or not.
\<close>

theorem snapshot_comes_back:
  assumes "servesVolume E s vol" and "safeName t" "safeName w"
    and "run_cmd E tr (tarArgs s p dirs) [] = ExecOk a out" "a \<noteq> []" "dirs \<noteq> []"
    and "result (smExtractAndStore E s p t w dirs) tr = None"
    and "list_all (spares E s t w) evs"
    and "later = tr @ appended (smExtractAndStore E s p t w dirs) tr @ evs"
  shows "list_all (\<lambda>e. case e of ExecEv args x r \<Rightarrow> args = injectArgs s q \<longrightarrow> hashArchive E x = hashArchive E a | _ \<Rightarrow> True)
      (appended (smInjectSnapshot E s q t w) later) \<and>
    (result (smInjectSnapshot E s q t w) later = None \<longrightarrow>
       sentInto E s q a (appended (smInjectSnapshot E s q t w) later) \<or>
       readNothing s t w (appended (smInjectSnapshot E s q t w) later)) \<and>
    (safeName t' \<longrightarrow> safeName w' \<longrightarrow> (t', w') \<noteq> (t, w) \<longrightarrow>
       emits (spares E s t w) (smExtractAndStore E s p' t' w' dirs') \<and>
       emits (spares E s t w) (smDeleteSnapshot E s t' w')) \<and>
    emits (spares E s t w) (smHasSnapshot E s t w) \<and>
    (q \<noteq> snapshotHelperPodName \<longrightarrow> emits (spares E s t w) (smInjectSnapshot E s q t w))"
proof -
  let ?stored = "tr @ appended (smExtractAndStore E s p t w dirs) tr"
  have "snd (run_state (smExtractAndStore E s p t w dirs) tr) = ?stored"
    by (rule emits_extends [OF emits_extract_spares [OF assms(2,3), of "CHR ''x'' # t" w]]) simp
  then have "recordedHash E t w a (vol ?stored)"
    using wp_extract_records [OF assms(1,4-6,2,3)] assms(7) by (simp add: wp_def result_def case_prod_beta)
  with spared [OF assms(1,3,8), of a ?stored] have "recordedHash E t w a (vol later)"
    by (simp add: assms(9))
  from wp_inject_recorded [OF assms(1) this, of q]
  obtain es where run: "snd (run_state (smInjectSnapshot E s q t w) later) = later @ es"
    and only: "\<forall>p x r. ExecEv (injectArgs s p) x r \<in> set es \<longrightarrow> p = q \<and> hashArchive E x = hashArchive E a"
    and sent: "result (smInjectSnapshot E s q t w) later = None \<longrightarrow> sentInto E s q a es \<or> readNothing s t w es"
    unfolding wp_def case_prod_beta result_def [symmetric] by (elim exE conjE) (rule that, assumption+)
  from run have es: "appended (smInjectSnapshot E s q t w) later = es" by (simp add: appended_def)
  have "list_all (\<lambda>e. case e of ExecEv args x r \<Rightarrow> args = injectArgs s q \<longrightarrow> hashArchive E x = hashArchive E a | _ \<Rightarrow> True) es"
    unfolding list_all_iff by (intro ballI) (use only in \<open>simp split: event.split, blast\<close>)
  with sent show ?thesis
    by (simp add: es emits_extract_spares emits_delete_spares emits_has_spares emits_inject_spares)
qed

text \<open>A cluster whose helper pod works, for the tenant \<open>t\<close> and the workload \<open>w\<close>.\<close>

definition scriptTarget :: "string \<Rightarrow> string \<times> string" where
  "scriptTarget script =
     (let rest = drop (length ''set -e; mkdir -p /snapshots/'') script;
          t = takeWhile (\<lambda>c. c \<noteq> CHR '';'') rest;
          path = takeWhile (\<lambda>c. c \<noteq> CHR '';'') (drop (length t + length ''; cat > /snapshots/'' + length t + 1) rest)
      in (t, take (length path - length ''.tar.gz.tmp'') path))"

lemma scriptTarget_parts:
  assumes "\<forall>c\<in>set t. c \<noteq> CHR '';''" "\<forall>c\<in>set f. c \<noteq> CHR '';''"
  shows "takeWhile (\<lambda>c. c \<noteq> CHR '';'') (t @ CHR '';'' # b @ t @ x # f @ CHR '';'' # z) = t"
    "takeWhile (\<lambda>c. c \<noteq> CHR '';'') (drop (length t + length (CHR '';'' # b) + length t + 1)
       (t @ CHR '';'' # b @ t @ x # f @ CHR '';'' # z)) = f"
  using assms by (simp_all add: takeWhile_append2)

lemma scriptTarget_writeScript:
  assumes "safeName t" "safeName w"
  shows "scriptTarget (writeScript E t w d) = (t, w)"
proof -
  obtain z where script: "writeScript E t w d = ''set -e; mkdir -p /snapshots/'' @
      (t @ CHR '';'' # '' cat > /snapshots/'' @ t @ CHR ''/'' # (w @ ''.tar.gz.tmp'') @ CHR '';'' # z)"
    by (simp add: writeScript_def snapshotPath_def Let_def)
  have "\<forall>c\<in>set t. c \<noteq> CHR '';''" "\<forall>c\<in>set (w @ ''.tar.gz.tmp''). c \<noteq> CHR '';''"
    using assms by (auto simp: safeName_def)
  note parts = scriptTarget_parts [OF this, of "'' cat > /snapshots/''" "CHR ''/''" z]
  have "drop (length ''set -e; mkdir -p /snapshots/'') (''set -e; mkdir -p /snapshots/'' @ r) = r" for r
    by (simp only: append_eq_conv_conj [THEN iffD1, THEN conjunct2, symmetric])
  then show ?thesis
    unfolding scriptTarget_def script Let_def by (simp only: parts) simp
qed

definition hashEnv :: env where
  "hashEnv = offlineEnv\<lparr>sha256 := \<lambda>d. CHR ''h'' # d\<rparr>"

definition runWrite :: "SnapshotManager \<Rightarrow> event \<Rightarrow> (string \<rightharpoonup> string) \<Rightarrow> (string \<rightharpoonup> string)" where
  "runWrite s e fs = (case e of
      ExecEv args d (ExecOk _ _) \<Rightarrow>
        let (t, w) = scriptTarget (last args)
        in if safeName t \<and> safeName w \<and> args = writeArgs hashEnv s t w d
           then fsSteps (scriptSteps hashEnv t w d d) fs else fs
    | _ \<Rightarrow> fs)"

definition demoVolume :: "SnapshotManager \<Rightarrow> trace \<Rightarrow> (string \<rightharpoonup> string)" where
  "demoVolume s tr = fold (runWrite s) tr Map.empty"

definition demoManager :: SnapshotManager where
  "demoManager = NewSnapshotManager ''ns''"

definition helperEnv :: env where
  "helperEnv = hashEnv\<lparr>
     pods := offlineKind\<lparr>k_get := \<lambda>_ k. if k = helperKey ''ns''
       then Inr ((helperPod demoManager)\<lparr>podStatus := newPodStatus\<lparr>podPhase := ''Running''\<rparr>\<rparr>) else Inl offline\<rparr>,
     pvcs := offlineKind\<lparr>k_get := \<lambda>_ _. Inr (snapshotsPVC demoManager)\<rparr>,
     run_cmd := \<lambda>tr args stdin.
       if take 7 args = helperExec demoManager [''cat'']
       then (case demoVolume demoManager tr (last args) of Some c \<Rightarrow> ExecOk c [] | None \<Rightarrow> ExecExit 1 [] ''No such file'')
       else if take 2 (drop 6 args) = [''tar'', ''czf''] then ExecOk ''overlay'' [] else ExecOk [] []\<rparr>"

lemma runWrite_written:
  "safeName t \<Longrightarrow> safeName w \<Longrightarrow>
   runWrite s (ExecEv (writeArgs hashEnv s t w d) d (ExecOk a b)) fs = fsSteps (scriptSteps hashEnv t w d d) fs"
  by (simp add: runWrite_def writeArgs_def scriptTarget_writeScript)

lemma runWrite_untouched: "\<not> touches s e \<Longrightarrow> runWrite s e fs = fs"
  by (auto simp: runWrite_def touches_def writeArgs_def split: event.split exec_result.split prod.split)

lemma helperEnv_same:
  "hashArchive helperEnv = hashArchive hashEnv" "scriptSteps helperEnv = scriptSteps hashEnv"
  "writeArgs helperEnv = writeArgs hashEnv"
  by (simp_all add: fun_eq_iff hashArchive_def helperEnv_def scriptSteps_def writeArgs_def writeScript_def)

lemma helperEnv_serves: "servesVolume helperEnv demoManager (demoVolume demoManager)"
proof -
  have snoc: "demoVolume demoManager (tr @ [e]) = runWrite demoManager e (demoVolume demoManager tr)" for tr e
    by (simp add: demoVolume_def)
  have rm: "runWrite demoManager (ExecEv (rmArgs demoManager t w) [] r) fs = fs" for t w r fs
    by (auto simp: runWrite_def rmArgs_def helperExec_def writeArgs_def split: exec_result.split)
  have writes: "\<exists>k received. runWrite demoManager (ExecEv (writeArgs hashEnv demoManager t w d) d r) fs =
      fsSteps (take k (scriptSteps hashEnv t w d received)) fs" if "safeName t" "safeName w" for t w d r fs
  proof (cases r)
    case (ExecOk a b)
    with runWrite_written [OF that] show ?thesis
      by (intro exI [of _ 5] exI [of _ d]) (simp add: scriptSteps_def Let_def)
  qed (auto simp: runWrite_def intro: exI [of _ 0])
  have whole: "\<exists>received. runWrite demoManager (ExecEv (writeArgs hashEnv demoManager t w d) d (ExecOk a b)) fs =
      fsSteps (scriptSteps hashEnv t w d received) fs" if "safeName t" "safeName w" for t w d a b fs
    using runWrite_written [OF that] by blast
  show ?thesis
    unfolding servesVolume_def snoc helperEnv_same
    by (intro conjI allI impI writes whole)
      (auto simp: runWrite_untouched rm runWrite_written helperEnv_def catArgs_def helperExec_def split: option.splits)
qed

lemma helperEnv_hash: "hashArchive helperEnv d \<noteq> []"
  by (simp add: hashArchive_def helperEnv_def hashEnv_def hexEncode_def hexByte_def)

lemma helperEnv_tar: "run_cmd helperEnv tr (tarArgs demoManager p dirs) [] = ExecOk ''overlay'' []"
  by (simp add: helperEnv_def tarArgs_def helperExec_def)

text \<open>The helper pod runs, so looking after it is two reads; the write then succeeds, and the reads find both files.\<close>

definition helperChecks :: "event list" where
  "helperChecks = [PvcEv (GetEv (nsName ''ns'' snapshotsPVCName) (Inr (snapshotsPVC demoManager))),
     PodEv (GetEv (helperKey ''ns'') (Inr ((helperPod demoManager)\<lparr>podStatus := newPodStatus\<lparr>podPhase := ''Running''\<rparr>\<rparr>)))]"

lemma helperEnv_ensure: "run_state (ensureHelperPod helperEnv demoManager) tr = (None, tr @ helperChecks)"
  by (simp add: ensureHelperPod_def ensureSnapshotsPVC_def api_defs helperEnv_def demoManager_def
      NewSnapshotManager_def helperChecks_def)

lemma helperEnv_commands:
  "run_cmd helperEnv tr (writeArgs E demoManager t w d) i = ExecOk [] []"
  "run_cmd helperEnv tr (injectArgs demoManager q) i = ExecOk [] []"
  "demoVolume demoManager tr path = Some c \<Longrightarrow> run_cmd helperEnv tr (catArgs demoManager path) i = ExecOk c []"
  by (simp_all add: helperEnv_def writeArgs_def injectArgs_def tarArgs_def catArgs_def helperExec_def
      snapshotHelperPodName_def)

lemma helperEnv_extract:
  "run_state (smExtractAndStore helperEnv demoManager ''p'' ''t'' ''w'' [''/data'']) [] = (None,
     [ExecEv (tarArgs demoManager ''p'' [''/data'']) [] (ExecOk ''overlay'' [])] @ helperChecks @
     [ExecEv (writeArgs helperEnv demoManager ''t'' ''w'' ''overlay'') ''overlay'' (ExecOk [] [])])"
  by (simp add: smExtractAndStore_def writeToSnapshotsPVC_def execCmd_def helperEnv_ensure helperEnv_commands
      helperEnv_tar runError_def)

definition storedTrace :: trace where
  "storedTrace = appended (smExtractAndStore helperEnv demoManager ''p'' ''t'' ''w'' [''/data'']) []"

lemma storedTrace_eq: "storedTrace = (ExecEv (tarArgs demoManager ''p'' [''/data'']) [] (ExecOk ''overlay'' []) # helperChecks) @
    [ExecEv (writeArgs helperEnv demoManager ''t'' ''w'' ''overlay'') ''overlay'' (ExecOk [] [])]"
  by (simp add: storedTrace_def appended_def helperEnv_extract)

lemma storedTrace_files:
  assumes "list_all (\<lambda>e. \<not> touches demoManager e) evs"
  shows "demoVolume demoManager (storedTrace @ evs) (snapshotPath ''t'' ''w'') = Some ''overlay''"
    "demoVolume demoManager (storedTrace @ evs) (snapshotSHAPath ''t'' ''w'') = Some (hashArchive helperEnv ''overlay'')"
proof -
  have safe: "safeName ''t''" "safeName ''w''" by (simp_all add: safeName_def)
  have "demoVolume demoManager (storedTrace @ evs) = fsSteps (scriptSteps helperEnv ''t'' ''w'' ''overlay'' ''overlay'')
      (demoVolume demoManager (ExecEv (tarArgs demoManager ''p'' [''/data'']) [] (ExecOk ''overlay'' []) # helperChecks))"
    unfolding vol_idle [OF helperEnv_serves assms] storedTrace_eq
    by (simp add: demoVolume_def helperEnv_same runWrite_written [OF safe])
  moreover have "scriptSteps helperEnv t w d d = take 5 (scriptSteps helperEnv t w d d)" for t w d
    by (simp add: scriptSteps_def Let_def)
  ultimately show "demoVolume demoManager (storedTrace @ evs) (snapshotPath ''t'' ''w'') = Some ''overlay''"
    "demoVolume demoManager (storedTrace @ evs) (snapshotSHAPath ''t'' ''w'') = Some (hashArchive helperEnv ''overlay'')"
    using fsSteps_prefixes [of 5 helperEnv "''t''" "''w''" "''overlay''" "''overlay''"] by simp_all
qed

lemma helperEnv_runs:
  "result (smExtractAndStore helperEnv demoManager ''p'' ''t'' ''w'' [''/data'']) [] = None"
  "result (smInjectSnapshot helperEnv demoManager ''q'' ''t'' ''w'') storedTrace = None"
proof -
  show "result (smExtractAndStore helperEnv demoManager ''p'' ''t'' ''w'' [''/data'']) [] = None"
    by (simp add: result_def helperEnv_extract)
  have idle: "list_all (\<lambda>e. \<not> touches demoManager e) helperChecks" by (simp add: helperChecks_def)
  have read: "run_state (readFromSnapshotsPVC helperEnv demoManager path) tr =
      (Inr c, tr @ helperChecks @ [ExecEv (catArgs demoManager path) [] (ExecOk c [])])"
    if "demoVolume demoManager (tr @ helperChecks) path = Some c" for path c tr
    using that by (simp add: readFromSnapshotsPVC_def catArgs_def [symmetric] helperEnv_ensure execCmd_def helperEnv_commands)
  have "verifyArchive helperEnv ''overlay'' (TrimSpace (hashArchive helperEnv ''overlay'')) = None"
    by (simp add: verifyArchive_ok helperEnv_hash)
  then show "result (smInjectSnapshot helperEnv demoManager ''q'' ''t'' ''w'') storedTrace = None"
    using idle
    by (simp add: result_def smInjectSnapshot_def readSnapshotChecksum_def read storedTrace_files execCmd_def
        helperEnv_commands runError_def)
qed

theorem snapshot_comes_back_witness:
  "sentInto helperEnv demoManager ''q'' ''overlay'' (appended (smInjectSnapshot helperEnv demoManager ''q'' ''t'' ''w'') storedTrace) \<or>
   readNothing demoManager ''t'' ''w'' (appended (smInjectSnapshot helperEnv demoManager ''q'' ''t'' ''w'') storedTrace)"
  using snapshot_comes_back [OF helperEnv_serves, where t = "''t''" and w = "''w''" and tr = "[]" and p = "''p''" and
      q = "''q''" and dirs = "[''/data'']" and a = "''overlay''" and out = "[]" and evs = "[]" and t' = "''t''" and w' = "''w''"]
    helperEnv_runs
  by (simp add: safeName_def helperEnv_tar storedTrace_def)

end
