(* ===== verification/Hibernation.thy ===== *)
theory Hibernation
  imports Claim_Release Snapshot_Volume
begin

text \<open>
  Hibernating a claim and resuming it, with the claim controller's passes put on the snapshot manager and its volume
  (Snapshot_Volume): what the release of an idle claim took from its pod is what a later claim of the same tenant and
  workload gets into its pool pod.
\<close>

section \<open>What a release stores\<close>

text \<open>
  The overlay of a pod was read with \<open>tar\<close>, and unless it printed nothing the checksum of what it printed is the one
  recorded for the snapshot.
\<close>

definition savedFrom :: "env \<Rightarrow> SnapshotManager \<Rightarrow> (trace \<Rightarrow> (string \<rightharpoonup> string)) \<Rightarrow> string \<Rightarrow> string \<Rightarrow> string
    \<Rightarrow> string list \<Rightarrow> event list \<Rightarrow> trace \<Rightarrow> bool" where
  "savedFrom E s vol p t w dirs evs tr \<longleftrightarrow>
     (\<exists>a out. ExecEv (tarArgs s p dirs) [] (ExecOk a out) \<in> set evs \<and>
        (a \<noteq> [] \<longrightarrow> recordedHash E t w a (vol tr)))"

lemma savedFrom_mono:
  "savedFrom E s vol p t w dirs evs tr \<Longrightarrow> set evs \<subseteq> set evs' \<Longrightarrow> vol tr' = vol tr \<Longrightarrow>
   savedFrom E s vol p t w dirs evs' tr'"
  unfolding savedFrom_def by auto

lemma spares_everything: "safeName t \<Longrightarrow> safeName w \<Longrightarrow> emits (\<lambda>_. True) (smExtractAndStore E s p t w dirs)"
  by (rule emits_mono [OF emits_extract_spares [of t w "CHR ''x'' # t" w]]) auto

lemma touches_others [simp]:
  "\<not> touches s (SnapEv x)" "\<not> touches s (WaitEv d b)" "\<not> touches s (SecretEv se)" "\<not> touches s (ClaimEv ce)"
  "\<not> touches s (WorkloadEv we)" "\<not> touches s (TimeEv now)"
  by (simp_all add: touches_def)

lemma wp_extract_saves:
  assumes works: "servesVolume E s vol" and safe: "safeName t" "safeName w" and "dirs \<noteq> []"
  shows "wp (extractAndStore (managerSnapshotter E s) p t w dirs)
     (\<lambda>r tr'. \<exists>evs. tr' = tr @ evs \<and> (r = None \<longrightarrow> savedFrom E s vol p t w dirs evs tr')) tr"
proof -
  let ?m = "smExtractAndStore E s p t w dirs" and ?r = "run_cmd E tr (tarArgs s p dirs) []"
  obtain r tr1 where run: "run_state ?m tr = (r, tr1)" by fastforce
  note ext = emits_run [OF spares_everything [OF safe] run]
  have "savedFrom E s vol p t w dirs (appended ?m tr @ [SnapEv x]) (tr1 @ [SnapEv x])" if "r = None" for x
  proof (cases ?r)
    case (ExecOk a out)
    have "emits (\<lambda>_. True) (writeToSnapshotsPVC E s t w a)"
      unfolding writeToSnapshotsPVC_def execCmd_def by (intro emits_intros emits_mono [OF emits_ensure_idle]) simp_all
    then have "ExecEv (tarArgs s p dirs) [] (ExecOk a out) \<in> set (appended ?m tr)"
      using ExecOk assms(4) appended_after [of "\<lambda>_. True" "writeToSnapshotsPVC E s t w a" ?m tr "[ExecEv (tarArgs s p dirs) [] ?r]"]
      by (cases "a = []") (simp_all add: smExtractAndStore_def execCmd_def appended_def)
    moreover have "recordedHash E t w a (vol tr1)" if "a \<noteq> []"
      using wpD [OF wp_extract_records [OF works ExecOk that assms(4) safe] run] \<open>r = None\<close> by simp
    ultimately show ?thesis
      unfolding savedFrom_def by (auto simp: vol_untouched [OF works])
  qed (use run that assms(4) in \<open>simp_all add: smExtractAndStore_def execCmd_def runError_def\<close>)
  with run ext show ?thesis
    by (simp add: extractAndStore_def managerSnapshotter_def wp_simps) (simp add: wp_def)
qed

lemma wp_attempts_save:
  assumes works: "servesVolume E s vol" and safe: "safeName t" "safeName w" and "dirs \<noteq> []"
  shows "le \<noteq> None \<or> ds \<noteq> [] \<Longrightarrow> wp (extractAttempts E (managerSnapshotter E s) p t w dirs ds le)
     (\<lambda>r tr'. \<exists>evs. tr' = tr @ evs \<and> (r = None \<longrightarrow> savedFrom E s vol p t w dirs evs tr')) tr"
proof (induction ds arbitrary: le tr)
  case (Cons d ds)
  let ?Q = "\<lambda>tr r tr'. \<exists>evs. tr' = tr @ evs \<and> (r = None \<longrightarrow> savedFrom E s vol p t w dirs evs tr')"
  show ?case
    unfolding extractAttempts.simps wp_bind
  proof (rule wp_mono [OF wp_extract_saves [OF assms]])
    fix r :: "err option" and tr1
    assume "\<exists>evs. tr1 = tr @ evs \<and> (r = None \<longrightarrow> savedFrom E s vol p t w dirs evs tr1)"
    then obtain evs where tr1: "tr1 = tr @ evs" and saved: "r = None \<longrightarrow> savedFrom E s vol p t w dirs evs tr1" by blast
    have again: "wp (extractAttempts E (managerSnapshotter E s) p t w dirs ds (Some e)) (?Q tr) (tr1 @ [x])" for e x
    proof (rule wp_mono [OF Cons.IH])
      fix r tr'
      assume "\<exists>evs'. tr' = (tr1 @ [x]) @ evs' \<and> (r = None \<longrightarrow> savedFrom E s vol p t w dirs evs' tr')"
      then obtain evs' where "tr' = tr @ evs @ x # evs'" and saved': "r = None \<longrightarrow> savedFrom E s vol p t w dirs evs' tr'"
        by (auto simp: tr1)
      moreover have "r = None \<longrightarrow> savedFrom E s vol p t w dirs (evs @ x # evs') tr'"
        using saved' savedFrom_mono [of E s vol p t w dirs evs' tr' "evs @ x # evs'" tr'] by auto
      ultimately show "?Q tr r tr'" by auto
    qed simp
    show "wp (case r of None \<Rightarrow> ret None | Some e \<Rightarrow> if ds = [] then ret (Some e)
          else waitTimer E d \<bind> (\<lambda>fired. if fired then extractAttempts E (managerSnapshotter E s) p t w dirs ds (Some e)
            else ret (Some (errorf ''context canceled'')))) (?Q tr) tr1"
      using saved again tr1 by (auto simp: wp_simps waitTimer_def split: option.split)
  qed
qed (auto simp: wp_simps)

lemma snapQuiet_events: "list_all (snapQuiet ns) evs \<Longrightarrow> PodEv (DeleteEv k d) \<in> set evs \<Longrightarrow> k = helperKey ns"
  "list_all (snapQuiet ns) evs \<Longrightarrow> WorkloadEv we \<notin> set evs"
  by (auto simp: list_all_iff)

text \<open>What a release that read a workload with the overlay directories \<open>dirs\<close> may have done to pods since.\<close>

definition podKept :: "env \<Rightarrow> SnapshotManager \<Rightarrow> (trace \<Rightarrow> (string \<rightharpoonup> string)) \<Rightarrow> Pod \<Rightarrow> string \<Rightarrow> string
    \<Rightarrow> string list \<Rightarrow> event list \<Rightarrow> trace \<Rightarrow> bool" where
  "podKept E s vol pod t w dirs evs tr \<longleftrightarrow> list_all (\<lambda>e. case e of
      PodEv (DeleteEv k _) \<Rightarrow> k = helperKey (smNamespace s) \<or>
        k = podKey pod \<and> savedFrom E s vol (podName pod) t w dirs evs tr
    | _ \<Rightarrow> True) evs"

lemma podKept_quiet: "list_all (snapQuiet (smNamespace s)) evs \<Longrightarrow> podKept E s vol pod t w dirs evs tr"
  by (fastforce simp: podKept_def list_all_iff split: event.split kev.split)

definition ending :: "Pod \<Rightarrow> event \<Rightarrow> bool" where
  "ending pod e \<longleftrightarrow> (case e of PodEv (DeleteEv k _) \<Rightarrow> k = podKey pod | SecretEv _ \<Rightarrow> True | ClaimEv _ \<Rightarrow> True | _ \<Rightarrow> False)"

lemma ending_simps [simp]:
  "ending pod (PodEv (DeleteEv k d)) \<longleftrightarrow> k = podKey pod" "ending pod (SecretEv se)" "ending pod (ClaimEv ce)"
  by (simp_all add: ending_def)

lemma ending_untouched: "list_all (ending pod) evs \<Longrightarrow> list_all (\<lambda>e. \<not> touches s e) evs"
proof (erule list.pred_mono_strong)
  fix e assume "ending pod e"
  then show "\<not> touches s e" by (cases e) (simp_all add: ending_def)
qed

lemma ending_no_workload: "list_all (ending pod) evs \<Longrightarrow> WorkloadEv we \<notin> set evs"
  by (auto simp: list_all_iff ending_def)

lemma podKept_ending:
  assumes "servesVolume E s vol" and "list_all (snapQuiet (smNamespace s)) evs" and "list_all (ending pod) rest"
    and saved: "savedFrom E s vol (podName pod) t w dirs evs tr"
  shows "podKept E s vol pod t w dirs (evs @ rest) (tr @ rest)"
proof -
  have "savedFrom E s vol (podName pod) t w dirs (evs @ rest) (tr @ rest)"
    by (rule savedFrom_mono [OF saved]) (simp_all add: vol_idle [OF assms(1) ending_untouched [OF assms(3)]])
  then show ?thesis
    using assms(2,3) by (fastforce simp: podKept_def list_all_iff split: event.split kev.split)
qed

lemma emits_finishRelease: "emits (ending pod) (finishRelease E claim action)"
  unfolding finishRelease_def deleteClaimToken_def updateClaimStatus_def api_defs
  by (intro emits_intros) auto

lemma emits_endPod:
  "emits (ending pod) (deleteObj PodEv (pods E) (podKey pod) \<bind> (\<lambda>d. case deleteFailed d of
     Some e \<Rightarrow> ret (Inl (wrapf m e)) | None \<Rightarrow> finishRelease E claim action))"
  unfolding deleteObj_def by (intro emits_intros emits_finishRelease) auto

lemma wp_releaseExtract_saves:
  assumes works: "servesVolume E s vol" and "servesPods E" and snaps: "crSnapshots R = Some (managerSnapshotter E s)"
    and safe: "safeName (claimTenantId (claimSpec claim))" "safeName (claimWorkloadRef (claimSpec claim))"
    and g: "g = k_get (workloads E) tr (nsName (Namespace (claimMeta claim)) (claimWorkloadRef (claimSpec claim)))"
    and e: "e = WorkloadEv (GetEv (nsName (Namespace (claimMeta claim)) (claimWorkloadRef (claimSpec claim))) g)"
  shows "wp (releaseExtract E R claim pod ''hibernate'') (\<lambda>r tr'. \<exists>evs. tr' = tr @ e # evs \<and>
      list_all (snapQuiet (smNamespace s)) evs \<and>
      (\<forall>wl. g = Inr wl \<longrightarrow> overlayDirs wl \<noteq> [] \<longrightarrow> r = None \<longrightarrow>
        savedFrom E s vol (podName pod) (claimTenantId (claimSpec claim)) (claimWorkloadRef (claimSpec claim))
          (overlayDirs wl) evs tr')) tr"
proof -
  let ?t = "claimTenantId (claimSpec claim)" and ?w = "claimWorkloadRef (claimSpec claim)"
  have "wp (extractWithRetry E R (managerSnapshotter E s) (podName pod) ?t ?w dirs) (\<lambda>r tr'. \<exists>evs. tr' = tr @ e # evs \<and>
      list_all (snapQuiet (smNamespace s)) evs \<and>
      (r = None \<longrightarrow> savedFrom E s vol (podName pod) ?t ?w dirs evs tr')) (tr @ [e])" if "dirs \<noteq> []" for dirs
    unfolding extractWithRetry_def
    by (rule wp_mono [OF wp_conj [OF wp_attempts_save [OF works safe that]
          manager.wp_extractAttempts [OF assms(2) manager.extractBackoff_nonempty]]])
      (auto simp: extractOutcome_def)
  then show ?thesis
    by (auto simp: releaseExtract_def snaps getObj_def wp_simps g [symmetric] e split: sum.split)
qed

lemma wp_releasePod_saves:
  assumes works: "servesVolume E s vol" and "servesPods E" and snaps: "crSnapshots R = Some (managerSnapshotter E s)"
    and safe: "safeName (claimTenantId (claimSpec claim))" "safeName (claimWorkloadRef (claimSpec claim))"
    and g: "g = k_get (workloads E) tr (nsName (Namespace (claimMeta claim)) (claimWorkloadRef (claimSpec claim)))"
    and e: "e = WorkloadEv (GetEv (nsName (Namespace (claimMeta claim)) (claimWorkloadRef (claimSpec claim))) g)"
  shows "wp (releasePod E R claim ''hibernate'' pod) (\<lambda>_ tr'. \<exists>evs. tr' = tr @ e # evs \<and>
      (\<forall>we. WorkloadEv we \<notin> set evs) \<and>
      (\<forall>wl. g = Inr wl \<longrightarrow> overlayDirs wl \<noteq> [] \<longrightarrow> podKept E s vol pod (claimTenantId (claimSpec claim))
        (claimWorkloadRef (claimSpec claim)) (overlayDirs wl) evs tr')) tr"
    (is "wp _ ?Q tr")
  unfolding releasePod_def wp_bind
proof (rule wp_mono [OF wp_releaseExtract_saves [OF assms]])
  fix r :: "err option" and tr'
  let ?S = "\<lambda>wl. savedFrom E s vol (podName pod) (claimTenantId (claimSpec claim)) (claimWorkloadRef (claimSpec claim))
    (overlayDirs wl)"
  assume "\<exists>evs. tr' = tr @ e # evs \<and> list_all (snapQuiet (smNamespace s)) evs \<and>
      (\<forall>wl. g = Inr wl \<longrightarrow> overlayDirs wl \<noteq> [] \<longrightarrow> r = None \<longrightarrow> ?S wl evs tr')"
  then obtain evs where tr': "tr' = tr @ e # evs" and quiet: "list_all (snapQuiet (smNamespace s)) evs"
    and saved: "\<And>wl. g = Inr wl \<Longrightarrow> overlayDirs wl \<noteq> [] \<Longrightarrow> r = None \<Longrightarrow> ?S wl evs tr'" by blast
  have failed: "wp (markReleaseFailed E claim m) ?Q tr'" for m
  proof (rule emits_wpI)
    show "emits (\<lambda>e. \<exists>c. e = ClaimEv c) (markReleaseFailed E claim m)"
      unfolding markReleaseFailed_def updateClaimStatus_def api_defs by (intro emits_intros) auto
    fix a rest
    assume rest: "list_all (\<lambda>e. \<exists>c. e = ClaimEv c) rest"
    then have "podKept E s vol pod t w dirs (evs @ rest) x" for t w dirs x
      using quiet by (fastforce simp: podKept_def list_all_iff split: event.split kev.split)
    with rest snapQuiet_events(2) [OF quiet] show "?Q a (tr' @ rest)"
      by (auto simp: tr' list_all_iff)
  qed
  have ended: "wp (deleteObj PodEv (pods E) (podKey pod) \<bind> (\<lambda>d. case deleteFailed d of
     Some e \<Rightarrow> ret (Inl (wrapf m e)) | None \<Rightarrow> finishRelease E claim ''hibernate'')) ?Q tr'" if "r = None" for m
  proof (rule emits_wpI [OF emits_endPod])
    fix a rest
    assume rest: "list_all (ending pod) rest"
    show "?Q a (tr' @ rest)"
      using saved that snapQuiet_events(2) [OF quiet] ending_no_workload [OF rest]
      by (auto simp: tr' intro!: podKept_ending [OF works quiet rest, of _ _ _ "tr @ e # evs", simplified])
  qed
  show "wp (case r of Some e \<Rightarrow> markReleaseFailed E claim (extractFailedDetail e)
     | None \<Rightarrow> destroySnapshot R claim ''hibernate'' \<bind> (\<lambda>u. deleteObj PodEv (pods E) (podKey pod) \<bind>
         (\<lambda>d. case deleteFailed d of Some e \<Rightarrow> ret (Inl (wrapf ''deleting pod on release'' e))
           | None \<Rightarrow> finishRelease E claim ''hibernate''))) ?Q tr'"
    using failed ended by (cases r) (simp_all add: destroySnapshot_def snaps)
qed

lemma wp_releaseClaim_saves:
  assumes works: "servesVolume E s vol" and "servesPods E" and snaps: "crSnapshots R = Some (managerSnapshotter E s)"
    and safe: "safeName (claimTenantId (claimSpec claim))" "safeName (claimWorkloadRef (claimSpec claim))"
  shows "wp (releaseClaim E R claim ''hibernate'') (\<lambda>_ tr'. \<exists>evs. tr' = tr @ evs \<and>
      (\<forall>wl. WorkloadEv (GetEv (nsName (Namespace (claimMeta claim)) (claimWorkloadRef (claimSpec claim))) (Inr wl)) \<in> set evs \<longrightarrow>
        overlayDirs wl \<noteq> [] \<longrightarrow> (\<exists>pod. podKept E s vol pod (claimTenantId (claimSpec claim))
          (claimWorkloadRef (claimSpec claim)) (overlayDirs wl) evs tr'))) tr"
    (is "wp _ ?Q tr")
proof -
  let ?wk = "nsName (Namespace (claimMeta claim)) (claimWorkloadRef (claimSpec claim))"
  let ?kept = "\<lambda>pod wl. podKept E s vol pod (claimTenantId (claimSpec claim)) (claimWorkloadRef (claimSpec claim)) (overlayDirs wl)"
  obtain l where l: "l = PodEv (ListEv (Namespace (claimMeta claim)) (tenantSelector (claimTenantId (claimSpec claim))
    (claimWorkloadRef (claimSpec claim))) (k_list (pods E) tr (Namespace (claimMeta claim))
      (tenantSelector (claimTenantId (claimSpec claim)) (claimWorkloadRef (claimSpec claim)))))" by simp
  obtain g where g: "g = k_get (workloads E) (tr @ [l]) ?wk" by simp
  have gone: "wp (finishRelease E claim ''hibernate'') ?Q (tr @ [l])"
    by (rule emits_wpI [OF emits_finishRelease [of demoPod]]) (auto simp: ending_no_workload l)
  have kept: "wp (releasePod E R claim ''hibernate'' pod) ?Q (tr @ [l])" for pod
  proof (rule wp_mono [OF wp_releasePod_saves [OF assms g refl]])
    fix a :: "err + Result" and tr'
    assume "\<exists>evs. tr' = (tr @ [l]) @ WorkloadEv (GetEv ?wk g) # evs \<and> (\<forall>we. WorkloadEv we \<notin> set evs) \<and>
      (\<forall>wl. g = Inr wl \<longrightarrow> overlayDirs wl \<noteq> [] \<longrightarrow> ?kept pod wl evs tr')"
    then obtain evs where tr': "tr' = tr @ l # WorkloadEv (GetEv ?wk g) # evs" and none: "\<And>we. WorkloadEv we \<notin> set evs"
      and kept: "\<And>wl. g = Inr wl \<Longrightarrow> overlayDirs wl \<noteq> [] \<Longrightarrow> ?kept pod wl evs tr'" by auto
    have "?kept pod wl (l # WorkloadEv (GetEv ?wk g) # evs) tr'"
      if "WorkloadEv (GetEv ?wk (Inr wl)) \<in> set (l # WorkloadEv (GetEv ?wk g) # evs)" "overlayDirs wl \<noteq> []" for wl
    proof -
      have "g = Inr wl" using that(1) none by (auto simp: l)
      from kept [OF this that(2)] show ?thesis
        by (fastforce simp: podKept_def list_all_iff savedFrom_def l split: event.split kev.split)
    qed
    then show "?Q a tr'" by (intro exI [of _ "l # WorkloadEv (GetEv ?wk g) # evs"]) (auto simp: tr')
  qed
  show ?thesis
    unfolding releaseClaim_def findTenantPod_def listObj_def
    using gone kept by (auto simp: l wp_simps firstItem_def split: sum.split list.split)
qed

section \<open>What a pool pod gets\<close>

text \<open>
  Archives were streamed into the pod \<open>q\<close> only, and only such as have the checksum of \<open>a\<close>; a claim was said to have its
  data in some pod.
\<close>

definition streamsOnly :: "env \<Rightarrow> SnapshotManager \<Rightarrow> string \<Rightarrow> string \<Rightarrow> event list \<Rightarrow> bool" where
  "streamsOnly E s q a evs \<longleftrightarrow>
     (\<forall>p x r. ExecEv (injectArgs s p) x r \<in> set evs \<longrightarrow> p = q \<and> hashArchive E x = hashArchive E a)"

definition reportsData :: "event list \<Rightarrow> bool" where
  "reportsData evs \<longleftrightarrow> (\<exists>c r. ClaimEv (StatusEv c r) \<in> set evs \<and> Source (claimStatus c) = ''pool+data'')"

lemma streamsOnly_append [simp]:
  "streamsOnly E s q a (xs @ ys) \<longleftrightarrow> streamsOnly E s q a xs \<and> streamsOnly E s q a ys"
  unfolding streamsOnly_def set_append Un_iff by blast

lemma streamsOnly_Cons [simp]:
  "streamsOnly E s q a (PodEv pe # xs) = streamsOnly E s q a xs" "streamsOnly E s q a (SnapEv se # xs) = streamsOnly E s q a xs"
  "streamsOnly E s q a []"
  by (simp_all add: streamsOnly_def)

lemma reportsData_simps [simp]:
  "reportsData (xs @ ys) \<longleftrightarrow> reportsData xs \<or> reportsData ys"
  "reportsData (PodEv pe # xs) = reportsData xs" "reportsData (SnapEv se # xs) = reportsData xs"
  "\<not> reportsData []"
  by (auto simp: reportsData_def)

text \<open>The pod the API server returned for the update that acquired \<open>poolPod\<close> for tenant \<open>t\<close>.\<close>

definition acquiredAs :: "string \<Rightarrow> Pod \<Rightarrow> string \<Rightarrow> event list \<Rightarrow> bool" where
  "acquiredAs t poolPod q evs \<longleftrightarrow> (\<exists>p. PodEv (UpdateEv (acquiredPod poolPod t) (Inr p)) \<in> set evs \<and> podName p = q)"

text \<open>
  What a placement restores of \<open>a\<close>: archives are streamed only into the acquired pod and only such as have the checksum
  of \<open>a\<close>; and a claim that is said to have its data names the acquired pod, into which such an archive was streamed,
  \<open>tar\<close> having succeeded, unless the stored archive was read as empty.
\<close>

definition restores :: "env \<Rightarrow> SnapshotManager \<Rightarrow> string \<Rightarrow> string \<Rightarrow> Pod \<Rightarrow> string \<Rightarrow> event list \<Rightarrow> bool" where
  "restores E s t w poolPod a evs \<longleftrightarrow>
     (\<forall>q x r. ExecEv (injectArgs s q) x r \<in> set evs \<longrightarrow>
        acquiredAs t poolPod q evs \<and> hashArchive E x = hashArchive E a) \<and>
     (\<forall>c r. ClaimEv (StatusEv c r) \<in> set evs \<longrightarrow> Source (claimStatus c) = ''pool+data'' \<longrightarrow>
        acquiredAs t poolPod (InstanceId (claimStatus c)) evs \<and>
        (sentInto E s (InstanceId (claimStatus c)) a evs \<or> readNothing s t w evs))"

lemma emits_has_idle: "emits (idle s) (smHasSnapshot E s t w)"
proof -
  have "idle s (ExecEv (helperExec s [''test'', x, path]) i r)" for x path i r
    by (simp add: idle_def injectArgs_not_helper [symmetric])
  then show ?thesis
    unfolding smHasSnapshot_def fileExistsInPVC_def execCmd_def
    by (intro emits_intros emits_ensure_idle emits_case_exec) auto
qed

lemma idle_streams: "list_all (idle s) evs \<Longrightarrow> streamsOnly E s q a evs"
  unfolding streamsOnly_def using idle_list by blast

lemma activates_event:
  assumes "list_all (activates q source) evs" and "e \<in> set evs"
  shows "e \<noteq> ExecEv args x r" "e = ClaimEv (StatusEv c u) \<Longrightarrow> InstanceId (claimStatus c) = podName q \<and> Source (claimStatus c) = source"
  using assms by (auto simp: list_all_iff activates_def)

lemma storage_no_report: "list_all (storageEvent ns) evs \<Longrightarrow> \<not> reportsData evs"
  by (auto simp: reportsData_def list_all_iff storageEvent_def)

lemma wp_has_idle:
  assumes "servesPods E"
  shows "wp (hasSnapshot (managerSnapshotter E s) t w) (\<lambda>r tr'. \<exists>evs. tr' = tr @ evs \<and>
      list_all (\<lambda>e. \<not> touches s e) evs \<and> streamsOnly E s q a evs \<and> \<not> reportsData evs) tr"
  unfolding hasSnapshot_def wp_bind managerSnapshotter_def snapshotter.simps
  by (rule wp_mono [OF wp_conj [OF emits_wp [OF emits_has_idle] emits_wp [OF emits_smHas [OF assms]]]])
    (auto simp: wp_simps idle_streams storage_no_report dest: idle_list)

lemma wp_inject_restores:
  assumes "servesPods E" and "servesVolume E s vol" and "recordedHash E t w a (vol tr)"
  shows "wp (injectSnapshot (managerSnapshotter E s) p t w) (\<lambda>r tr'. \<exists>evs. tr' = tr @ evs \<and>
      streamsOnly E s p a evs \<and> \<not> reportsData evs \<and>
      (r = None \<longrightarrow> sentInto E s p a evs \<or> readNothing s t w evs)) tr"
  unfolding injectSnapshot_def wp_bind managerSnapshotter_def snapshotter.simps
proof (rule wp_mono [OF wp_conj [OF wp_inject_recorded [OF assms(2,3)] emits_wp [OF emits_smInject [OF assms(1)]]]])
  fix r :: "err option" and tr'
  assume "(\<exists>evs. tr' = tr @ evs \<and>
      (\<forall>q x r. ExecEv (injectArgs s q) x r \<in> set evs \<longrightarrow> q = p \<and> hashArchive E x = hashArchive E a) \<and>
      (r = None \<longrightarrow> sentInto E s p a evs \<or> readNothing s t w evs)) \<and>
    (\<exists>evs. tr' = tr @ evs \<and> list_all (storageEvent (smNamespace s)) evs)"
  then obtain evs where tr': "tr' = tr @ evs" and only: "streamsOnly E s p a evs"
    and sent: "r = None \<Longrightarrow> sentInto E s p a evs \<or> readNothing s t w evs"
    and quiet: "list_all (storageEvent (smNamespace s)) evs" by (auto simp: streamsOnly_def)
  have "r = None \<longrightarrow> sentInto E s p a (evs @ x) \<or> readNothing s t w (evs @ x)" for x
    using sent sentInto_mono [of E s p a evs "evs @ x"] readNothing_mono [of s t w evs "evs @ x"] by auto
  with only storage_no_report [OF quiet]
  show "wp (observe (SnapEv (InjectEv p t w r))) (\<lambda>u. wp (ret r) (\<lambda>r tr'. \<exists>evs. tr' = tr @ evs \<and>
      streamsOnly E s p a evs \<and> \<not> reportsData evs \<and>
      (r = None \<longrightarrow> sentInto E s p a evs \<or> readNothing s t w evs))) tr'"
    by (auto simp: wp_simps tr')
qed

text \<open>The activation after the acquisition as \<open>q\<close>, with or without data.\<close>

lemma wp_activate_restores:
  assumes got: "PodEv (UpdateEv (acquiredPod poolPod t) (Inr q)) \<in> set pre"
    and only: "streamsOnly E s (podName q) a pre" and "\<not> reportsData pre" and source: "source \<noteq> ''existing''"
    and sent: "source = ''pool+data'' \<Longrightarrow> sentInto E s (podName q) a pre \<or> readNothing s t w pre"
  shows "wp (activateClaim E claim q source) (\<lambda>_ tr'. \<exists>evs. tr' = tr @ evs \<and> restores E s t w poolPod a evs) (tr @ pre)"
proof (rule emits_wpI [OF emits_activates [OF source]])
  fix x :: "err + Result" and evs
  assume evs: "list_all (activates q source) evs"
  have acquired: "acquiredAs t poolPod (podName q) (pre @ evs)"
    using got unfolding acquiredAs_def by auto
  have streams: "ExecEv (injectArgs s p) y r \<in> set (pre @ evs) \<Longrightarrow> p = podName q \<and> hashArchive E y = hashArchive E a" for p y r
    using only activates_event(1) [OF evs] unfolding streamsOnly_def set_append Un_iff by blast
  have data: "InstanceId (claimStatus c) = podName q \<and> source = ''pool+data''"
    if "ClaimEv (StatusEv c r) \<in> set (pre @ evs)" "Source (claimStatus c) = ''pool+data''" for c r
    using that assms(3) activates_event(2) [OF evs] by (fastforce simp: reportsData_def)
  have "sentInto E s (podName q) a (pre @ evs) \<or> readNothing s t w (pre @ evs)" if "source = ''pool+data''"
    using sent [OF that] sentInto_mono [of E s _ a pre "pre @ evs"] readNothing_mono [of s t w pre "pre @ evs"] by auto
  with acquired have "restores E s t w poolPod a (pre @ evs)"
    unfolding restores_def using streams data by (metis (no_types, lifting))
  then show "\<exists>evs'. (tr @ pre) @ evs = tr @ evs' \<and> restores E s t w poolPod a evs'" by auto
qed

lemma wp_claimFromPool_restores:
  assumes "servesPods E" and vol: "servesVolume E s vol" and snaps: "crSnapshots R = Some (managerSnapshotter E s)"
    and names: "claimTenantId (claimSpec claim) = t" "claimWorkloadRef (claimSpec claim) = w"
    and stored: "recordedHash E t w a (vol tr)"
  shows "wp (claimFromPool E R claim poolPod wl) (\<lambda>_ tr'. \<exists>evs. tr' = tr @ evs \<and> restores E s t w poolPod a evs) tr"
proof -
  let ?Q = "\<lambda>_ tr'. \<exists>evs. tr' = tr @ evs \<and> restores E s t w poolPod a evs"
  let ?u = "\<lambda>r. PodEv (UpdateEv (acquiredPod poolPod t) r)"
  note act = wp_activate_restores [where s = s and a = a and tr = tr and t = t and w = w and poolPod = poolPod and E = E]
  have inject: "wp (injectSnapshot (managerSnapshotter E s) (podName q) t w \<bind> (\<lambda>i. case i of
      Some e \<Rightarrow> activateClaim E claim q ''pool'' | None \<Rightarrow> activateClaim E claim q ''pool+data'')) ?Q (tr @ pre)"
    if pre: "?u (Inr q) \<in> set pre" "list_all (\<lambda>e. \<not> touches s e) pre" "streamsOnly E s (podName q) a pre" "\<not> reportsData pre"
    for q pre
    unfolding wp_bind
  proof (rule wp_mono [OF wp_inject_restores [OF assms(1) vol, of t w a "tr @ pre" "podName q"]])
    show "recordedHash E t w a (vol (tr @ pre))" using stored vol_idle [OF vol pre(2)] by simp
    fix i :: "err option" and tr'
    assume "\<exists>evs. tr' = (tr @ pre) @ evs \<and> streamsOnly E s (podName q) a evs \<and> \<not> reportsData evs \<and>
      (i = None \<longrightarrow> sentInto E s (podName q) a evs \<or> readNothing s t w evs)"
    then obtain evs where tr': "tr' = tr @ pre @ evs" and ok: "streamsOnly E s (podName q) a (pre @ evs)" "\<not> reportsData (pre @ evs)"
      and sent: "i = None \<Longrightarrow> sentInto E s (podName q) a evs \<or> readNothing s t w evs" using pre by auto
    have got: "?u (Inr q) \<in> set (pre @ evs)" using pre(1) by simp
    have "i = None \<Longrightarrow> sentInto E s (podName q) a (pre @ evs) \<or> readNothing s t w (pre @ evs)"
      using sent sentInto_mono [of E s _ a evs "pre @ evs"] readNothing_mono [of s t w evs "pre @ evs"] by auto
    with act [OF got ok, of "''pool''"] act [OF got ok, of "''pool+data''"]
    show "wp (case i of Some e \<Rightarrow> activateClaim E claim q ''pool'' | None \<Rightarrow> activateClaim E claim q ''pool+data'') ?Q tr'"
      by (cases i) (simp_all add: tr')
  qed
  have found: "wp (hasSnapshot (managerSnapshotter E s) t w \<bind> (\<lambda>h. case h of
      Inl e \<Rightarrow> activateClaim E claim q ''pool''
    | Inr b \<Rightarrow> if b then injectSnapshot (managerSnapshotter E s) (podName q) t w \<bind> (\<lambda>i. case i of
        Some e \<Rightarrow> activateClaim E claim q ''pool'' | None \<Rightarrow> activateClaim E claim q ''pool+data'')
      else activateClaim E claim q ''pool'')) ?Q (tr @ [?u (Inr q)])" for q
    unfolding wp_bind [of "hasSnapshot _ _ _"]
  proof (rule wp_mono [OF wp_has_idle [OF assms(1), where a = a and q = "podName q"]])
    fix h :: "err + bool" and tr'
    assume "\<exists>evs. tr' = (tr @ [?u (Inr q)]) @ evs \<and> list_all (\<lambda>e. \<not> touches s e) evs \<and>
      streamsOnly E s (podName q) a evs \<and> \<not> reportsData evs"
    then obtain evs where evs: "tr' = tr @ ?u (Inr q) # evs" "list_all (\<lambda>e. \<not> touches s e) (?u (Inr q) # evs)"
      "streamsOnly E s (podName q) a (?u (Inr q) # evs)" "\<not> reportsData (?u (Inr q) # evs)" by auto
    have got: "?u (Inr q) \<in> set (?u (Inr q) # evs)" by simp
    from evs inject [OF got evs(2-4)] act [OF got evs(3,4), of "''pool''"] show "wp (case h of
      Inl e \<Rightarrow> activateClaim E claim q ''pool''
    | Inr b \<Rightarrow> if b then injectSnapshot (managerSnapshotter E s) (podName q) t w \<bind> (\<lambda>i. case i of
        Some e \<Rightarrow> activateClaim E claim q ''pool'' | None \<Rightarrow> activateClaim E claim q ''pool+data'')
      else activateClaim E claim q ''pool'') ?Q tr'"
      by (simp split: sum.split)
  qed
  have "?Q x (tr @ [?u r])" for x r
    by (simp add: restores_def)
  with found show ?thesis
    by (auto simp: claimFromPool_def names Let_def updateObj_def wp_bind wp_call wp_case_sum wp_ret snaps split: sum.split)
qed

section \<open>Passes for other claims\<close>

lemma emits_attempts_spares:
  assumes "safeName t'" "safeName w'" "(t', w') \<noteq> (t, w)"
  shows "emits (spares E s t w) (extractAttempts E (managerSnapshotter E s) p t' w' dirs ds le)"
proof (induction ds arbitrary: le)
  case (Cons d ds)
  have "emits (spares E s t w) (extractAndStore (managerSnapshotter E s) p t' w' dirs)"
    unfolding extractAndStore_def managerSnapshotter_def snapshotter.simps
    by (intro emits_intros emits_extract_spares assms) (simp add: spares_untouched)
  then show ?case
    unfolding extractAttempts.simps waitTimer_def by (intro emits_intros Cons.IH) (simp_all add: spares_untouched)
qed (simp add: emits_ret)

lemma emits_release_spares:
  assumes snaps: "crSnapshots R = Some (managerSnapshotter E s)"
    and other: "safeName (claimTenantId (claimSpec claim))" "safeName (claimWorkloadRef (claimSpec claim))"
      "(claimTenantId (claimSpec claim), claimWorkloadRef (claimSpec claim)) \<noteq> (t, w)"
  shows "emits (spares E s t w) (releaseClaim E R claim action)"
proof -
  have ends: "emits (spares E s t w) (finishRelease E claim action)"
    by (rule emits_mono [OF emits_finishRelease [of demoPod]]) (use ending_untouched [of demoPod "[_]" s] in \<open>simp add: spares_untouched\<close>)
  have failed: "emits (spares E s t w) (markReleaseFailed E claim m)" for m
    unfolding markReleaseFailed_def updateClaimStatus_def api_defs
    by (intro emits_intros) (simp_all add: spares_untouched)
  have extracts: "emits (spares E s t w) (releaseExtract E R claim pod action)" for pod
    unfolding releaseExtract_def snaps option.case extractWithRetry_def getObj_def
    by (intro emits_intros emits_attempts_spares other) (simp_all add: spares_untouched)
  have destroy: "emits (spares E s t w) (destroySnapshot R claim action)"
    unfolding destroySnapshot_def snaps option.case deleteSnapshot_def managerSnapshotter_def snapshotter.simps
    by (intro emits_intros emits_delete_spares other) (simp_all add: spares_untouched)
  show ?thesis
    unfolding releaseClaim_def releasePod_def findTenantPod_def listObj_def deleteObj_def
    by (intro emits_intros ends failed extracts destroy) (simp_all add: spares_untouched)
qed

section \<open>Properties\<close>

text \<open>
  C11. Hibernating and resuming.  When the release of a hibernating claim, whose workload has overlay directories, came to
  the deletion of a pod, then \<open>tar\<close> of them in that pod had succeeded; and unless it printed nothing, then after
  any later history whose other operations on the volume were for other tenants or workloads, a claim of the same tenant and
  workload that takes a pool pod streams archives only into the pod the API server returned for the acquiring update, and
  only with the SHA-256 of what \<open>tar\<close> printed; and when it records that the pod has its data, it has streamed
  one into that pod and \<open>tar\<close> succeeded, or the stored archive was read as empty.  Assumed of the helper pod, as
  documented for its shell and commands: a write script that exits 0 ran all its steps (on whatever input reached
  it), a \<open>cat\<close> of a checksum file that exits 0 printed the file, and no other command changes these files;
  label values have neither slash nor semicolon.
\<close>

theorem hibernate_resume:
  assumes "servesVolume E s vol" and "servesPods E" and "crSnapshots R = Some (managerSnapshotter E s)"
    and "safeName (claimTenantId (claimSpec claim))" and "safeName (claimWorkloadRef (claimSpec claim))"
    and "released = appended (releaseClaim E R claim ''hibernate'') tr"
    and "WorkloadEv (GetEv (nsName (Namespace (claimMeta claim)) (claimWorkloadRef (claimSpec claim))) (Inr wl)) \<in> set released"
    and "overlayDirs wl \<noteq> []"
    and "PodEv (DeleteEv k d) \<in> set released" and "k \<noteq> helperKey (smNamespace s)"
    and "list_all (spares E s (claimTenantId (claimSpec claim)) (claimWorkloadRef (claimSpec claim))) evs"
    and "claimTenantId (claimSpec claim') = claimTenantId (claimSpec claim)"
    and "claimWorkloadRef (claimSpec claim') = claimWorkloadRef (claimSpec claim)"
  shows "(\<exists>pod a out. podKey pod = k \<and>
      ExecEv (tarArgs s (podName pod) (overlayDirs wl)) [] (ExecOk a out) \<in> set released \<and>
      (a = [] \<or> restores E s (claimTenantId (claimSpec claim)) (claimWorkloadRef (claimSpec claim)) poolPod a
         (appended (claimFromPool E R claim' poolPod wl') (tr @ released @ evs)))) \<and>
    (safeName (claimTenantId (claimSpec other)) \<longrightarrow> safeName (claimWorkloadRef (claimSpec other)) \<longrightarrow>
      (claimTenantId (claimSpec other), claimWorkloadRef (claimSpec other)) \<noteq>
        (claimTenantId (claimSpec claim), claimWorkloadRef (claimSpec claim)) \<longrightarrow>
      emits (spares E s (claimTenantId (claimSpec claim)) (claimWorkloadRef (claimSpec claim)))
        (releaseClaim E R other action))"
proof -
  let ?t = "claimTenantId (claimSpec claim)" and ?w = "claimWorkloadRef (claimSpec claim)"
  obtain x tr' where run: "run_state (releaseClaim E R claim ''hibernate'') tr = (x, tr')" by fastforce
  from wpD [OF wp_releaseClaim_saves [OF assms(1-5)] run]
  obtain rel pod where "tr' = tr @ rel" and kept: "WorkloadEv (GetEv (nsName (Namespace (claimMeta claim)) ?w) (Inr wl)) \<in> set rel
      \<Longrightarrow> podKept E s vol pod ?t ?w (overlayDirs wl) rel tr'" using assms(8) by blast
  with run assms(6) have rel: "rel = released" and tr': "tr' = tr @ released" by (simp_all add: appended_def)
  from kept assms(7) have "podKept E s vol pod ?t ?w (overlayDirs wl) released tr'" by (simp add: rel)
  with assms(9,10) have k: "podKey pod = k" and "savedFrom E s vol (podName pod) ?t ?w (overlayDirs wl) released tr'"
    by (auto simp: podKept_def list_all_iff dest!: bspec)
  then obtain a out where
    tar: "ExecEv (tarArgs s (podName pod) (overlayDirs wl)) [] (ExecOk a out) \<in> set released"
    and stored: "a \<noteq> [] \<longrightarrow> recordedHash E ?t ?w a (vol tr')"
    unfolding savedFrom_def by blast
  have "restores E s ?t ?w poolPod a (appended (claimFromPool E R claim' poolPod wl') (tr @ released @ evs))" if "a \<noteq> []"
  proof -
    have "recordedHash E ?t ?w a (vol (tr @ released @ evs))"
      using spared [OF assms(1,5,11), of a tr'] stored that by (simp add: tr')
    from wp_claimFromPool_restores [OF assms(2,1,3,12,13) this, of poolPod wl'] show ?thesis
      by (auto simp: wp_def appended_def split: prod.splits)
  qed
  with k tar emits_release_spares [OF assms(3)] show ?thesis by blast
qed

text \<open>The cluster of the examples with the helper pod of Snapshot_Volume.\<close>

definition hibernateEnv :: env where
  "hibernateEnv = helperEnv\<lparr>
     pods := (pods helperEnv)\<lparr>k_list := \<lambda>_ _ _. Inr [demoPod], k_update := \<lambda>_ p. Inr p, k_delete := \<lambda>_ _. None\<rparr>,
     workloads := workloads demoEnv, secrets := secrets demoEnv, claims := claims demoEnv\<rparr>"

definition hibernateReconciler :: ClaimReconciler where
  "hibernateReconciler = demoReconciler\<lparr>crSnapshots := Some (managerSnapshotter hibernateEnv demoManager)\<rparr>"

lemma hibernateEnv_same:
  "run_cmd hibernateEnv = run_cmd helperEnv" "hashArchive hibernateEnv = hashArchive helperEnv"
  "writeArgs hibernateEnv = writeArgs helperEnv" "scriptSteps hibernateEnv = scriptSteps helperEnv"
  by (simp_all add: fun_eq_iff hashArchive_def hibernateEnv_def scriptSteps_def writeArgs_def writeScript_def)

lemma hibernateEnv_works: "servesVolume hibernateEnv demoManager (demoVolume demoManager)"
  using helperEnv_serves by (simp add: servesVolume_def hibernateEnv_same)

lemma hibernateEnv_pods: "servesPods hibernateEnv"
  by (simp add: servesPods_def hibernateEnv_def helperEnv_def offlineKind_def helperKey_def demoManager_def
      NewSnapshotManager_def helperPod_def objectMeta_def keyOf_def)

lemma hibernateEnv_ensure: "run_state (ensureHelperPod hibernateEnv demoManager) tr = (None, tr @ helperChecks)"
  by (simp add: ensureHelperPod_def ensureSnapshotsPVC_def api_defs hibernateEnv_def helperEnv_def demoManager_def
      NewSnapshotManager_def helperChecks_def)

lemma hibernateEnv_extract:
  "dirs \<noteq> [] \<Longrightarrow> run_state (smExtractAndStore hibernateEnv demoManager p t w dirs) tr = (None,
     tr @ [ExecEv (tarArgs demoManager p dirs) [] (ExecOk ''overlay'' [])] @ helperChecks @
     [ExecEv (writeArgs helperEnv demoManager t w ''overlay'') ''overlay'' (ExecOk [] [])])"
  by (simp add: smExtractAndStore_def writeToSnapshotsPVC_def execCmd_def hibernateEnv_ensure helperEnv_commands
      helperEnv_tar runError_def hibernateEnv_same)

lemma hibernateEnv_answers:
  "k_list (pods hibernateEnv) tr ns sel = Inr [demoPod]" "k_delete (pods hibernateEnv) tr k = None"
  "k_get (workloads hibernateEnv) tr k = Inr demoWorkload" "k_delete (secrets hibernateEnv) tr k = None"
  "k_status (claims hibernateEnv) tr c = Inr c"
  by (simp_all add: hibernateEnv_def demoEnv_def)

lemma demo_names:
  "Namespace (claimMeta demoClaim) = ''ns''" "claimTenantId (claimSpec demoClaim) = ''t''"
  "claimWorkloadRef (claimSpec demoClaim) = ''w''" "podName demoPod = ''w-t-1''" "overlayDirs demoWorkload = [''/workspace'']"
  "podKey demoPod = nsName ''ns'' ''w-t-1''"
  by (simp_all add: demoClaim_def demoPod_def demoWorkload_def objectMeta_def overlayDirs_def keyOf_def)

lemma hibernated:
  "\<exists>st. appended (releaseClaim hibernateEnv hibernateReconciler demoClaim ''hibernate'') [] =
     [PodEv (ListEv ''ns'' (tenantSelector ''t'' ''w'') (Inr [demoPod])),
      WorkloadEv (GetEv (nsName ''ns'' ''w'') (Inr demoWorkload)),
      ExecEv (tarArgs demoManager ''w-t-1'' [''/workspace'']) [] (ExecOk ''overlay'' [])] @ helperChecks @
     [ExecEv (writeArgs helperEnv demoManager ''t'' ''w'' ''overlay'') ''overlay'' (ExecOk [] []),
      SnapEv (ExtractEv ''w-t-1'' ''t'' ''w'' [''/workspace''] None),
      PodEv (DeleteEv (podKey demoPod) None), SecretEv (DeleteEv (tokenKey demoClaim) None), ClaimEv st]"
  by (simp add: appended_def releaseClaim_def findTenantPod_def firstItem_def releasePod_def releaseExtract_def
        destroySnapshot_def finishRelease_def deleteClaimToken_def updateClaimStatus_def listObj_def getObj_def
        deleteObj_def statusObj_def hibernateEnv_answers demo_names hibernateReconciler_def demoReconciler_def
        extractWithRetry_def extractBackoff_def extractAndStore_def managerSnapshotter_def hibernateEnv_extract)

theorem hibernate_resume_witness:
  "restores hibernateEnv demoManager ''t'' ''w'' demoPod ''overlay'' (appended (claimFromPool hibernateEnv hibernateReconciler demoClaim demoPod demoWorkload)
     ([] @ appended (releaseClaim hibernateEnv hibernateReconciler demoClaim ''hibernate'') [] @ []))"
proof -
  let ?released = "appended (releaseClaim hibernateEnv hibernateReconciler demoClaim ''hibernate'') []"
  obtain st where released: "?released = [PodEv (ListEv ''ns'' (tenantSelector ''t'' ''w'') (Inr [demoPod])),
      WorkloadEv (GetEv (nsName ''ns'' ''w'') (Inr demoWorkload)),
      ExecEv (tarArgs demoManager ''w-t-1'' [''/workspace'']) [] (ExecOk ''overlay'' [])] @ helperChecks @
     [ExecEv (writeArgs helperEnv demoManager ''t'' ''w'' ''overlay'') ''overlay'' (ExecOk [] []),
      SnapEv (ExtractEv ''w-t-1'' ''t'' ''w'' [''/workspace''] None),
      PodEv (DeleteEv (podKey demoPod) None), SecretEv (DeleteEv (tokenKey demoClaim) None), ClaimEv st]"
    using hibernated by (elim exE)
  have names: "safeName (claimTenantId (claimSpec demoClaim))" "safeName (claimWorkloadRef (claimSpec demoClaim))"
    "crSnapshots hibernateReconciler = Some (managerSnapshotter hibernateEnv demoManager)"
    by (simp_all add: safeName_def demo_names hibernateReconciler_def)
  have wl: "WorkloadEv (GetEv (nsName (Namespace (claimMeta demoClaim)) (claimWorkloadRef (claimSpec demoClaim)))
      (Inr demoWorkload)) \<in> set ?released" "overlayDirs demoWorkload \<noteq> []"
    by (simp_all add: released demo_names)
  have gone: "PodEv (DeleteEv (podKey demoPod) None) \<in> set ?released" "podKey demoPod \<noteq> helperKey (smNamespace demoManager)"
    by (simp_all add: released demo_names helperKey_def snapshotHelperPodName_def)
  have "list_all (spares hibernateEnv demoManager (claimTenantId (claimSpec demoClaim)) (claimWorkloadRef (claimSpec demoClaim))) []"
    by simp
  from conjunct1 [OF hibernate_resume [OF hibernateEnv_works hibernateEnv_pods names(3,1,2) refl wl gone this refl refl]]
  obtain pod a out where tar: "ExecEv (tarArgs demoManager (podName pod) (overlayDirs demoWorkload)) []
      (ExecOk a out) \<in> set ?released"
    and restores: "a = [] \<or> restores hibernateEnv demoManager (claimTenantId (claimSpec demoClaim))
      (claimWorkloadRef (claimSpec demoClaim)) demoPod a
      (appended (claimFromPool hibernateEnv hibernateReconciler demoClaim demoPod demoWorkload) ([] @ ?released @ []))"
    by fast
  from tar have "a = ''overlay''"
    by (auto simp: released helperChecks_def tarArgs_def writeArgs_def)
  with restores show ?thesis by (simp add: demo_names)
qed

end
