(* ===== verification/Api_Auth.thy ===== *)
theory Api_Auth
  imports World Scope
begin

text \<open>
  \<open>internal/api/auth.go\<close>, \<open>token_store.go\<close> and the authentication of \<open>server.go\<close>: who calls, what
  a token may do, and the in-memory index of token Secrets.  The index is a map from the
  SHA-256 of a token; the operations return it updated.
\<close>

section \<open>Callers\<close>

datatype AuthKind = AuthAdmin | AuthScoped

record AuthContext =
  acKind :: AuthKind
  acTenantID :: string
  acWorkload :: string
  acClaimID :: string
  acScopes :: "scope list"

definition adminContext :: AuthContext where
  "adminContext = \<lparr>acKind = AuthAdmin, acTenantID = [], acWorkload = [], acClaimID = [], acScopes = []\<rparr>"

definition HasScope :: "AuthContext \<Rightarrow> scope \<Rightarrow> bool" where
  "HasScope a s \<longleftrightarrow> acKind a = AuthAdmin \<or> s \<in> set (acScopes a)"

text \<open>A request carries the context \<open>authMiddleware\<close> attached, or none.\<close>

definition RequireScope :: "AuthContext option \<Rightarrow> scope \<Rightarrow> err option" where
  "RequireScope ctx s =
     (case ctx of
        None \<Rightarrow> Some (errorf ''unauthenticated'')
      | Some ac \<Rightarrow> if HasScope ac s then None else Some (errorf (''missing scope: '' @ s)))"

definition RequireOwnTenant :: "AuthContext option \<Rightarrow> string \<Rightarrow> err option" where
  "RequireOwnTenant ctx tenantID =
     (case ctx of
        None \<Rightarrow> Some (errorf ''unauthenticated'')
      | Some ac \<Rightarrow>
          if acKind ac = AuthAdmin then None
          else if acTenantID ac \<noteq> tenantID
          then Some (errorf (''cannot access another tenant'' @ [CHR 0x27] @ ''s resources''))
          else None)"

text \<open>A middleware passes the request on, with a context, or answers it.\<close>

datatype verdict = Pass "AuthContext option" | Reject int string

definition requireAdmin :: "AuthContext option \<Rightarrow> verdict" where
  "requireAdmin ctx =
     (case ctx of
        None \<Rightarrow> Pass None
      | Some ac \<Rightarrow> if acKind ac \<noteq> AuthAdmin then Reject 403 ''admin access required'' else Pass ctx)"

definition requireScope :: "scope \<Rightarrow> AuthContext option \<Rightarrow> verdict" where
  "requireScope s ctx =
     (case ctx of
        None \<Rightarrow> Pass None
      | Some ac \<Rightarrow> if \<not> HasScope ac s then Reject 403 (''missing scope: '' @ s) else Pass ctx)"

section \<open>The token store\<close>

record tokenEntry =
  teContext :: AuthContext
  teExpiresAt :: int

record TokenStore =
  tsNamespace :: string
  tsEntries :: "string \<rightharpoonup> tokenEntry"

definition parseScopeCSV :: "string \<Rightarrow> scope list" where
  "parseScopeCSV csv =
     (if csv = [] then [] else filter (\<lambda>p. p \<noteq> []) (map TrimSpace (Split csv (CHR '',''))))"

definition secretToAuth :: "env \<Rightarrow> Secret \<Rightarrow> AuthContext \<times> int" where
  "secretToAuth E sec =
     (let labels = Labels (secretMeta sec); ann = Annotations (secretMeta sec);
          s = lookupS ann AnnotationExpiresAt
      in (\<lparr>acKind = AuthScoped, acTenantID = lookupS labels tokenLabelTenant,
           acWorkload = lookupS labels tokenLabelWorkload, acClaimID = lookupS labels LabelClaim,
           acScopes = parseScopeCSV (lookupS ann AnnotationScopes)\<rparr>,
          if s \<noteq> [] then (case parse_rfc3339 E s of Some t \<Rightarrow> t | None \<Rightarrow> zeroTime) else zeroTime))"

definition putToken :: "env \<Rightarrow> string \<Rightarrow> AuthContext \<times> int \<Rightarrow> TokenStore \<Rightarrow> TokenStore" where
  "putToken E raw a s = s\<lparr>tsEntries := (tsEntries s)(sha256 E raw \<mapsto>
     \<lparr>teContext = fst a, teExpiresAt = snd a\<rparr>)\<rparr>"

definition onAddOrUpdate :: "env \<Rightarrow> Secret \<Rightarrow> TokenStore \<Rightarrow> TokenStore" where
  "onAddOrUpdate E sec s =
     (case secretData sec DataKey of None \<Rightarrow> s | Some raw \<Rightarrow> putToken E raw (secretToAuth E sec) s)"

text \<open>What the informer delivers on a deletion: a Secret, a tombstone, or something else.\<close>

datatype deleted = DeletedSecret Secret | Tombstone "Secret option" | NotASecret

definition onDelete :: "env \<Rightarrow> deleted \<Rightarrow> TokenStore \<Rightarrow> TokenStore" where
  "onDelete E obj s =
     (case (case obj of DeletedSecret sec \<Rightarrow> Some sec | Tombstone t \<Rightarrow> t | NotASecret \<Rightarrow> None) of
        None \<Rightarrow> s
      | Some sec \<Rightarrow> (case secretData sec DataKey of
          None \<Rightarrow> s
        | Some raw \<Rightarrow> s\<lparr>tsEntries := (tsEntries s)(sha256 E raw := None)\<rparr>))"

text \<open>\<open>!exp.IsZero() && time.Now().After(exp)\<close>: the clock is read only for a token that expires.\<close>

definition tokenExpired :: "env \<Rightarrow> int \<Rightarrow> bool io" where
  "tokenExpired E exp = (if isZeroTime exp then ret False else do { now \<leftarrow> timeNow E; ret (now > exp) })"

definition tokenSelector :: "(string \<times> string) list" where
  "tokenSelector = [(LabelAPIToken, ''true'')]"

definition coldLookup :: "env \<Rightarrow> string \<Rightarrow> TokenStore \<Rightarrow> (AuthContext option \<times> TokenStore) io" where
  "coldLookup E token s = do {
     l \<leftarrow> listObj SecretEv (secrets E) (tsNamespace s) tokenSelector;
     case l of
       Inl e \<Rightarrow> ret (None, s)
     | Inr secs \<Rightarrow>
         (case find (\<lambda>sec. secretData sec DataKey = Some token) secs of
            None \<Rightarrow> ret (None, s)
          | Some sec \<Rightarrow> do {
              late \<leftarrow> tokenExpired E (snd (secretToAuth E sec));
              if late then ret (None, s)
              else ret (Some (fst (secretToAuth E sec)), putToken E token (secretToAuth E sec) s)
            })
   }"

definition Lookup :: "env \<Rightarrow> string \<Rightarrow> TokenStore \<Rightarrow> (AuthContext option \<times> TokenStore) io" where
  "Lookup E token s =
     (if token = [] then ret (None, s)
      else case tsEntries s (sha256 E token) of
        Some entry \<Rightarrow> do {
          late \<leftarrow> tokenExpired E (teExpiresAt entry);
          ret (if late then None else Some (teContext entry), s)
        }
      | None \<Rightarrow> coldLookup E token s)"

section \<open>Authentication\<close>

record Server =
  srvNamespace :: string
  apiKey :: string
  corsOrigins :: "string list"

text \<open>\<open>auth\<close> is the Authorization header, empty when absent; \<open>tokens\<close> the store, if any.\<close>

definition authMiddleware :: "env \<Rightarrow> Server \<Rightarrow> TokenStore option \<Rightarrow> string
    \<Rightarrow> (verdict \<times> TokenStore option) io" where
  "authMiddleware E s tokens auth =
     (if apiKey s = [] then ret (Pass None, tokens)
      else if auth = [] then ret (Reject 401 ''missing Authorization header'', tokens)
      else let token = TrimPrefix auth ''Bearer ''
           in if token = auth then ret (Reject 401 ''missing Authorization header'', tokens)
              else if token = apiKey s then ret (Pass (Some adminContext), tokens)
              else case tokens of
                None \<Rightarrow> ret (Reject 401 ''invalid API key'', None)
              | Some ts \<Rightarrow> do {
                  r \<leftarrow> Lookup E token ts;
                  case r of
                    (Some ac, ts') \<Rightarrow> ret (Pass (Some ac), Some ts')
                  | (None, ts') \<Rightarrow> ret (Reject 401 ''invalid API key'', Some ts')
                })"

section \<open>Routes\<close>

text \<open>How \<open>buildRouter\<close> protects a route: open, admins only, or callers with a scope.\<close>

datatype protection = Open | AdminOnly | Scoped scope

definition routes :: "((string \<times> string) \<times> protection) list" where
  "routes =
     [((''GET'', ''/ws''), Open),
      ((''GET'', ''/api/v1/health''), Open),
      ((''GET'', ''/api/v1/stats''), Open),
      ((''POST'', ''/api/v1/workloads''), AdminOnly),
      ((''GET'', ''/api/v1/workloads''), AdminOnly),
      ((''GET'', ''/api/v1/workloads/{name}''), AdminOnly),
      ((''PUT'', ''/api/v1/workloads/{name}''), AdminOnly),
      ((''DELETE'', ''/api/v1/workloads/{name}''), AdminOnly),
      ((''GET'', ''/api/v1/workloads/{name}/snapshots''), AdminOnly),
      ((''GET'', ''/api/v1/snapshots''), AdminOnly),
      ((''POST'', ''/api/v1/tenants/{id}/claim''), AdminOnly),
      ((''POST'', ''/api/v1/tenants/{id}/release''), AdminOnly),
      ((''GET'', ''/api/v1/tenants/{id}''), AdminOnly),
      ((''GET'', ''/api/v1/tenants''), AdminOnly),
      ((''GET'', ''/api/v1/instances''), AdminOnly),
      ((''GET'', ''/api/v1/instances/{id}''), AdminOnly),
      ((''GET'', ''/api/v1/instances/{id}/logs''), AdminOnly),
      ((''POST'', ''/api/v1/instances/{id}/exec''), AdminOnly),
      ((''POST'', ''/api/v1/instances/{id}/destroy''), AdminOnly),
      ((''GET'', ''/api/v1/debug/resources''), AdminOnly),
      ((''GET'', ''/api/v1/triggers''), Scoped AgentTriggersRead),
      ((''GET'', ''/api/v1/triggers/{id}''), Scoped AgentTriggersRead),
      ((''POST'', ''/api/v1/triggers''), Scoped AgentTriggersWrite),
      ((''DELETE'', ''/api/v1/triggers/{id}''), Scoped AgentTriggersWrite)]"

text \<open>What reaches the handler of a route: the verdict of the middlewares in front of it.\<close>

definition admitRoute :: "env \<Rightarrow> Server \<Rightarrow> TokenStore option \<Rightarrow> protection \<Rightarrow> string
    \<Rightarrow> (verdict \<times> TokenStore option) io" where
  "admitRoute E s tokens p auth =
     (if p = Open then ret (Pass None, tokens)
      else do {
        r \<leftarrow> authMiddleware E s tokens auth;
        case r of (Reject c m, ts) \<Rightarrow> ret (Reject c m, ts)
        | (Pass ctx, ts) \<Rightarrow> ret (case p of Scoped sc \<Rightarrow> requireScope sc ctx | _ \<Rightarrow> requireAdmin ctx, ts)
      })"

text \<open>\<open>cors\<close>: the Access-Control-Allow-Origin header, and whether the request is answered here.\<close>

definition corsHeader :: "Server \<Rightarrow> string \<Rightarrow> string option" where
  "corsHeader s origin =
     (if list_ex (\<lambda>o'. o' = ''*'' \<or> o' = origin) (corsOrigins s) then Some origin else None)"

definition corsAnswers :: "Server \<Rightarrow> string \<Rightarrow> bool" where
  "corsAnswers s method \<longleftrightarrow> corsOrigins s \<noteq> [] \<and> method = ''OPTIONS''"

section \<open>The index as an interface\<close>

text \<open>
  What authentication needs of an index from tokens to entries: adding a token makes it found,
  dropping it makes it unknown, and tokens of another hash are not touched.
\<close>

locale token_index =
  fixes hash :: "string \<Rightarrow> string"
    and find_token :: "'s \<Rightarrow> string \<Rightarrow> 'e option"
    and add :: "string \<Rightarrow> 'e \<Rightarrow> 's \<Rightarrow> 's"
    and drop_token :: "string \<Rightarrow> 's \<Rightarrow> 's"
  assumes find_add: "find_token (add t e s) u = (if hash u = hash t then Some e else find_token s u)"
    and find_drop: "find_token (drop_token t s) u = (if hash u = hash t then None else find_token s u)"

text \<open>A history of the index: what the informer delivered, oldest first.\<close>

datatype 'e index_event = Added string 'e | Dropped string

fun lastEvent :: "(string \<Rightarrow> string) \<Rightarrow> string \<Rightarrow> 'e index_event list \<Rightarrow> 'e option option" where
  "lastEvent hash u [] = None"
| "lastEvent hash u (x # xs) =
     (case lastEvent hash u xs of
        Some r \<Rightarrow> Some r
      | None \<Rightarrow> (case x of
          Added t e \<Rightarrow> if hash u = hash t then Some (Some e) else None
        | Dropped t \<Rightarrow> if hash u = hash t then Some None else None))"

context token_index
begin

fun replay :: "'e index_event list \<Rightarrow> 's \<Rightarrow> 's" where
  "replay [] s = s"
| "replay (Added t e # xs) s = replay xs (add t e s)"
| "replay (Dropped t # xs) s = replay xs (drop_token t s)"

lemma find_replay:
  "find_token (replay xs s) u = (case lastEvent hash u xs of Some r \<Rightarrow> r | None \<Rightarrow> find_token s u)"
  by (induction xs s rule: replay.induct) (simp_all add: find_add find_drop split: option.split)

end

definition findEntry :: "env \<Rightarrow> TokenStore \<Rightarrow> string \<Rightarrow> tokenEntry option" where
  "findEntry E s token = tsEntries s (sha256 E token)"

definition addEntry :: "env \<Rightarrow> string \<Rightarrow> tokenEntry \<Rightarrow> TokenStore \<Rightarrow> TokenStore" where
  "addEntry E raw e s = putToken E raw (teContext e, teExpiresAt e) s"

definition dropEntry :: "env \<Rightarrow> string \<Rightarrow> TokenStore \<Rightarrow> TokenStore" where
  "dropEntry E raw s = s\<lparr>tsEntries := (tsEntries s)(sha256 E raw := None)\<rparr>"

interpretation store: token_index "sha256 E" "findEntry E" "addEntry E" "dropEntry E" for E
  by unfold_locales (simp_all add: findEntry_def addEntry_def putToken_def dropEntry_def)

section \<open>The store under the informer\<close>

datatype informer_event = SecretAdded Secret | SecretUpdated Secret Secret | SecretDeleted deleted

text \<open>The handlers registered by \<open>Start\<close>: an update looks at the new object only.\<close>

definition onInformer :: "env \<Rightarrow> informer_event \<Rightarrow> TokenStore \<Rightarrow> TokenStore" where
  "onInformer E ev s =
     (case ev of
        SecretAdded sec \<Rightarrow> onAddOrUpdate E sec s
      | SecretUpdated old new \<Rightarrow> onAddOrUpdate E new s
      | SecretDeleted d \<Rightarrow> onDelete E d s)"

definition indexEvents :: "env \<Rightarrow> informer_event \<Rightarrow> tokenEntry index_event list" where
  "indexEvents E ev =
     (let added = (\<lambda>sec. case secretData sec DataKey of None \<Rightarrow> []
         | Some raw \<Rightarrow> [Added raw \<lparr>teContext = fst (secretToAuth E sec),
                                  teExpiresAt = snd (secretToAuth E sec)\<rparr>])
      in case ev of
        SecretAdded sec \<Rightarrow> added sec
      | SecretUpdated old new \<Rightarrow> added new
      | SecretDeleted d \<Rightarrow>
          (case (case d of DeletedSecret sec \<Rightarrow> Some sec | Tombstone t \<Rightarrow> t | NotASecret \<Rightarrow> None) of
             None \<Rightarrow> []
           | Some sec \<Rightarrow> (case secretData sec DataKey of None \<Rightarrow> [] | Some raw \<Rightarrow> [Dropped raw])))"

lemma onInformer_replay: "onInformer E ev s = store.replay E (indexEvents E ev) s"
  by (simp add: onInformer_def indexEvents_def onAddOrUpdate_def onDelete_def addEntry_def dropEntry_def
      Let_def split: informer_event.split option.split deleted.split)

lemma replay_append: "store.replay E (xs @ ys) s = store.replay E ys (store.replay E xs s)"
proof (induction xs arbitrary: s)
  case (Cons x xs)
  then show ?case by (cases x) simp_all
qed simp

definition runInformer :: "env \<Rightarrow> informer_event list \<Rightarrow> TokenStore \<Rightarrow> TokenStore" where
  "runInformer E evs s = fold (onInformer E) evs s"

lemma runInformer_replay: "runInformer E evs s = store.replay E (concat (map (indexEvents E) evs)) s"
  by (induction evs arbitrary: s) (simp_all add: runInformer_def onInformer_replay replay_append)

lemma findEntry_runInformer:
  "findEntry E (runInformer E evs s) token =
     (case lastEvent (sha256 E) token (concat (map (indexEvents E) evs)) of
        Some r \<Rightarrow> r | None \<Rightarrow> findEntry E s token)"
  by (simp add: runInformer_replay store.find_replay)

section \<open>Lemmas\<close>

text \<open>Every entry is a scoped caller; no operation breaks this.\<close>

definition storeOk :: "TokenStore \<Rightarrow> bool" where
  "storeOk s \<longleftrightarrow> (\<forall>e \<in> ran (tsEntries s). acKind (teContext e) = AuthScoped)"

lemma secretToAuth_scoped [simp]: "acKind (fst (secretToAuth E sec)) = AuthScoped"
  by (simp add: secretToAuth_def Let_def)

lemma storeOk_put: "storeOk s \<Longrightarrow> storeOk (putToken E raw (secretToAuth E sec) s)"
  by (auto simp: storeOk_def putToken_def ran_def split: if_splits)

lemma storeOk_onInformer: "storeOk s \<Longrightarrow> storeOk (onInformer E ev s)"
  by (auto simp: onInformer_def onAddOrUpdate_def onDelete_def storeOk_put
      split: informer_event.splits option.splits)
    (auto simp: storeOk_def ran_def split: if_splits)

text \<open>What a successful lookup of \<open>token\<close> in \<open>s\<close> rests on, read off the events of the lookup.\<close>

definition notLate :: "int \<Rightarrow> event list \<Rightarrow> bool" where
  "notLate exp evs \<longleftrightarrow> isZeroTime exp \<or> list_ex (\<lambda>e. case e of TimeEv now \<Rightarrow> now \<le> exp | _ \<Rightarrow> False) evs"

definition grounded :: "env \<Rightarrow> TokenStore \<Rightarrow> string \<Rightarrow> AuthContext \<Rightarrow> event list \<Rightarrow> bool" where
  "grounded E s token ac evs \<longleftrightarrow>
     (case findEntry E s token of
        Some entry \<Rightarrow> ac = teContext entry \<and> notLate (teExpiresAt entry) evs
      | None \<Rightarrow> (\<exists>secs sec. SecretEv (ListEv (tsNamespace s) tokenSelector (Inr secs)) \<in> set evs \<and>
          sec \<in> set secs \<and> secretData sec DataKey = Some token \<and>
          ac = fst (secretToAuth E sec) \<and> notLate (snd (secretToAuth E sec)) evs))"

lemma wp_tokenExpired:
  assumes "\<And>evs. Q True (tr @ evs)" and "\<And>evs. notLate exp evs \<Longrightarrow> Q False (tr @ evs)"
  shows "wp (tokenExpired E exp) Q tr"
  using assms(1) [of "[TimeEv (time_now E tr)]"] assms(2) [of "[TimeEv (time_now E tr)]"] assms(2) [of "[]"]
  by (cases "exp < time_now E tr") (auto simp: tokenExpired_def wp_simps timeNow_def notLate_def)

lemma notLate_append: "notLate exp ys \<Longrightarrow> notLate exp (xs @ ys)"
  by (auto simp: notLate_def)

lemma notLate_Cons: "notLate exp ys \<Longrightarrow> notLate exp (x # ys)"
  using notLate_append [of exp ys "[x]"] by simp

lemma find_data:
  "find (\<lambda>sec. secretData sec DataKey = Some token) secs = Some sec \<Longrightarrow>
   sec \<in> set secs \<and> secretData sec DataKey = Some token"
  by (auto simp: find_Some_iff)

lemma wp_Lookup:
  assumes "storeOk s"
  shows "wp (Lookup E token s) (\<lambda>(r, s') tr'. storeOk s' \<and>
     (case r of None \<Rightarrow> True
      | Some ac \<Rightarrow> token \<noteq> [] \<and> acKind ac = AuthScoped \<and> grounded E s token ac (drop (length tr) tr'))) tr"
proof (cases "token = []")
  case True
  with assms show ?thesis by (simp add: Lookup_def wp_simps)
next
  case False
  show ?thesis
  proof (cases "tsEntries s (sha256 E token)")
    case (Some entry)
    with assms have "acKind (teContext entry) = AuthScoped" by (auto simp: storeOk_def ran_def)
    with False Some assms show ?thesis
      by (auto simp: Lookup_def wp_simps grounded_def findEntry_def intro!: wp_tokenExpired)
  next
    case None
    let ?l = "k_list (secrets E) tr (tsNamespace s) tokenSelector"
    have "wp (tokenExpired E (snd (secretToAuth E sec))) (\<lambda>late. wp (if late then ret (None, s)
        else ret (Some (fst (secretToAuth E sec)), putToken E token (secretToAuth E sec) s))
      (\<lambda>(r, s') tr'. storeOk s' \<and> (case r of None \<Rightarrow> True
      | Some ac \<Rightarrow> token \<noteq> [] \<and> acKind ac = AuthScoped \<and> grounded E s token ac (drop (length tr) tr'))))
      (tr @ [SecretEv (ListEv (tsNamespace s) tokenSelector (Inr secs))])"
      if "find (\<lambda>sec. secretData sec DataKey = Some token) secs = Some sec" for secs sec
      using find_data [OF that] assms None False
      by (intro wp_tokenExpired)
        (auto simp: wp_simps storeOk_put grounded_def findEntry_def intro!: exI [of _ secs] exI [of _ sec]
          intro: notLate_Cons)
    with False None assms show ?thesis
      by (simp add: Lookup_def coldLookup_def listObj_def wp_bind wp_call wp_ret wp_case_sum
          wp_case_option split: sum.split option.split)
  qed
qed

section \<open>Who reaches a route\<close>

text \<open>The caller of an admitted request, and what was checked.\<close>

definition callerOk :: "env \<Rightarrow> Server \<Rightarrow> TokenStore option \<Rightarrow> protection \<Rightarrow> string \<Rightarrow> AuthContext option
    \<Rightarrow> event list \<Rightarrow> bool" where
  "callerOk E s tokens p auth ctx evs \<longleftrightarrow>
     p = Open \<or> apiKey s = [] \<and> ctx = None \<or>
     (\<exists>token. auth = ''Bearer '' @ token \<and>
       (token = apiKey s \<and> ctx = Some adminContext \<or>
        (\<exists>ts ac sc. tokens = Some ts \<and> ctx = Some ac \<and> acKind ac = AuthScoped \<and>
           p = Scoped sc \<and> sc \<in> set (acScopes ac) \<and> grounded E ts token ac evs)))"

lemma bearer: "TrimPrefix auth ''Bearer '' \<noteq> auth \<Longrightarrow> \<exists>token. auth = ''Bearer '' @ token"
  by (auto simp: TrimPrefix_def HasPrefix_iff split: if_splits)

lemmas trim_bearer = TrimPrefix_append [of "''Bearer ''", unfolded append.simps]

definition admitted :: "env \<Rightarrow> Server \<Rightarrow> TokenStore option \<Rightarrow> protection \<Rightarrow> string
    \<Rightarrow> verdict \<times> 'a \<Rightarrow> event list \<Rightarrow> bool" where
  "admitted E s tokens p auth r evs =
     (case fst r of Reject c m \<Rightarrow> True | Pass ctx \<Rightarrow> callerOk E s tokens p auth ctx evs)"

definition guardRoute :: "protection \<Rightarrow> verdict \<times> TokenStore option \<Rightarrow> (verdict \<times> TokenStore option) io" where
  "guardRoute p r = (case r of (Reject c m, ts) \<Rightarrow> ret (Reject c m, ts)
     | (Pass ctx, ts) \<Rightarrow> ret (case p of Scoped sc \<Rightarrow> requireScope sc ctx | _ \<Rightarrow> requireAdmin ctx, ts))"

lemma wp_bind_eta: "wp (State_Monad.bind m f) Q = wp m (\<lambda>a. wp (f a) Q)"
  by (rule ext) (rule wp_bind)

lemma wp_lookup_admits:
  assumes "storeOk ts"
  shows "wp (Lookup E token ts) (\<lambda>r. wp (case r of (Some ac, ts') \<Rightarrow> ret (Pass (Some ac), Some ts')
      | (None, ts') \<Rightarrow> ret (Reject 401 ''invalid API key'', Some ts')) (\<lambda>r. wp (guardRoute p r)
      (\<lambda>r tr'. admitted E s (Some ts) p (''Bearer '' @ token) r (drop (length tr) tr')))) tr"
proof (rule wp_mono [OF wp_Lookup [OF assms]])
  fix r :: "AuthContext option \<times> TokenStore" and tr'
  assume "(\<lambda>(r, s') tr'. storeOk s' \<and> (case r of None \<Rightarrow> True
    | Some ac \<Rightarrow> token \<noteq> [] \<and> acKind ac = AuthScoped \<and> grounded E ts token ac (drop (length tr) tr'))) r tr'"
  then show "wp (case r of (Some ac, ts') \<Rightarrow> ret (Pass (Some ac), Some ts')
      | (None, ts') \<Rightarrow> ret (Reject 401 ''invalid API key'', Some ts')) (\<lambda>r. wp (guardRoute p r)
      (\<lambda>r tr'. admitted E s (Some ts) p (''Bearer '' @ token) r (drop (length tr) tr'))) tr'"
    by (auto simp: wp_simps guardRoute_def admitted_def requireScope_def requireAdmin_def HasScope_def
        callerOk_def split: option.splits protection.splits)
qed

lemma wp_admitRoute:
  assumes "case tokens of None \<Rightarrow> True | Some ts \<Rightarrow> storeOk ts"
  shows "wp (admitRoute E s tokens p auth) (\<lambda>r tr'. admitted E s tokens p auth r (drop (length tr) tr')) tr"
proof (cases "p = Open \<or> apiKey s = [] \<or> TrimPrefix auth ''Bearer '' = auth")
  case True
  then show ?thesis
    by (auto simp: admitRoute_def authMiddleware_def wp_simps Let_def admitted_def callerOk_def
        requireAdmin_def requireScope_def split: protection.splits)
next
  case False
  then obtain token where token: "auth = ''Bearer '' @ token" using bearer by blast
  show ?thesis
  proof (cases "token = apiKey s \<or> tokens = None")
    case True
    with False token show ?thesis
      by (auto simp: admitRoute_def authMiddleware_def wp_simps Let_def admitted_def callerOk_def
          adminContext_def requireAdmin_def requireScope_def HasScope_def trim_bearer
          split: protection.splits)
  next
    case notAdmin: False
    then obtain ts where ts: "tokens = Some ts" by auto
    with assms have "storeOk ts" by simp
    from wp_lookup_admits [OF this, of E token p s tr] False token notAdmin ts show ?thesis
      by (simp add: admitRoute_def authMiddleware_def guardRoute_def wp_bind_eta Let_def trim_bearer)
  qed
qed

section \<open>Properties\<close>

text \<open>
  C4. A request reaches a protected handler only in development mode (no API key), with the admin key as
  Bearer token, or, on a route that asks for a scope, with a token of that scope that the index holds
  or a listed token Secret carries and that has not expired by the clock read for it; an
  admin route is thus never reached with a claim's token.
\<close>

theorem admitted_callers:
  assumes "fst (result (admitRoute E s tokens p auth) tr) = Pass ctx"
    and "case tokens of None \<Rightarrow> True | Some ts \<Rightarrow> storeOk ts"
  shows "callerOk E s tokens p auth ctx (appended (admitRoute E s tokens p auth) tr)"
  using wp_admitRoute [OF assms(2), of E s p auth tr] assms(1)
  by (simp only: wp_appended [where Q = "\<lambda>r evs. admitted E s tokens p auth r evs"])
    (simp add: admitted_def)

text \<open>A server with a key, and one scoped token in its index.\<close>

definition demoServer :: Server where
  "demoServer = \<lparr>srvNamespace = ''ns'', apiKey = ''key'', corsOrigins = []\<rparr>"

definition demoCaller :: AuthContext where
  "demoCaller = \<lparr>acKind = AuthScoped, acTenantID = ''t'', acWorkload = ''w'', acClaimID = ''c'',
     acScopes = [AgentTriggersWrite]\<rparr>"

definition demoStore :: TokenStore where
  "demoStore = \<lparr>tsNamespace = ''ns'',
     tsEntries = [''tok'' \<mapsto> \<lparr>teContext = demoCaller, teExpiresAt = zeroTime\<rparr>]\<rparr>"

theorem admitted_callers_witness:
  "callerOk offlineEnv demoServer (Some demoStore) (Scoped AgentTriggersWrite) ''Bearer tok'' (Some demoCaller)
     (appended (admitRoute offlineEnv demoServer (Some demoStore) (Scoped AgentTriggersWrite) ''Bearer tok'') [])"
  by (rule admitted_callers [where ctx = "Some demoCaller"])
    (simp_all add: result_def admitRoute_def authMiddleware_def Lookup_def tokenExpired_def isZeroTime_def
      TrimPrefix_def HasPrefix_iff demoServer_def demoStore_def demoCaller_def storeOk_def offlineEnv_def
      requireScope_def HasScope_def)

text \<open>
  C34. The index after any history of informer deliveries answers a token with the entry of the last
  delivery about a token of the same hash: found if that added it, unknown if it deleted it.  An update
  is an addition of the new token only, so the token a Secret held before stays valid.
\<close>

theorem index_last_event:
  "findEntry E (runInformer E evs s) token =
     (case lastEvent (sha256 E) token (concat (map (indexEvents E) evs)) of
        Some r \<Rightarrow> r | None \<Rightarrow> findEntry E s token)"
  by (rule findEntry_runInformer)

end
