(* ===== verification/Api_Claims.thy ===== *)
theory Api_Claims
  imports Api_Auth
begin

text \<open>
  \<open>internal/api/claims.go\<close> and the tenant routes of \<open>routes_tenant.go\<close>: acquiring, polling and
  releasing the claim of a tenant.  A handler's request is what the router and the JSON decoder
  give it, its reply the status with the error text or the value.  The poll runs on the clock,
  so it is given fuel.
\<close>

datatype 'a reply = Failed int string | Done int 'a

datatype acquireOutcome = OutcomeCreated | OutcomeExistingActive

definition apiClaimName :: "string \<Rightarrow> string \<Rightarrow> string" where
  "apiClaimName tenantID wlName = ''claim-'' @ tenantID @ ''-'' @ wlName"

definition apiLastActivity :: string where "apiLastActivity = ''boilerhouse.dev/last-activity''"
definition apiLabelTenant :: string where "apiLabelTenant = ''boilerhouse.dev/tenant''"

definition freshClaim :: "env \<Rightarrow> Server \<Rightarrow> string \<Rightarrow> string \<Rightarrow> bool option \<Rightarrow> int \<Rightarrow> BoilerhouseClaim" where
  "freshClaim E s tenantID wlName resume now =
     \<lparr>claimMeta = (objectMeta (apiClaimName tenantID wlName) (srvNamespace s))
        \<lparr>Labels := [apiLabelTenant \<mapsto> tenantID],
         Annotations := [apiLastActivity \<mapsto> format_rfc3339 E now]\<rparr>,
      claimSpec = \<lparr>claimTenantId = tenantID, claimWorkloadRef = wlName, claimResume = resume\<rparr>,
      claimStatus = emptyClaimStatus\<rparr>"

definition createFresh :: "env \<Rightarrow> Server \<Rightarrow> string \<Rightarrow> string \<Rightarrow> bool option
    \<Rightarrow> (err + BoilerhouseClaim \<times> acquireOutcome) io" where
  "createFresh E s tenantID wlName resume = do {
     now \<leftarrow> timeNow E;
     c \<leftarrow> createObj ClaimEv (claims E) (freshClaim E s tenantID wlName resume now);
     case c of
       Inl e \<Rightarrow> ret (Inl (wrapf ''create claim'' e))
     | Inr claim \<Rightarrow> ret (Inr (claim, OutcomeCreated))
   }"

text \<open>\<open>len(existing.Finalizers) > 0\<close>: the finalizers are dropped before the delete.\<close>

definition clearFinalizers :: "env \<Rightarrow> BoilerhouseClaim \<Rightarrow> (err + BoilerhouseClaim) io" where
  "clearFinalizers E existing =
     (if Finalizers (claimMeta existing) = [] then ret (Inr existing)
      else do {
        u \<leftarrow> updateObj ClaimEv (claims E)
               (existing\<lparr>claimMeta := (claimMeta existing)\<lparr>Finalizers := []\<rparr>\<rparr>);
        case u of
          Inl e \<Rightarrow> ret (Inl (wrapf ''clear finalizer'' e))
        | Inr c \<Rightarrow> ret (Inr c)
      })"

definition acquireClaim :: "env \<Rightarrow> Server \<Rightarrow> string \<Rightarrow> string \<Rightarrow> bool option
    \<Rightarrow> (err + BoilerhouseClaim \<times> acquireOutcome) io" where
  "acquireClaim E s tenantID wlName resume = do {
     g \<leftarrow> getObj ClaimEv (claims E) (nsName (srvNamespace s) (apiClaimName tenantID wlName));
     case g of
       Inl _ \<Rightarrow> createFresh E s tenantID wlName resume
     | Inr existing \<Rightarrow>
         if claimPhase (claimStatus existing) = ''Released''
         then do {
           f \<leftarrow> clearFinalizers E existing;
           case f of
             Inl e \<Rightarrow> ret (Inl e)
           | Inr existing \<Rightarrow> do {
               d \<leftarrow> deleteObj ClaimEv (claims E) (keyOf (claimMeta existing));
               case deleteFailed d of
                 Some e \<Rightarrow> ret (Inl (wrapf ''delete old claim'' e))
               | None \<Rightarrow> do {
                   slept \<leftarrow> waitTimer E (500 * 1000000);
                   createFresh E s tenantID wlName resume
                 }
             }
         }
         else if claimPhase (claimStatus existing) = ''Active''
         then ret (Inr (existing, OutcomeExistingActive))
         else createFresh E s tenantID wlName resume
   }"

section \<open>Polling\<close>

fun pollRounds :: "env \<Rightarrow> NamespacedName \<Rightarrow> int \<Rightarrow> int \<Rightarrow> nat \<Rightarrow> (err + BoilerhouseClaim) option io" where
  "pollRounds E key deadline interval 0 = ret None"
| "pollRounds E key deadline interval (Suc n) = do {
     now \<leftarrow> timeNow E;
     if now < deadline
     then do {
       g \<leftarrow> getObj ClaimEv (claims E) key;
       case g of
         Inl e \<Rightarrow> ret (Some (Inl e))
       | Inr claim \<Rightarrow>
           if claimPhase (claimStatus claim) = ''Active'' \<or> claimPhase (claimStatus claim) = ''Error''
           then ret (Some (Inr claim))
           else do {
             fired \<leftarrow> waitTimer E interval;
             if fired then pollRounds E key deadline interval n
             else ret (Some (Inl (errorf ''context canceled'')))
           }
     }
     else do {
       g \<leftarrow> getObj ClaimEv (claims E) key;
       ret (Some g)
     }
   }"

definition pollClaim :: "env \<Rightarrow> Server \<Rightarrow> string \<Rightarrow> int \<Rightarrow> int \<Rightarrow> nat
    \<Rightarrow> (err + BoilerhouseClaim) option io" where
  "pollClaim E s name timeout interval n = do {
     now \<leftarrow> timeNow E;
     pollRounds E (nsName (srvNamespace s) name) (now + timeout) interval n
   }"

section \<open>The tenant routes\<close>

record claimRequest =
  rqWorkload :: string
  rqWorkloadRef :: string
  rqResume :: "bool option"

definition requestWorkload :: "claimRequest \<Rightarrow> string" where
  "requestWorkload c = (if rqWorkload c \<noteq> [] then rqWorkload c else rqWorkloadRef c)"

record claimResponse =
  crTenantId :: string
  crPhase :: string
  crInstanceId :: string
  crEndpoint :: "ClaimEndpoint option"
  crSource :: string
  crClaimedAt :: string
  crDetail :: string

text \<open>\<open>UTC().Format\<close> with the layout \<open>2006-01-02T15:04:05Z\<close> is RFC 3339 of a UTC time.\<close>

definition toClaimResponse :: "env \<Rightarrow> BoilerhouseClaim \<Rightarrow> claimResponse" where
  "toClaimResponse E c =
     \<lparr>crTenantId = claimTenantId (claimSpec c), crPhase = claimPhase (claimStatus c),
      crInstanceId = InstanceId (claimStatus c), crEndpoint = Endpoint (claimStatus c),
      crSource = Source (claimStatus c),
      crClaimedAt = (case ClaimedAt (claimStatus c) of None \<Rightarrow> [] | Some t \<Rightarrow> format_rfc3339 E t),
      crDetail = claimDetail (claimStatus c)\<rparr>"

text \<open>\<open>body\<close> is the decoded request, or the decoder's error.\<close>

definition claimInstance :: "env \<Rightarrow> Server \<Rightarrow> string \<Rightarrow> err + claimRequest \<Rightarrow> nat
    \<Rightarrow> claimResponse reply option io" where
  "claimInstance E s tenantID body n =
     (case body of
        Inl e \<Rightarrow> ret (Some (Failed 400 (''invalid JSON: '' @ err_msg e)))
      | Inr req \<Rightarrow>
          if requestWorkload req = [] then ret (Some (Failed 400 ''workload is required''))
          else do {
            a \<leftarrow> acquireClaim E s tenantID (requestWorkload req) (rqResume req);
            case a of
              Inl e \<Rightarrow> ret (Some (Failed 500 (err_msg e)))
            | Inr (claim, outcome) \<Rightarrow>
                if outcome = OutcomeExistingActive then ret (Some (Done 200 (toClaimResponse E claim)))
                else do {
                  p \<leftarrow> pollClaim E s (Name (claimMeta claim)) (30 * second) (500 * 1000000) n;
                  ret (case p of
                         None \<Rightarrow> None
                       | Some (Inl e) \<Rightarrow> Some (Failed 500 (''failed polling claim: '' @ err_msg e))
                       | Some (Inr c) \<Rightarrow> Some (Done 201 (toClaimResponse E c)))
                }
          })"

definition releaseInstance :: "env \<Rightarrow> Server \<Rightarrow> string \<Rightarrow> err + claimRequest \<Rightarrow> string reply io" where
  "releaseInstance E s tenantID body =
     (case body of
        Inl e \<Rightarrow> ret (Failed 400 (''invalid JSON: '' @ err_msg e))
      | Inr req \<Rightarrow>
          if requestWorkload req = [] then ret (Failed 400 ''workload is required'')
          else do {
            d \<leftarrow> deleteObj ClaimEv (claims E)
                   (nsName (srvNamespace s) (apiClaimName tenantID (requestWorkload req)));
            ret (case d of
                   Some e \<Rightarrow> Failed 404 (''claim not found: '' @ err_msg e)
                 | None \<Rightarrow> Done 200 tenantID)
          })"

definition getTenant :: "env \<Rightarrow> Server \<Rightarrow> string \<Rightarrow> claimResponse list reply io" where
  "getTenant E s tenantID = do {
     l \<leftarrow> listObj ClaimEv (claims E) (srvNamespace s) [(apiLabelTenant, tenantID)];
     ret (case l of
            Inl e \<Rightarrow> Failed 500 (''failed to list claims: '' @ err_msg e)
          | Inr cs \<Rightarrow> if cs = [] then Failed 404 ''tenant not found''
                      else Done 200 (map (toClaimResponse E) cs))
   }"

text \<open>The claims grouped by tenant; Go's map iteration fixes no order of the groups.\<close>

definition claimsOf :: "BoilerhouseClaim list \<Rightarrow> string \<Rightarrow> BoilerhouseClaim list" where
  "claimsOf cs t = filter (\<lambda>c. claimTenantId (claimSpec c) = t) cs"

definition listTenants :: "env \<Rightarrow> Server \<Rightarrow> (string \<times> claimResponse list) list reply io" where
  "listTenants E s = do {
     l \<leftarrow> listObj ClaimEv (claims E) (srvNamespace s) [];
     ret (case l of
            Inl e \<Rightarrow> Failed 500 (''failed to list claims: '' @ err_msg e)
          | Inr cs \<Rightarrow> Done 200 (map (\<lambda>t. (t, map (toClaimResponse E) (claimsOf cs t)))
              (remdups (map (\<lambda>c. claimTenantId (claimSpec c)) cs))))
   }"

section \<open>Lemmas\<close>

text \<open>A clock that moves on by the length of every wait.\<close>

definition waitedFor :: "event list \<Rightarrow> int" where
  "waitedFor evs = sum_list (map (\<lambda>e. case e of WaitEv d b \<Rightarrow> d | _ \<Rightarrow> 0) evs)"

definition steadyClock :: "env \<Rightarrow> bool" where
  "steadyClock E \<longleftrightarrow> (\<forall>tr evs. time_now E tr + waitedFor evs \<le> time_now E (tr @ evs))"

lemma steadyClockD: "steadyClock E \<Longrightarrow> time_now E tr + waitedFor evs \<le> time_now E (tr @ evs)"
  by (simp add: steadyClock_def)

lemma waitedFor_simps [simp]:
  "waitedFor [] = 0" "waitedFor (WaitEv d b # evs) = d + waitedFor evs"
  "waitedFor (ClaimEv ce # evs) = waitedFor evs" "waitedFor (TimeEv t # evs) = waitedFor evs"
  by (simp_all add: waitedFor_def)

lemma wp_pollRounds_ends:
  assumes "steadyClock E" and "deadline \<le> time_now E tr + interval * int n"
  shows "wp (pollRounds E key deadline interval (Suc n)) (\<lambda>r tr'. r \<noteq> None) tr"
  using assms(2)
proof (induction n arbitrary: tr)
  case 0
  then show ?case by (simp add: wp_simps timeNow_def getObj_def)
next
  case (Suc n)
  have "wp (pollRounds E key deadline interval (Suc n)) (\<lambda>r tr'. r \<noteq> None)
    (tr @ [TimeEv t, ClaimEv ce, WaitEv interval b])" for t ce b
  proof (rule Suc.IH)
    have "time_now E tr + interval \<le> time_now E (tr @ [TimeEv t, ClaimEv ce, WaitEv interval b])"
      using steadyClockD [OF assms(1), of tr "[TimeEv t, ClaimEv ce, WaitEv interval b]"] by simp
    with Suc.prems show "deadline \<le>
        time_now E (tr @ [TimeEv t, ClaimEv ce, WaitEv interval b]) + interval * int n"
      by (simp add: algebra_simps)
  qed
  then show ?case
    by (subst pollRounds.simps)
      (auto simp: wp_bind wp_call wp_ret waitTimer_def getObj_def timeNow_def
        simp del: pollRounds.simps split: sum.split)
qed

lemma wp_pollClaim_ends:
  assumes "steadyClock E" and "timeout \<le> interval * int n"
  shows "wp (pollClaim E s name timeout interval (Suc n)) (\<lambda>r tr'. r \<noteq> None) tr"
proof -
  have "time_now E tr \<le> time_now E (tr @ [TimeEv t])" for t
    using steadyClockD [OF assms(1), of tr "[TimeEv t]"] by simp
  then have "wp (pollRounds E k (time_now E tr + timeout) interval (Suc n)) (\<lambda>r tr'. r \<noteq> None)
      (tr @ [TimeEv t])" for t k
    by (intro wp_pollRounds_ends [OF assms(1)]) (use assms(2) in \<open>smt (verit)\<close>)
  then show ?thesis
    by (simp add: pollClaim_def timeNow_def wp_bind wp_call del: pollRounds.simps)
qed

section \<open>Properties\<close>

text \<open>
  The poll for a claim ends: with a clock that advances by every wait, one round more than fit into
  the timeout is enough fuel, whatever the API server answers.
\<close>

theorem api_poll_ends:
  assumes "steadyClock E" and "timeout \<le> interval * int n"
  shows "result (pollClaim E s name timeout interval (Suc n)) tr \<noteq> None"
  using wp_pollClaim_ends [OF assms, of s name tr]
  by (simp only: wp_appended [where Q = "\<lambda>r evs. r \<noteq> None"] not_False_eq_True)

text \<open>A clock that counts the waits, and a claim that stays pending.\<close>

definition steadyEnv :: env where
  "steadyEnv = offlineEnv\<lparr>time_now := waitedFor,
     claims := offlineKind\<lparr>k_get := \<lambda>_ k. Inr (freshClaim offlineEnv demoServer ''t'' ''w'' None 0)\<rparr>\<rparr>"

theorem api_poll_ends_witness:
  "result (pollClaim steadyEnv demoServer ''claim-t-w'' (30 * second) 500000000 61) [] \<noteq> None"
  using api_poll_ends [of steadyEnv "30 * second" 500000000 60 demoServer "''claim-t-w''" "[]"]
  by (simp add: steadyClock_def steadyEnv_def waitedFor_def second_def)

text \<open>
  Acquiring a claim through the API: an active claim is returned untouched, a released one is
  replaced, and for a claim in any other phase the handler tries to create one of the same name;
  so when the API server refuses a name that is taken, a pending or failed claim makes it fail.
\<close>

theorem acquire_existing:
  assumes "k_get (claims E) tr (nsName (srvNamespace s) (apiClaimName t w)) = Inr c"
    and "claimPhase (claimStatus c) \<noteq> ''Released''"
  shows "result (acquireClaim E s t w resume) tr =
    (if claimPhase (claimStatus c) = ''Active'' then Inr (c, OutcomeExistingActive)
     else result (createFresh E s t w resume)
       (tr @ [ClaimEv (GetEv (nsName (srvNamespace s) (apiClaimName t w)) (Inr c))]))"
  using assms by (simp add: result_def acquireClaim_def getObj_def)

theorem acquire_existing_witness:
  "result (acquireClaim steadyEnv demoServer ''t'' ''w'' None) [] =
   result (createFresh steadyEnv demoServer ''t'' ''w'' None)
     [ClaimEv (GetEv (nsName ''ns'' (apiClaimName ''t'' ''w'')) (Inr (freshClaim offlineEnv demoServer ''t'' ''w'' None 0)))]"
  using acquire_existing [of steadyEnv "[]" demoServer "''t''" "''w''"
      "freshClaim offlineEnv demoServer ''t'' ''w'' None 0" None]
  by (simp add: steadyEnv_def demoServer_def freshClaim_def emptyClaimStatus_def)

end
