(* ===== verification/Api_Resources.thy ===== *)
theory Api_Resources
  imports Api_Claims Snapshots
begin

text \<open>
  The admin routes of \<open>internal/api\<close> other than tenants and triggers: \<open>routes_instance.go\<close>,
  \<open>routes_workload.go\<close>, \<open>routes_snapshot.go\<close> and \<open>routes_system.go\<close>.  As in Api_Claims a request is what the
  router and the JSON decoder give a handler, and a reply the status with the error text or the value.
\<close>

section \<open>Instances\<close>

definition apiLabelManaged :: string where "apiLabelManaged = ''boilerhouse.dev/managed''"
definition apiLabelWorkload :: string where "apiLabelWorkload = ''boilerhouse.dev/workload''"

record instanceResponse =
  irName :: string
  irPhase :: string
  irTenantId :: string
  irWorkloadRef :: string
  irIP :: string
  irLabels :: "string \<rightharpoonup> string"
  irCreatedAt :: string
  irLastActivity :: string
  irClaimedAt :: string

definition toInstanceResponse :: "env \<Rightarrow> Pod \<Rightarrow> instanceResponse" where
  "toInstanceResponse E pod =
     \<lparr>irName = podName pod, irPhase = podPhase (podStatus pod),
      irTenantId = lookupS (Labels (podMeta pod)) apiLabelTenant,
      irWorkloadRef = lookupS (Labels (podMeta pod)) apiLabelWorkload,
      irIP = PodIP (podStatus pod), irLabels = Labels (podMeta pod),
      irCreatedAt = format_rfc3339 E (CreationTimestamp (podMeta pod)),
      irLastActivity = [], irClaimedAt = []\<rparr>"

text \<open>\<open>claimByInstance\<close>: of the claims with an instance, the last one listed for it.\<close>

definition claimByInstance :: "BoilerhouseClaim list \<Rightarrow> string \<Rightarrow> BoilerhouseClaim option" where
  "claimByInstance cs = mapOfEntries (map (\<lambda>c. (InstanceId (claimStatus c), c))
     (filter (\<lambda>c. InstanceId (claimStatus c) \<noteq> []) cs))"

definition instanceEntry :: "env \<Rightarrow> BoilerhouseClaim list \<Rightarrow> Pod \<Rightarrow> instanceResponse" where
  "instanceEntry E cs pod =
     (let resp = toInstanceResponse E pod
      in case claimByInstance cs (irName resp) of
           None \<Rightarrow> resp
         | Some c \<Rightarrow> resp\<lparr>irLastActivity := lookupS (Annotations (claimMeta c)) apiLastActivity,
             irClaimedAt := (case ClaimedAt (claimStatus c) of None \<Rightarrow> [] | Some t \<Rightarrow> format_rfc3339 E t)\<rparr>)"

definition listInstances :: "env \<Rightarrow> Server \<Rightarrow> instanceResponse list reply io" where
  "listInstances E s = do {
     l \<leftarrow> listObj PodEv (pods E) (srvNamespace s) [(apiLabelManaged, ''true'')];
     case l of
       Inl e \<Rightarrow> ret (Failed 500 (''failed to list instances: '' @ err_msg e))
     | Inr ps \<Rightarrow> do {
         c \<leftarrow> listObj ClaimEv (claims E) (srvNamespace s) [];
         ret (Done 200 (map (instanceEntry E (case c of Inl _ \<Rightarrow> [] | Inr cs \<Rightarrow> cs)) ps))
       }
   }"

definition getInstance :: "env \<Rightarrow> Server \<Rightarrow> string \<Rightarrow> instanceResponse reply io" where
  "getInstance E s i = do {
     g \<leftarrow> getObj PodEv (pods E) (nsName (srvNamespace s) i);
     ret (case g of
            Inl e \<Rightarrow> Failed 404 (''instance not found: '' @ err_msg e)
          | Inr pod \<Rightarrow> Done 200 (toInstanceResponse E pod))
   }"

text \<open>\<open>strconv.Atoi\<close>: an optional sign and decimal digits, in the range of \<open>int\<close>.\<close>

definition isDigit :: "char \<Rightarrow> bool" where
  "isDigit c \<longleftrightarrow> 48 \<le> (of_char c :: nat) \<and> (of_char c :: nat) \<le> 57"

definition Atoi :: "string \<Rightarrow> int option" where
  "Atoi s =
     (let neg = HasPrefix s ''-'';
          ds = (if neg \<or> HasPrefix s ''+'' then tl s else s);
          v = (if neg then - int (decValue ds) else int (decValue ds))
      in if ds \<noteq> [] \<and> list_all isDigit ds \<and> - (2 ^ 63) \<le> v \<and> v < 2 ^ 63 then Some v else None)"

definition tailArgs :: "string \<Rightarrow> string list" where
  "tailArgs tailLines =
     (case Atoi tailLines of
        Some n \<Rightarrow> if n > 0 then [''--tail'', Itoa n] else []
      | None \<Rightarrow> [])"

text \<open>The error of \<open>cmd.Output()\<close> or \<open>cmd.Run()\<close>.\<close>

definition exitError :: "int \<Rightarrow> string" where
  "exitError code = ''exit status '' @ Itoa code"

definition getInstanceLogs :: "env \<Rightarrow> Server \<Rightarrow> string \<Rightarrow> string \<Rightarrow> string reply io" where
  "getInstanceLogs E s i tailLines = do {
     g \<leftarrow> getObj PodEv (pods E) (nsName (srvNamespace s) i);
     case g of
       Inl e \<Rightarrow> ret (Failed 404 (''instance not found: '' @ err_msg e))
     | Inr _ \<Rightarrow> do {
         r \<leftarrow> execCmd E ([''kubectl'', ''logs'', i, ''-n'', srvNamespace s] @ tailArgs tailLines) [];
         ret (case r of
                ExecOk out _ \<Rightarrow> Done 200 out
              | ExecExit c _ _ \<Rightarrow> Failed 500 (''failed to get logs: '' @ exitError c)
              | ExecError e \<Rightarrow> Failed 500 (''failed to get logs: '' @ err_msg e))
       }
   }"

record execResponse =
  exStdout :: string
  exStderr :: string
  exExitCode :: int

text \<open>\<open>body\<close> is the decoded command, or the decoder's error.\<close>

definition execInInstance :: "env \<Rightarrow> Server \<Rightarrow> string \<Rightarrow> err + string list \<Rightarrow> execResponse reply io" where
  "execInInstance E s i body =
     (case body of
        Inl e \<Rightarrow> ret (Failed 400 (''invalid JSON: '' @ err_msg e))
      | Inr command \<Rightarrow>
          if command = [] then ret (Failed 400 ''command is required'')
          else do {
            r \<leftarrow> execCmd E ([''kubectl'', ''exec'', i, ''-n'', srvNamespace s, ''--''] @ command) [];
            ret (let trim = (\<lambda>t. TrimRight t (CHR 0x0A))
                 in case r of
                      ExecOk out errOut \<Rightarrow> Done 200 \<lparr>exStdout = trim out, exStderr = trim errOut, exExitCode = 0\<rparr>
                    | ExecExit c out errOut \<Rightarrow>
                        Done 200 \<lparr>exStdout = trim out, exStderr = trim errOut, exExitCode = c\<rparr>
                    | ExecError e \<Rightarrow> Failed 500 (''exec failed: '' @ err_msg e))
          })"

definition destroyInstance :: "env \<Rightarrow> Server \<Rightarrow> string \<Rightarrow> string reply io" where
  "destroyInstance E s i = do {
     g \<leftarrow> getObj PodEv (pods E) (nsName (srvNamespace s) i);
     case g of
       Inl e \<Rightarrow> ret (Failed 404 (''instance not found: '' @ err_msg e))
     | Inr pod \<Rightarrow> do {
         d \<leftarrow> deleteObj PodEv (pods E) (podKey pod);
         ret (case d of
                Some e \<Rightarrow> Failed 500 (''failed to destroy instance: '' @ err_msg e)
              | None \<Rightarrow> Done 200 i)
       }
   }"

section \<open>Workloads\<close>

record workloadRequest =
  wqName :: string
  wqSpec :: BoilerhouseWorkloadSpec

record workloadResponse =
  wrName :: string
  wrSpec :: BoilerhouseWorkloadSpec
  wrStatus :: BoilerhouseWorkloadStatus
  wrCreatedAt :: string

definition toWorkloadResponse :: "env \<Rightarrow> BoilerhouseWorkload \<Rightarrow> workloadResponse" where
  "toWorkloadResponse E wl =
     \<lparr>wrName = Name (wlMeta wl), wrSpec = wlSpec wl, wrStatus = wlStatus wl,
      wrCreatedAt = format_rfc3339 E (CreationTimestamp (wlMeta wl))\<rparr>"

definition newWorkload :: "Server \<Rightarrow> workloadRequest \<Rightarrow> BoilerhouseWorkload" where
  "newWorkload s req =
     zeroWorkload\<lparr>wlMeta := objectMeta (wqName req) (srvNamespace s), wlSpec := wqSpec req\<rparr>"

definition createWorkload :: "env \<Rightarrow> Server \<Rightarrow> err + workloadRequest \<Rightarrow> workloadResponse reply io" where
  "createWorkload E s body =
     (case body of
        Inl e \<Rightarrow> ret (Failed 400 (''invalid JSON: '' @ err_msg e))
      | Inr req \<Rightarrow>
          if wqName req = [] then ret (Failed 400 ''name is required'')
          else do {
            c \<leftarrow> createObj WorkloadEv (workloads E) (newWorkload s req);
            ret (case c of
                   Inl e \<Rightarrow> Failed 500 (''failed to create workload: '' @ err_msg e)
                 | Inr wl \<Rightarrow> Done 201 (toWorkloadResponse E wl))
          })"

definition listWorkloads :: "env \<Rightarrow> Server \<Rightarrow> workloadResponse list reply io" where
  "listWorkloads E s = do {
     l \<leftarrow> listObj WorkloadEv (workloads E) (srvNamespace s) [];
     ret (case l of
            Inl e \<Rightarrow> Failed 500 (''failed to list workloads: '' @ err_msg e)
          | Inr ws \<Rightarrow> Done 200 (map (toWorkloadResponse E) ws))
   }"

definition getWorkload :: "env \<Rightarrow> Server \<Rightarrow> string \<Rightarrow> workloadResponse reply io" where
  "getWorkload E s name = do {
     g \<leftarrow> getObj WorkloadEv (workloads E) (nsName (srvNamespace s) name);
     ret (case g of
            Inl e \<Rightarrow> Failed 404 (''workload not found: '' @ err_msg e)
          | Inr wl \<Rightarrow> Done 200 (toWorkloadResponse E wl))
   }"

definition updateWorkload :: "env \<Rightarrow> Server \<Rightarrow> string \<Rightarrow> err + workloadRequest \<Rightarrow> workloadResponse reply io" where
  "updateWorkload E s name body =
     (case body of
        Inl e \<Rightarrow> ret (Failed 400 (''invalid JSON: '' @ err_msg e))
      | Inr req \<Rightarrow> do {
          g \<leftarrow> getObj WorkloadEv (workloads E) (nsName (srvNamespace s) name);
          case g of
            Inl e \<Rightarrow> ret (Failed 404 (''workload not found: '' @ err_msg e))
          | Inr wl \<Rightarrow> do {
              u \<leftarrow> updateObj WorkloadEv (workloads E) (wl\<lparr>wlSpec := wqSpec req\<rparr>);
              ret (case u of
                     Inl e \<Rightarrow> Failed 500 (''failed to update workload: '' @ err_msg e)
                   | Inr wl' \<Rightarrow> Done 200 (toWorkloadResponse E wl'))
            }
        })"

definition deleteWorkload :: "env \<Rightarrow> Server \<Rightarrow> string \<Rightarrow> string reply io" where
  "deleteWorkload E s name = do {
     d \<leftarrow> deleteObj WorkloadEv (workloads E) (nsName (srvNamespace s) name);
     ret (case d of
            Some e \<Rightarrow> Failed 404 (''workload not found: '' @ err_msg e)
          | None \<Rightarrow> Done 200 ''deleted'')
   }"

section \<open>Snapshots\<close>

definition apiSnapshotHelperPod :: string where
  "apiSnapshotHelperPod = ''boilerhouse-snapshot-helper''"

record snapshotEntry =
  seTenantId :: string
  seWorkloadRef :: string
  sePath :: string

text \<open>\<open>filepath.Base\<close>\<close>

definition pathBase :: "string \<Rightarrow> string" where
  "pathBase p =
     (if p = [] then ''.''
      else let q = TrimRight p (CHR ''/'')
           in if q = [] then ''/'' else rev (takeWhile (\<lambda>c. c \<noteq> CHR ''/'') (rev q)))"

definition snapshotOfLine :: "string \<Rightarrow> snapshotEntry list" where
  "snapshotOfLine line0 =
     (let line = TrimSpace line0
      in if line = [] then []
         else (case SplitN2 (TrimPrefix line ''/snapshots/'') (CHR ''/'') of
                 [tenantId, rest] \<Rightarrow>
                   [\<lparr>seTenantId = tenantId, seWorkloadRef = TrimSuffix (pathBase rest) ''.tar.gz'', sePath = line\<rparr>]
               | _ \<Rightarrow> []))"

definition snapshotsOfOutput :: "string \<Rightarrow> snapshotEntry list" where
  "snapshotsOfOutput out = concat (map snapshotOfLine (Split (TrimSpace out) (CHR 0x0A)))"

definition discoverSnapshots :: "env \<Rightarrow> Server \<Rightarrow> (err + snapshotEntry list) io" where
  "discoverSnapshots E s = do {
     r \<leftarrow> execCmd E [''kubectl'', ''exec'', apiSnapshotHelperPod, ''-n'', srvNamespace s, ''--'', ''find'',
            ''/snapshots'', ''-name'', ''*.tar.gz'', ''-type'', ''f''] [];
     ret (case r of
            ExecOk out _ \<Rightarrow> Inr (snapshotsOfOutput out)
          | ExecExit c _ _ \<Rightarrow> Inl (errorf (exitError c))
          | ExecError e \<Rightarrow> Inl e)
   }"

definition listSnapshots :: "env \<Rightarrow> Server \<Rightarrow> snapshotEntry list reply io" where
  "listSnapshots E s = do {
     r \<leftarrow> discoverSnapshots E s;
     ret (Done 200 (case r of Inl _ \<Rightarrow> [] | Inr es \<Rightarrow> es))
   }"

definition listWorkloadSnapshots :: "env \<Rightarrow> Server \<Rightarrow> string \<Rightarrow> snapshotEntry list reply io" where
  "listWorkloadSnapshots E s workloadName = do {
     r \<leftarrow> discoverSnapshots E s;
     ret (Done 200 (case r of Inl _ \<Rightarrow> [] | Inr es \<Rightarrow> filter (\<lambda>e. seWorkloadRef e = workloadName) es))
   }"

section \<open>System\<close>

record phaseStats =
  statTotal :: int
  statByPhase :: "string \<Rightarrow> int"

text \<open>\<open>m[phase]++\<close> over the phases of the objects, the empty one counted under \<open>zero\<close>.\<close>

definition countPhases :: "string \<Rightarrow> string list \<Rightarrow> phaseStats" where
  "countPhases zero phases =
     \<lparr>statTotal = int (length phases),
      statByPhase = foldl (\<lambda>m ph. let k = (if ph = [] then zero else ph) in m(k := m k + 1)) (\<lambda>_. 0) phases\<rparr>"

definition getStats :: "env \<Rightarrow> Server \<Rightarrow> (phaseStats \<times> phaseStats) reply io" where
  "getStats E s = do {
     l \<leftarrow> listObj PodEv (pods E) (srvNamespace s) [(apiLabelManaged, ''true'')];
     case l of
       Inl e \<Rightarrow> ret (Failed 500 (''failed to list pods: '' @ err_msg e))
     | Inr ps \<Rightarrow> do {
         c \<leftarrow> listObj ClaimEv (claims E) (srvNamespace s) [];
         ret (case c of
                Inl e \<Rightarrow> Failed 500 (''failed to list claims: '' @ err_msg e)
              | Inr cs \<Rightarrow> Done 200 (countPhases ''Unknown'' (map (\<lambda>p. podPhase (podStatus p)) ps),
                                countPhases ''Pending'' (map (\<lambda>c. claimPhase (claimStatus c)) cs)))
       }
   }"

definition getHealth :: "string reply io" where
  "getHealth = ret (Done 200 ''ok'')"

section \<open>Lemmas\<close>

lemma foldl_count:
  "foldl (\<lambda>m ph. let k = f ph in m(k := m k + 1)) m phases k = m k + int (length (filter (\<lambda>ph. f ph = k) phases))"
  by (induction phases arbitrary: m) (auto simp: Let_def)

lemma countPhases_count:
  "statByPhase (countPhases zero phases) k = int (length (filter (\<lambda>ph. (if ph = [] then zero else ph) = k) phases))"
  by (simp add: countPhases_def foldl_count [of "\<lambda>ph. if ph = [] then zero else ph"])

text \<open>What \<open>find\<close> prints for stored snapshots: a path per line.\<close>

definition findOutput :: "(string \<times> string) list \<Rightarrow> string" where
  "findOutput xs = concat (map (\<lambda>(t, w). snapshotPath t w @ [CHR 0x0A]) xs)"

definition plainName :: "string \<Rightarrow> bool" where
  "plainName n \<longleftrightarrow> CHR ''/'' \<notin> set n \<and> CHR 0x0A \<notin> set n"

definition entryOf :: "string \<times> string \<Rightarrow> snapshotEntry" where
  "entryOf x = (case x of (t, w) \<Rightarrow> \<lparr>seTenantId = t, seWorkloadRef = w, sePath = snapshotPath t w\<rparr>)"

lemma concat_Join:
  "ps \<noteq> [] \<Longrightarrow> concat (map (\<lambda>p. p @ [c]) ps) = Join ps [c] @ [c]"
  by (induction ps "[c]" rule: Join.induct) auto

lemma findOutput_Join:
  "xs \<noteq> [] \<Longrightarrow> findOutput xs = Join (map (\<lambda>(t, w). snapshotPath t w) xs) [CHR 0x0A] @ [CHR 0x0A]"
  using concat_Join [of "map (\<lambda>(t, w). snapshotPath t w) xs" "CHR 0x0A"]
  by (simp add: findOutput_def comp_def case_prod_unfold)

lemma snapshotPath_ends: "hd (snapshotPath t w) = CHR ''/''" "last (snapshotPath t w) = CHR ''z''"
  "snapshotPath t w \<noteq> []"
  by (simp_all add: snapshotPath_def)

lemma Join_ends:
  "ps \<noteq> [] \<Longrightarrow> list_all (\<lambda>p. p \<noteq> []) ps \<Longrightarrow>
   Join ps sep \<noteq> [] \<and> hd (Join ps sep) = hd (hd ps) \<and> last (Join ps sep) = last (last ps)"
  by (induction ps sep rule: Join.induct) auto

lemma TrimSpace_line:
  assumes "p \<noteq> []" and "\<not> isSpace (hd p)" and "\<not> isSpace (last p)" and "isSpace c"
  shows "TrimSpace (p @ [c]) = p"
proof -
  have "dropWhile isSpace (p @ [c]) = p @ [c]"
    using assms(1,2) by (cases p) simp_all
  moreover have "dropWhile isSpace (rev p) = rev p"
    using assms(1,3) by (simp add: dropWhile_eq_self_iff hd_rev)
  ultimately show ?thesis using assms(4) by (simp add: TrimSpace_def)
qed

lemma TrimSpace_snapshotPath [simp]: "TrimSpace (snapshotPath t w) = snapshotPath t w"
  by (rule TrimSpace_id) (simp_all add: snapshotPath_ends isSpace_def)

lemma SplitN2_append: "c \<notin> set p \<Longrightarrow> SplitN2 (p @ c # s) c = [p, s]"
  by (induction p) auto

lemma takeWhile_no_slash: "CHR ''/'' \<notin> set n \<Longrightarrow> takeWhile (\<lambda>c. c \<noteq> CHR ''/'') (rev n) = rev n"
  by (auto simp: takeWhile_eq_all_conv)

lemma pathBase_archive: "CHR ''/'' \<notin> set w \<Longrightarrow> pathBase (w @ ''.tar.gz'') = w @ ''.tar.gz''"
  by (simp add: pathBase_def TrimRight_def Let_def takeWhile_no_slash)

lemma snapshotOfLine_path:
  "plainName t \<Longrightarrow> plainName w \<Longrightarrow> snapshotOfLine (snapshotPath t w) = [entryOf (t, w)]"
proof -
  assume "plainName t" "plainName w"
  moreover have "TrimPrefix (snapshotPath t w) ''/snapshots/'' = t @ CHR ''/'' # (w @ ''.tar.gz'')"
    by (simp add: snapshotPath_def TrimPrefix_def HasPrefix_def)
  moreover have "TrimSuffix (w @ ''.tar.gz'') ''.tar.gz'' = w"
    by (simp add: TrimSuffix_def TrimPrefix_def HasPrefix_def)
  ultimately show ?thesis
    by (simp add: snapshotOfLine_def SplitN2_append pathBase_archive [unfolded append.simps] plainName_def entryOf_def
        snapshotPath_ends(3))
qed

lemma snapshotsOfOutput_find:
  assumes "list_all (\<lambda>(t, w). plainName t \<and> plainName w) xs"
  shows "snapshotsOfOutput (findOutput xs) = map entryOf xs"
proof (cases "xs = []")
  case True
  then show ?thesis by (simp add: findOutput_def snapshotsOfOutput_def snapshotOfLine_def TrimSpace_def)
next
  case False
  let ?ps = "map (\<lambda>(t, w). snapshotPath t w) xs"
  have "list_all (\<lambda>p. p \<noteq> []) ?ps" by (auto simp: list_all_iff snapshotPath_ends)
  from Join_ends [OF _ this, of "[CHR 0x0A]"] False
  have ends: "Join ?ps [CHR 0x0A] \<noteq> []" "hd (Join ?ps [CHR 0x0A]) = CHR ''/''" "last (Join ?ps [CHR 0x0A]) = CHR ''z''"
    by (auto simp: hd_map last_map case_prod_unfold snapshotPath_ends)
  have "TrimSpace (findOutput xs) = Join ?ps [CHR 0x0A]"
    unfolding findOutput_Join [OF False] by (rule TrimSpace_line) (simp_all add: ends isSpace_def)
  moreover have "Split (Join ?ps [CHR 0x0A]) (CHR 0x0A) = ?ps"
    by (rule Split_Join) (use False assms in \<open>auto simp: list_all_iff plainName_def snapshotPath_def\<close>)
  moreover have "concat (map snapshotOfLine ?ps) = map entryOf xs"
    using assms by (induction xs) (auto simp: snapshotOfLine_path)
  ultimately show ?thesis by (simp add: snapshotsOfOutput_def)
qed

section \<open>Properties\<close>

text \<open>
  The API lists what the operator stored: when the helper pod finds the archives that the snapshot manager
  writes for some tenants and workloads, whose names have no slash and no line break, the listing is those
  tenants and workloads, in order, and the listing of a workload those of it.
\<close>

theorem snapshots_listed:
  assumes "list_all (\<lambda>(t, w). plainName t \<and> plainName w) xs"
    and "run_cmd E tr [''kubectl'', ''exec'', snapshotHelperPodName, ''-n'', srvNamespace s, ''--'', ''find'',
           ''/snapshots'', ''-name'', ''*.tar.gz'', ''-type'', ''f''] [] = ExecOk (findOutput xs) errOut"
  shows "result (listSnapshots E s) tr = Done 200 (map entryOf xs) \<and>
    result (listWorkloadSnapshots E s w) tr = Done 200 (map entryOf (filter (\<lambda>(_, w'). w' = w) xs))"
proof -
  have "filter (\<lambda>e. seWorkloadRef e = w) (map entryOf xs) = map entryOf (filter (\<lambda>(_, w'). w' = w) xs)"
    by (simp add: filter_map comp_def entryOf_def case_prod_unfold)
  moreover have "apiSnapshotHelperPod = snapshotHelperPodName"
    by (simp add: apiSnapshotHelperPod_def snapshotHelperPodName_def)
  ultimately show ?thesis
    using assms(2) snapshotsOfOutput_find [OF assms(1)]
    by (simp add: listSnapshots_def listWorkloadSnapshots_def discoverSnapshots_def result_def execCmd_def)
qed

theorem snapshots_listed_witness:
  "result (listSnapshots (offlineEnv\<lparr>run_cmd := \<lambda>_ _ _. ExecOk (findOutput [(''ann'', ''w''), (''bob'', ''v'')]) []\<rparr>) demoServer) [] =
     Done 200 [entryOf (''ann'', ''w''), entryOf (''bob'', ''v'')]"
  using snapshots_listed [of "[(''ann'', ''w''), (''bob'', ''v'')]"
      "offlineEnv\<lparr>run_cmd := \<lambda>_ _ _. ExecOk (findOutput [(''ann'', ''w''), (''bob'', ''v'')]) []\<rparr>" "[]" demoServer "[]"]
  by (simp add: plainName_def)

end
