(* ===== verification/Go_Json.thy ===== *)
theory Go_Json
  imports Crd_Types
begin

text \<open>
  What the code uses of \<open>encoding/json\<close> and \<open>net/url\<close> on values it decodes into \<open>any\<close> and
  \<open>map[string]any\<close>: type assertions on the fields of an object, the float64 a number becomes and
  its conversion to an integer, the text of a string, and query escaping.
\<close>

section \<open>Objects\<close>

text \<open>\<open>v, _ := m[key].(string)\<close> and \<open>m[key].(map[string]any)\<close>; a nil map is the empty object.\<close>

definition strField :: "(string \<times> json) list \<Rightarrow> string \<Rightarrow> string option" where
  "strField kvs key = (case mapOfEntries kvs key of Some (JStr s) \<Rightarrow> Some s | _ \<Rightarrow> None)"

definition textField :: "(string \<times> json) list \<Rightarrow> string \<Rightarrow> string" where
  "textField kvs key = (case strField kvs key of Some s \<Rightarrow> s | None \<Rightarrow> [])"

definition objField :: "(string \<times> json) list \<Rightarrow> string \<Rightarrow> (string \<times> json) list option" where
  "objField kvs key = (case mapOfEntries kvs key of Some (JObj o') \<Rightarrow> Some o' | _ \<Rightarrow> None)"

text \<open>\<open>m[key] = v\<close>: the later entry of an object wins.\<close>

definition setField :: "string \<Rightarrow> json \<Rightarrow> (string \<times> json) list \<Rightarrow> (string \<times> json) list" where
  "setField key v kvs = filter (\<lambda>(k, _). k \<noteq> key) kvs @ [(key, v)]"

definition delField :: "string \<Rightarrow> (string \<times> json) list \<Rightarrow> (string \<times> json) list" where
  "delField key kvs = filter (\<lambda>(k, _). k \<noteq> key) kvs"

lemma map_of_filter_neq: "map_of (filter (\<lambda>(k, _). k \<noteq> key) kvs) k' = (if k' = key then None else map_of kvs k')"
  by (induction kvs) auto

lemma delField_lookup [simp]:
  "mapOfEntries (delField key kvs) k = (if k = key then None else mapOfEntries kvs k)"
  using map_of_filter_neq [of key "rev kvs" k]
  by (simp add: mapOfEntries_def delField_def rev_filter)

lemma setField_lookup [simp]:
  "mapOfEntries (setField key v kvs) k = (if k = key then Some v else mapOfEntries kvs k)"
  using delField_lookup [of key kvs k]
  by (simp add: mapOfEntries_def setField_def delField_def)

section \<open>Text\<close>

text \<open>
  \<open>json.Marshal\<close> of a list of strings, with its HTML escapes, and \<open>url.QueryEscape\<close>.  Bytes beyond ASCII
  are copied by the former (for valid UTF-8 other than U+2028 and U+2029).
\<close>

definition upperHexDigit :: "nat \<Rightarrow> char" where
  "upperHexDigit n = (if n < 10 then char_of (48 + n) else char_of (55 + n))"

definition jsonChar :: "char \<Rightarrow> string" where
  "jsonChar c =
     (if c = CHR 0x22 \<or> c = CHR 0x5C then [CHR 0x5C, c]
      else if c = CHR 0x08 then [CHR 0x5C, CHR ''b'']
      else if c = CHR 0x0C then [CHR 0x5C, CHR ''f'']
      else if c = CHR 0x0A then [CHR 0x5C, CHR ''n'']
      else if c = CHR 0x0D then [CHR 0x5C, CHR ''r'']
      else if c = CHR 0x09 then [CHR 0x5C, CHR ''t'']
      else if (of_char c :: nat) < 32 \<or> c = CHR ''<'' \<or> c = CHR ''>'' \<or> c = CHR ''&''
        then [CHR 0x5C, CHR ''u'', CHR ''0'', CHR ''0''] @ hexByte c
      else [c])"

definition marshalString :: "string \<Rightarrow> string" where
  "marshalString s = [CHR 0x22] @ concat (map jsonChar s) @ [CHR 0x22]"

definition marshalStrings :: "string list \<Rightarrow> string" where
  "marshalStrings xs = ''['' @ Join (map marshalString xs) '','' @ '']''"

definition unreservedChar :: "char \<Rightarrow> bool" where
  "unreservedChar c \<longleftrightarrow>
     (let n = (of_char c :: nat)
      in (48 \<le> n \<and> n \<le> 57) \<or> (65 \<le> n \<and> n \<le> 90) \<or> (97 \<le> n \<and> n \<le> 122)) \<or> c \<in> set ''-_.~''"

definition QueryEscape :: "string \<Rightarrow> string" where
  "QueryEscape s = concat (map (\<lambda>c.
     if unreservedChar c then [c] else if c = CHR '' '' then ''+''
     else [CHR ''%'', upperHexDigit (of_char c div 16), upperHexDigit (of_char c mod 16)]) s)"

section \<open>Numbers\<close>

text \<open>
  A number decoded into \<open>any\<close> is the nearest float64, ties to an even last place.  \<open>float64Trunc n d\<close>
  is the integer part of the float64 nearest to \<open>n / d\<close>: with 53 bits of \<open>n / d\<close> as \<open>q\<close> its value is
  \<open>q * 2 ^ e\<close>.  What a conversion to \<open>int64\<close> gives for a float that does not fit is left to the implementation by
  the Go specification (amd64 gives the least \<open>int64\<close>, arm64 the nearest one): it is the argument \<open>beyond\<close>.
\<close>

fun bitLen :: "nat \<Rightarrow> nat" where
  "bitLen n = (if n = 0 then 0 else Suc (bitLen (n div 2)))"

declare bitLen.simps [simp del]

definition halfEven :: "nat \<times> nat \<Rightarrow> nat" where
  "halfEven x = (case x of (n, d) \<Rightarrow>
     let q = n div d; r = n mod d
     in if 2 * r < d then q else if 2 * r > d then Suc q else if even q then q else Suc q)"

definition scaled :: "nat \<Rightarrow> nat \<Rightarrow> int \<Rightarrow> nat \<times> nat" where
  "scaled n d e = (if e \<ge> 0 then (n, d * 2 ^ nat e) else (n * 2 ^ nat (- e), d))"

definition floatExp :: "nat \<Rightarrow> nat \<Rightarrow> int" where
  "floatExp n d =
     (let e = int (bitLen n) - int (bitLen d) - 53
      in if fst (scaled n d e) div snd (scaled n d e) \<ge> 2 ^ 53 then e + 1 else e)"

definition float64Trunc :: "nat \<Rightarrow> nat \<Rightarrow> nat" where
  "float64Trunc n d =
     (let e = floatExp n d; q = halfEven (scaled n d e)
      in if e \<ge> 0 then q * 2 ^ nat e else q div 2 ^ nat (- e))"

definition fitsInt64 :: "int \<Rightarrow> bool" where
  "fitsInt64 v \<longleftrightarrow> - (2 ^ 63) \<le> v \<and> v < 2 ^ 63"

definition int64OfFloat :: "(int \<Rightarrow> int) \<Rightarrow> int \<Rightarrow> int" where
  "int64OfFloat beyond v = (if fitsInt64 v then v else wrap64 (beyond v))"

definition numberRatio :: "json \<Rightarrow> (int \<times> nat) option" where
  "numberRatio j = (case j of
     JInt i \<Rightarrow> Some (i, 1)
   | JDec m e \<Rightarrow> Some (if e \<ge> 0 then (m * 10 ^ nat e, 1) else (m, 10 ^ nat (- e)))
   | _ \<Rightarrow> None)"

text \<open>A decoded number, rounded to a float64 and truncated; and \<open>int64(n)\<close> of it.\<close>

definition jsonTrunc :: "json \<Rightarrow> int option" where
  "jsonTrunc j = map_option (\<lambda>(n, d). sgn n * int (float64Trunc (nat \<bar>n\<bar>) d)) (numberRatio j)"

definition jsonInt64 :: "(int \<Rightarrow> int) \<Rightarrow> json \<Rightarrow> int option" where
  "jsonInt64 beyond j = map_option (int64OfFloat beyond) (jsonTrunc j)"

lemma bitLen_0 [simp]: "bitLen 0 = 0"
  by (simp add: bitLen.simps)

lemma bitLen_pos: "n > 0 \<Longrightarrow> bitLen n = Suc (bitLen (n div 2))"
  by (simp add: bitLen.simps)

lemma bitLen_bounds: "n > 0 \<Longrightarrow> 2 ^ (bitLen n - 1) \<le> n \<and> n < 2 ^ bitLen n"
proof (induction n rule: bitLen.induct)
  case (1 n)
  show ?case
  proof (cases "n div 2 = 0")
    case True
    with "1.prems" have "n = 1" by simp
    then show ?thesis by (simp add: bitLen_pos)
  next
    case False
    with 1 have IH: "2 ^ (bitLen (n div 2) - 1) \<le> n div 2 \<and> n div 2 < 2 ^ bitLen (n div 2)" by simp
    from False have "bitLen (n div 2) > 0" by (simp add: bitLen_pos)
    then obtain k where k: "bitLen (n div 2) = Suc k" by (auto simp: gr0_conv_Suc)
    with IH have "2 ^ k \<le> n div 2" "n div 2 < 2 ^ Suc k" by simp_all
    then have "2 * 2 ^ k \<le> n" "n < 2 * 2 ^ Suc k" by linarith+
    with "1.prems" k show ?thesis by (simp add: bitLen_pos [of n])
  qed
qed

lemma bitLen_1 [simp]: "bitLen (Suc 0) = 1"
  by (simp add: bitLen.simps)

text \<open>Integers below \<open>2 ^ 53\<close> are floats.\<close>

lemma float64Trunc_exact:
  assumes "n < 2 ^ 53"
  shows "float64Trunc n 1 = n"
proof (cases "n = 0")
  case True
  then show ?thesis by (simp add: float64Trunc_def floatExp_def scaled_def halfEven_def Let_def)
next
  case False
  then have n: "2 ^ (bitLen n - 1) \<le> n" "n < 2 ^ bitLen n" "bitLen n > 0"
    using bitLen_bounds [of n] by (simp_all add: bitLen_pos)
  have a: "bitLen n \<le> 53"
  proof (rule ccontr)
    assume "\<not> bitLen n \<le> 53"
    then have "(2::nat) ^ 53 \<le> 2 ^ (bitLen n - 1)" by (intro power_increasing) auto
    with n(1) assms show False by linarith
  qed
  have "(2::nat) ^ (bitLen n - 1) * 2 ^ (54 - bitLen n) = 2 ^ 53"
    using a n(3) by (simp flip: power_add)
  then have "2 ^ 53 \<le> n * 2 ^ (54 - bitLen n)"
    using n(1) by (metis mult_le_mono1)
  moreover have "nat (54 - int (bitLen n)) = 54 - bitLen n" using a by linarith
  ultimately have e: "floatExp n 1 = int (bitLen n) - 53"
    using a by (simp add: floatExp_def scaled_def Let_def)
  show ?thesis
    using a by (cases "bitLen n = 53")
      (simp_all add: float64Trunc_def e [unfolded One_nat_def] scaled_def halfEven_def Let_def)
qed

lemma jsonTrunc_exact: "\<bar>i\<bar> < 2 ^ 53 \<Longrightarrow> jsonTrunc (JInt i) = Some i"
  using float64Trunc_exact [of "nat \<bar>i\<bar>"]
  by (auto simp: jsonTrunc_def numberRatio_def sgn_mult_abs nat_less_iff)

lemma jsonInt64_exact: "\<bar>i\<bar> < 2 ^ 53 \<Longrightarrow> jsonInt64 beyond (JInt i) = Some i"
  by (auto simp: jsonInt64_def jsonTrunc_exact int64OfFloat_def fitsInt64_def)

text \<open>A float below \<open>2 ^ 63\<close> is not the greatest \<open>int64\<close>, so its successor does not wrap.\<close>

lemma scaled_bound:
  assumes "d > 0" and "e = int (bitLen n) - int (bitLen d) - 53"
  shows "fst (scaled n d e) < 2 ^ 54 * snd (scaled n d e)"
proof -
  have d: "2 ^ (bitLen d - 1) \<le> d" "bitLen d > 0"
    using bitLen_bounds [OF assms(1)] assms(1) by (simp_all add: bitLen_pos)
  have n: "n < 2 ^ bitLen n"
    by (cases "n = 0") (simp_all add: bitLen_bounds)
  show ?thesis
  proof (cases "e \<ge> 0")
    case True
    have "bitLen n = (bitLen d - 1) + (nat e + 54)"
      using True assms(2) d(2) by linarith
    then have "(2::nat) ^ bitLen n = 2 ^ (bitLen d - 1) * (2 ^ nat e * 2 ^ 54)"
      by (simp only: power_add)
    also have "\<dots> \<le> d * (2 ^ nat e * 2 ^ 54)" by (rule mult_le_mono1 [OF d(1)])
    finally have "2 ^ bitLen n \<le> d * (2 ^ nat e * 2 ^ 54)" .
    with n True show ?thesis by (simp add: scaled_def ac_simps)
  next
    case False
    have "n * 2 ^ nat (- e) < 2 ^ bitLen n * 2 ^ nat (- e)" using n by simp
    moreover have "bitLen n + nat (- e) = (bitLen d - 1) + 54"
      using False assms(2) d(2) by linarith
    then have "(2::nat) ^ bitLen n * 2 ^ nat (- e) = 2 ^ (bitLen d - 1) * 2 ^ 54"
      by (simp only: flip: power_add)
    moreover have "\<dots> \<le> d * 2 ^ 54" by (rule mult_le_mono1 [OF d(1)])
    ultimately have "n * 2 ^ nat (- e) < d * 2 ^ 54" by linarith
    then show ?thesis using False by (simp add: scaled_def ac_simps)
  qed
qed

lemma scaled_Suc: "fst (scaled n d e) * snd (scaled n d (e + 1)) = 2 * fst (scaled n d (e + 1)) * snd (scaled n d e)"
proof -
  consider "e \<ge> 0" | "e = -1" | "e < -1" by linarith
  then show ?thesis
  proof cases
    case 1
    then have "nat (e + 1) = Suc (nat e)" by simp
    with 1 show ?thesis by (simp add: scaled_def)
  next
    case 3
    then have "nat (- e) = Suc (nat (- (e + 1)))" by simp
    with 3 show ?thesis by (simp add: scaled_def)
  qed (simp add: scaled_def)
qed

lemma scaled_floatExp:
  assumes "d > 0"
  shows "fst (scaled n d (floatExp n d)) < 2 ^ 53 * snd (scaled n d (floatExp n d))"
proof -
  define e where "e = int (bitLen n) - int (bitLen d) - 53"
  have pos: "snd (scaled n d x) > 0" for x using assms by (simp add: scaled_def)
  show ?thesis
  proof (cases "fst (scaled n d e) div snd (scaled n d e) \<ge> 2 ^ 53")
    case True
    have "2 * fst (scaled n d (e + 1)) * snd (scaled n d e) < 2 ^ 54 * snd (scaled n d e) * snd (scaled n d (e + 1))"
      using scaled_bound [OF assms e_def] pos [of "e + 1"] by (simp flip: scaled_Suc)
    then have "fst (scaled n d (e + 1)) < 2 ^ 53 * snd (scaled n d (e + 1))"
      using pos [of e] by simp
    with True show ?thesis by (simp add: floatExp_def e_def Let_def)
  next
    case False
    then have "fst (scaled n d e) < 2 ^ 53 * snd (scaled n d e)"
      using pos [of e] by (simp add: not_le div_less_iff_less_mult)
    with False show ?thesis by (simp add: floatExp_def e_def Let_def)
  qed
qed

lemma halfEven_bound: "fst x < k * snd x \<Longrightarrow> halfEven x \<le> k"
  by (cases x) (auto simp: halfEven_def Let_def less_mult_imp_div_less Suc_leI intro: less_imp_le)

lemma float64Trunc_even: "d > 0 \<Longrightarrow> float64Trunc n d \<le> 2 ^ 53 \<or> even (float64Trunc n d)"
proof -
  assume "d > 0"
  from halfEven_bound [OF scaled_floatExp [OF this]]
  have q: "halfEven (scaled n d (floatExp n d)) \<le> 2 ^ 53" .
  have "halfEven (scaled n d (floatExp n d)) div 2 ^ k \<le> 2 ^ 53" for k
    by (rule order_trans [OF div_le_dividend q])
  with q show ?thesis
    by (cases "floatExp n d = 0") (auto simp: float64Trunc_def Let_def)
qed

lemma jsonTrunc_less: "jsonTrunc j = Some v \<Longrightarrow> fitsInt64 v \<Longrightarrow> v < 2 ^ 63 - 1"
proof -
  assume "jsonTrunc j = Some v" and fits: "fitsInt64 v"
  then obtain n d where nd: "numberRatio j = Some (n, d)"
    and v: "v = sgn n * int (float64Trunc (nat \<bar>n\<bar>) d)"
    by (auto simp: jsonTrunc_def)
  from nd have "d > 0" by (auto simp: numberRatio_def split: json.splits if_splits)
  obtain t where t_def: "t = int (float64Trunc (nat \<bar>n\<bar>) d)" by simp
  from float64Trunc_even [OF \<open>d > 0\<close>, of "nat \<bar>n\<bar>"] have "t \<le> 2 ^ 53 \<or> even t" "0 \<le> t"
    by (auto simp: t_def)
  then have "sgn n * t \<noteq> 2 ^ 63 - 1"
    by (cases "n = 0"; cases "n > 0") auto
  with v fits show ?thesis by (auto simp: fitsInt64_def t_def)
qed

end
