(* ===== verification/Api_Debug.thy ===== *)
theory Api_Debug
  imports Api_Resources Go_Json
begin

text \<open>
  \<open>internal/api/routes_debug.go\<close>: the listing of everything in the namespace.  The discovery and the dynamic
  client and the conversion of an unstructured object to a typed one are Kubernetes libraries, so they are
  parameters: the clients' construction (its error with the prefix the handler gives it) and the resource lists, the
  objects of a resource, and \<open>conv\<close>, which gives the typed object of a kind
  or fails.  The JSON an object is marshaled to is represented by the object (\<open>rawObject\<close>); marshaling
  an object that came from the API server does not fail.
\<close>

section \<open>Objects\<close>

text \<open>\<open>unstructured.Unstructured\<close>: its fields, whose names are distinct.\<close>

record unstructured =
  uObject :: "(string \<times> json) list"

definition metaField :: "unstructured \<Rightarrow> string \<Rightarrow> string" where
  "metaField u key = (case objField (uObject u) ''metadata'' of None \<Rightarrow> [] | Some m \<Rightarrow> textField m key)"

definition GetName :: "unstructured \<Rightarrow> string" where
  "GetName u = metaField u ''name''"

definition GetCreationTimestamp :: "env \<Rightarrow> unstructured \<Rightarrow> int" where
  "GetCreationTimestamp E u = (case parse_rfc3339 E (metaField u ''creationTimestamp'') of
     Some t \<Rightarrow> t | None \<Rightarrow> zeroTime)"

text \<open>
  The typed kinds the listing knows, with the fields it shows that no other component uses.  The keys of a
  network policy's selector come in the order in which Go ranges over them.
\<close>

record podView = Pod +
  nodeName :: string

record pvcView = PersistentVolumeClaim +
  storageClassName :: "string option"
  pvcPhase :: string

record serviceView = Service +
  clusterIP :: string

record policyView = NetworkPolicy +
  selectorKeys :: "string list"

datatype typedObject =
    WorkloadObject BoilerhouseWorkload
  | PoolObject BoilerhousePool
  | ClaimObject BoilerhouseClaim
  | TriggerObject BoilerhouseTrigger
  | PodObject podView
  | PvcObject pvcView
  | ServiceObject serviceView
  | PolicyObject policyView

datatype rawObject = RawTyped typedObject | RawFields "(string \<times> json) list"

record resourceEntry =
  reName :: string
  rePhase :: string
  reAge :: string
  reSummary :: "(string \<times> json) list"
  reRaw :: rawObject

record kindGroup =
  kgKind :: string
  kgAPIVersion :: string
  kgResources :: "resourceEntry list"

section \<open>Ages\<close>

text \<open>The age of an object by the clock \<open>now\<close>; Go's conversion to an integer truncates towards
  zero; the rounding of \<open>Hours\<close> and \<open>Minutes\<close> to a float is left out.\<close>

definition truncDiv :: "int \<Rightarrow> int \<Rightarrow> int" where
  "truncDiv a b = sgn a * (\<bar>a\<bar> div b)"

definition formatAge :: "int \<Rightarrow> int \<Rightarrow> string" where
  "formatAge now ts =
     (if isZeroTime ts then []
      else let d = timeSub now ts
           in if d < minute then Itoa (truncDiv d second) @ ''s''
              else if d < hour then Itoa (truncDiv d minute) @ ''m''
              else if d < 24 * hour
              then (let h = truncDiv d hour; m = truncDiv d minute - h * 60
                    in if m = 0 then Itoa h @ ''h'' else Itoa h @ ''h'' @ Itoa m @ ''m'')
              else (let days = truncDiv d hour div 24; h = truncDiv d hour - days * 24
                    in if h = 0 then Itoa days @ ''d'' else Itoa days @ ''d'' @ Itoa h @ ''h''))"

section \<open>Entries\<close>

definition genericEntry :: "env \<Rightarrow> int \<Rightarrow> unstructured \<Rightarrow> resourceEntry" where
  "genericEntry E now u =
     \<lparr>reName = GetName u, rePhase = [], reAge = formatAge now (GetCreationTimestamp E u),
      reSummary = [], reRaw = RawFields (uObject u)\<rparr>"

definition secretFields :: "string list" where
  "secretFields = [''data'', ''stringData'']"

definition redactValue :: "json \<Rightarrow> json" where
  "redactValue v = (case v of JObj m \<Rightarrow> JObj (map (\<lambda>(k, _). (k, JStr ''<redacted>'')) m) | _ \<Rightarrow> v)"

definition redactedKeys :: "(string \<times> json) list \<Rightarrow> string list" where
  "redactedKeys kvs = sort (remdups (concat (map (\<lambda>field.
     case objField kvs field of None \<Rightarrow> [] | Some m \<Rightarrow> map fst m) secretFields)))"

definition redactSecretValues :: "(string \<times> json) list \<Rightarrow> string list \<times> (string \<times> json) list" where
  "redactSecretValues kvs =
     (redactedKeys kvs,
      map (\<lambda>(k, v). if k \<in> set secretFields then (k, redactValue v) else (k, v)) kvs)"

definition secretToEntry :: "env \<Rightarrow> int \<Rightarrow> unstructured \<Rightarrow> resourceEntry" where
  "secretToEntry E now u =
     (case redactSecretValues (uObject u) of
        (keys, kvs) \<Rightarrow>
          \<lparr>reName = GetName u, rePhase = [], reAge = formatAge now (GetCreationTimestamp E u),
           reSummary = [(''type'', JStr (textField kvs ''type'')), (''keys'', JStr (Join keys '',''))],
           reRaw = RawFields kvs\<rparr>)"

definition typedEntry :: "int \<Rightarrow> ObjectMeta \<Rightarrow> string \<Rightarrow> (string \<times> json) list \<Rightarrow> typedObject \<Rightarrow> resourceEntry" where
  "typedEntry now m phase summary x =
     \<lparr>reName = Name m, rePhase = phase, reAge = formatAge now (CreationTimestamp m), reSummary = summary,
      reRaw = RawTyped x\<rparr>"

definition workloadToEntry :: "int \<Rightarrow> BoilerhouseWorkload \<Rightarrow> resourceEntry" where
  "workloadToEntry now w = typedEntry now (wlMeta w) (wlPhase (wlStatus w))
     [(''image'', JStr (imageRef (wlImage (wlSpec w)))), (''version'', JStr (wlVersion (wlSpec w)))]
     (WorkloadObject w)"

definition poolToEntry :: "int \<Rightarrow> BoilerhousePool \<Rightarrow> resourceEntry" where
  "poolToEntry now p = typedEntry now (poolMeta p) (poolPhase (poolStatus p))
     [(''workloadRef'', JStr (poolWorkloadRef (poolSpec p))), (''desired'', JInt (poolSize (poolSpec p))),
      (''ready'', JInt (poolReady (poolStatus p)))]
     (PoolObject p)"

definition claimToEntry :: "int \<Rightarrow> BoilerhouseClaim \<Rightarrow> resourceEntry" where
  "claimToEntry now c = typedEntry now (claimMeta c) (claimPhase (claimStatus c))
     [(''tenant'', JStr (claimTenantId (claimSpec c))), (''instance'', JStr (InstanceId (claimStatus c))),
      (''workloadRef'', JStr (claimWorkloadRef (claimSpec c)))]
     (ClaimObject c)"

definition triggerToEntry :: "int \<Rightarrow> BoilerhouseTrigger \<Rightarrow> resourceEntry" where
  "triggerToEntry now t = typedEntry now (triggerMeta t) (triggerPhase (triggerStatus t))
     [(''type'', JStr (triggerType (triggerSpec t))), (''workloadRef'', JStr (triggerWorkloadRef (triggerSpec t)))]
     (TriggerObject t)"

definition podToEntry :: "int \<Rightarrow> podView \<Rightarrow> resourceEntry" where
  "podToEntry now p = typedEntry now (podMeta p)
     (if DeletionTimestamp (podMeta p) \<noteq> None then ''Terminating'' else podPhase (podStatus p))
     [(''node'', JStr (nodeName p)), (''podIP'', JStr (PodIP (podStatus p))),
      (''tenant'', JStr (lookupS (Labels (podMeta p)) apiLabelTenant))]
     (PodObject p)"

definition pvcToEntry :: "int \<Rightarrow> pvcView \<Rightarrow> resourceEntry" where
  "pvcToEntry now p = typedEntry now (pvcMeta p) (pvcPhase p)
     [(''storageClass'', JStr (case storageClassName p of None \<Rightarrow> [] | Some c \<Rightarrow> c)),
      (''capacity'', JStr (storageRequest p))]
     (PvcObject p)"

definition portText :: "ServicePort \<Rightarrow> string" where
  "portText p =
     (let proto = (if svcProtocol p = [] then ''TCP'' else svcProtocol p)
      in (if svcPortName p \<noteq> [] then svcPortName p @ '':'' else []) @ Itoa (svcPort p) @ ''/'' @ proto)"

definition serviceToEntry :: "int \<Rightarrow> serviceView \<Rightarrow> resourceEntry" where
  "serviceToEntry now s = typedEntry now (svcMeta s) []
     [(''type'', JStr (svcType s)), (''clusterIP'', JStr (clusterIP s)),
      (''ports'', JStr (Join (map portText (svcPorts s)) '',''))]
     (ServiceObject s)"

definition networkPolicyToEntry :: "int \<Rightarrow> policyView \<Rightarrow> resourceEntry" where
  "networkPolicyToEntry now n = typedEntry now (npMeta n) []
     [(''podSelector'', JStr (if selectorKeys n = [] then ''<all>''
        else Join (map (\<lambda>k. k @ ''='' @ lookupS (npPodSelector n) k) (selectorKeys n)) '',''))]
     (PolicyObject n)"

fun typedToEntry :: "int \<Rightarrow> typedObject \<Rightarrow> resourceEntry" where
  "typedToEntry now (WorkloadObject w) = workloadToEntry now w"
| "typedToEntry now (PoolObject p) = poolToEntry now p"
| "typedToEntry now (ClaimObject c) = claimToEntry now c"
| "typedToEntry now (TriggerObject t) = triggerToEntry now t"
| "typedToEntry now (PodObject p) = podToEntry now p"
| "typedToEntry now (PvcObject p) = pvcToEntry now p"
| "typedToEntry now (ServiceObject s) = serviceToEntry now s"
| "typedToEntry now (PolicyObject n) = networkPolicyToEntry now n"

definition typedKinds :: "string list" where
  "typedKinds = [''BoilerhouseWorkload'', ''BoilerhousePool'', ''BoilerhouseClaim'', ''BoilerhouseTrigger'',
     ''Pod'', ''PersistentVolumeClaim'', ''Service'', ''NetworkPolicy'']"

definition unstructuredToEntry :: "env \<Rightarrow> (string \<Rightarrow> unstructured \<Rightarrow> typedObject option) \<Rightarrow> int \<Rightarrow> unstructured
    \<Rightarrow> string \<Rightarrow> resourceEntry" where
  "unstructuredToEntry E conv now u kind =
     (if kind \<in> set typedKinds
      then (case conv kind u of None \<Rightarrow> genericEntry E now u | Some x \<Rightarrow> typedToEntry now x)
      else if kind = ''Secret'' then secretToEntry E now u
      else genericEntry E now u)"

section \<open>Groups\<close>

definition kindOrder :: "string list" where
  "kindOrder = [''BoilerhouseWorkload'', ''BoilerhousePool'', ''BoilerhouseClaim'', ''BoilerhouseTrigger'', ''Pod'',
     ''Deployment'', ''ReplicaSet'', ''Service'', ''Endpoints'', ''PersistentVolumeClaim'', ''NetworkPolicy'',
     ''ConfigMap'', ''Secret'', ''ServiceAccount'', ''Event'']"

definition kindPriority :: "string \<Rightarrow> nat option" where
  "kindPriority k = map_of (zip kindOrder [0..<length kindOrder]) k"

definition groupLess :: "kindGroup \<Rightarrow> kindGroup \<Rightarrow> bool" where
  "groupLess a b =
     (case (kindPriority (kgKind a), kindPriority (kgKind b)) of
        (Some i, Some j) \<Rightarrow> i < j
      | (Some _, None) \<Rightarrow> True
      | (None, Some _) \<Rightarrow> False
      | (None, None) \<Rightarrow> kgKind a < kgKind b)"

text \<open>\<open>sort.SliceStable\<close> with this comparison.\<close>

fun insertStable :: "('a \<Rightarrow> 'a \<Rightarrow> bool) \<Rightarrow> 'a \<Rightarrow> 'a list \<Rightarrow> 'a list" where
  "insertStable lt x [] = [x]"
| "insertStable lt x (y # ys) = (if lt y x then y # insertStable lt x ys else x # y # ys)"

definition sortGroups :: "kindGroup list \<Rightarrow> kindGroup list" where
  "sortGroups gs = foldr (insertStable groupLess) gs []"

record apiResource =
  arName :: string
  arKind :: string
  arVerbs :: "string list"

text \<open>\<open>schema.ParseGroupVersion\<close> accepts at most one slash.\<close>

definition groupVersionOk :: "string \<Rightarrow> bool" where
  "groupVersionOk gv \<longleftrightarrow> length (filter (\<lambda>c. c = CHR ''/'') gv) \<le> 1"

definition resourceGroup :: "env \<Rightarrow> (string \<Rightarrow> unstructured \<Rightarrow> typedObject option) \<Rightarrow> int
    \<Rightarrow> (string \<Rightarrow> string \<Rightarrow> err + unstructured list) \<Rightarrow> string \<Rightarrow> apiResource \<Rightarrow> kindGroup list" where
  "resourceGroup E conv now dynList gv res =
     (if CHR ''/'' \<in> set (arName res) \<or> ''list'' \<notin> set (arVerbs res) then []
      else (case dynList gv (arName res) of
              Inl _ \<Rightarrow> []
            | Inr us \<Rightarrow>
                if us = [] then []
                else [\<lparr>kgKind = arKind res, kgAPIVersion = gv,
                       kgResources = map (\<lambda>u. unstructuredToEntry E conv now u (arKind res)) us\<rparr>]))"

definition listDebugResources :: "env \<Rightarrow> (string \<Rightarrow> unstructured \<Rightarrow> typedObject option) \<Rightarrow> int
    \<Rightarrow> (err + (string \<times> apiResource list) list) option \<Rightarrow> (string \<Rightarrow> string \<Rightarrow> err + unstructured list)
    \<Rightarrow> kindGroup list reply" where
  "listDebugResources E conv now clients dynList =
     (case clients of
        None \<Rightarrow> Failed 500 ''rest config unavailable''
      | Some (Inl e) \<Rightarrow> Failed 500 (err_msg e)
      | Some (Inr apiLists) \<Rightarrow>
          Done 200 (sortGroups (concat (map (\<lambda>(gv, resources).
            if groupVersionOk gv then concat (map (resourceGroup E conv now dynList gv) resources) else [])
            apiLists))))"

section \<open>Lemmas\<close>

text \<open>The order of the groups: listed kinds first, in their order, then the others by name.\<close>

datatype groupRank = Known nat | Other string

instantiation groupRank :: linorder
begin

fun less_eq_groupRank :: "groupRank \<Rightarrow> groupRank \<Rightarrow> bool" where
  "less_eq_groupRank (Known i) (Known j) = (i \<le> j)"
| "less_eq_groupRank (Known i) (Other l) = True"
| "less_eq_groupRank (Other k) (Known j) = False"
| "less_eq_groupRank (Other k) (Other l) = (k \<le> l)"

definition less_groupRank :: "groupRank \<Rightarrow> groupRank \<Rightarrow> bool" where
  "less_groupRank a b \<longleftrightarrow> \<not> b \<le> a"

instance
proof
  fix a b c :: groupRank
  show "a < b \<longleftrightarrow> a \<le> b \<and> \<not> b \<le> a" by (cases a; cases b) (auto simp: less_groupRank_def)
  show "a \<le> a" by (cases a) simp_all
  show "a \<le> c" if "a \<le> b" "b \<le> c" using that by (cases a; cases b; cases c) auto
  show "a = b" if "a \<le> b" "b \<le> a" using that by (cases a; cases b) auto
  show "a \<le> b \<or> b \<le> a" by (cases a; cases b) auto
qed

end

definition groupRankOf :: "kindGroup \<Rightarrow> groupRank" where
  "groupRankOf g = (case kindPriority (kgKind g) of Some i \<Rightarrow> Known i | None \<Rightarrow> Other (kgKind g))"

lemma groupLess_rank: "groupLess a b \<longleftrightarrow> groupRankOf a < groupRankOf b"
  by (auto simp: groupLess_def groupRankOf_def less_groupRank_def split: option.split)

lemma insertStable_insort: "insertStable groupLess x ys = insort_key groupRankOf x ys"
  by (induction ys) (auto simp: groupLess_rank)

lemma sortGroups_rank: "sortGroups gs = sort_key groupRankOf gs"
  by (induction gs) (simp_all add: sortGroups_def insertStable_insort)

text \<open>Other values for the keys of a Secret's \<open>data\<close> and \<open>stringData\<close>.\<close>

definition withValues :: "(string \<Rightarrow> json \<Rightarrow> json) \<Rightarrow> (string \<times> json) list \<Rightarrow> (string \<times> json) list" where
  "withValues f kvs = map (\<lambda>(k, v).
     if k = ''data'' \<or> k = ''stringData'' then (k, case v of JObj m \<Rightarrow> JObj (map (\<lambda>(n, x). (n, f n x)) m) | _ \<Rightarrow> v)
     else (k, v)) kvs"

lemma map_of_map_entries: "map_of (map (\<lambda>(k, v). (k, h k v)) kvs) k = map_option (h k) (map_of kvs k)"
  by (induction kvs) auto

lemma withValues_lookup:
  "mapOfEntries (withValues f kvs) k =
     (if k = ''data'' \<or> k = ''stringData''
      then map_option (\<lambda>v. case v of JObj m \<Rightarrow> JObj (map (\<lambda>(n, x). (n, f n x)) m) | _ \<Rightarrow> v) (mapOfEntries kvs k)
      else mapOfEntries kvs k)"
proof -
  have "withValues f kvs = map (\<lambda>(k, v). (k, if k = ''data'' \<or> k = ''stringData''
      then (case v of JObj m \<Rightarrow> JObj (map (\<lambda>(n, x). (n, f n x)) m) | _ \<Rightarrow> v) else v)) kvs"
    by (auto simp: withValues_def)
  then show ?thesis
    by (simp add: mapOfEntries_def rev_map map_of_map_entries option.map_ident)
qed

lemma redactedKeys_withValues: "redactedKeys (withValues f kvs) = redactedKeys kvs"
proof -
  have "(case objField (withValues f kvs) field of None \<Rightarrow> [] | Some m \<Rightarrow> map fst m) =
      (case objField kvs field of None \<Rightarrow> [] | Some m \<Rightarrow> map fst m)" if "field \<in> set secretFields" for field
    using that by (auto simp: secretFields_def objField_def withValues_lookup comp_def case_prod_unfold split: option.split json.split)
  then show ?thesis by (simp add: redactedKeys_def cong: map_cong)
qed

lemma redactSecretValues_withValues: "redactSecretValues (withValues f kvs) = redactSecretValues kvs"
  unfolding redactSecretValues_def redactedKeys_withValues
  by (auto simp: withValues_def redactValue_def secretFields_def split: json.split)

lemma metaField_withValues: "metaField \<lparr>uObject = withValues f kvs\<rparr> key = metaField \<lparr>uObject = kvs\<rparr> key"
  by (simp add: metaField_def objField_def withValues_lookup)

section \<open>Properties\<close>

text \<open>
  C37. The debug listing does not show the values a Secret has under \<open>data\<close> and \<open>stringData\<close>: whatever these two hold
  under their keys, the entry is the same.  Of the other fields nothing is claimed: the annotations are shown as they
  are, \<open>kubectl\<close>'s last applied configuration among them.  The groups come in the fixed order of kinds, the other kinds after
  them by name, and groups of one kind as they were found.
\<close>

theorem secrets_redacted:
  "unstructuredToEntry E conv now \<lparr>uObject = withValues f kvs\<rparr> ''Secret'' =
     unstructuredToEntry E conv now \<lparr>uObject = kvs\<rparr> ''Secret'' \<and>
   sortGroups gs = sort_key groupRankOf gs"
  by (simp add: unstructuredToEntry_def typedKinds_def secretToEntry_def redactSecretValues_withValues GetName_def
      GetCreationTimestamp_def metaField_withValues sortGroups_rank)

end
