(* ===== verification/Api_Websocket.thy ===== *)
theory Api_Websocket
  imports Api_Resources
begin

text \<open>
  \<open>internal/api/websocket.go\<close>: what the dashboard is told of pods and claims.  Each of the two watch loops
  keeps the last value it saw of an object (the pool status of a pod, the phase of a claim) and turns the
  deliveries of its watch into messages.  A loop is a fold over the deliveries here; the connection,
  with the channel between the loops and the socket, is in Api_Socket.
\<close>

section \<open>Deliveries and messages\<close>

text \<open>A delivery of another type, or whose object does not convert, is \<open>OtherEvent\<close>.\<close>

datatype 'o watchEvent = Added 'o | Modified 'o | Deleted 'o | OtherEvent

record wsEvent =
  wsType :: string
  wsName :: string
  wsPhase :: string
  wsWorkloadRef :: string
  wsTenantId :: string
  wsSource :: string

definition plainEvent :: "string \<Rightarrow> string \<Rightarrow> wsEvent" where
  "plainEvent ty name = \<lparr>wsType = ty, wsName = name, wsPhase = [], wsWorkloadRef = [], wsTenantId = [], wsSource = []\<rparr>"

section \<open>Pods\<close>

definition apiLabelPoolStatus :: string where "apiLabelPoolStatus = ''boilerhouse.dev/pool-status''"

definition poolStatusLabel :: "Pod \<Rightarrow> string" where
  "poolStatusLabel p = lookupS (Labels (podMeta p)) apiLabelPoolStatus"

definition instanceState :: "Pod \<Rightarrow> string \<Rightarrow> wsEvent" where
  "instanceState p phase = (plainEvent ''instance.state'' (podName p))\<lparr>wsPhase := phase,
     wsWorkloadRef := lookupS (Labels (podMeta p)) apiLabelWorkload,
     wsTenantId := lookupS (Labels (podMeta p)) apiLabelTenant\<rparr>"

text \<open>The messages for a pod whose pool status was \<open>prev\<close> when it was last seen.\<close>

definition podMessages :: "string \<Rightarrow> Pod watchEvent \<Rightarrow> wsEvent list" where
  "podMessages prev e =
     (let changed = (\<lambda>p. instanceState p (podPhase (podStatus p)) #
            (if poolStatusLabel p = ''ready'' \<and> prev \<noteq> ''ready''
             then [(plainEvent ''pool.instance.ready'' (podName p))\<lparr>
                     wsWorkloadRef := lookupS (Labels (podMeta p)) apiLabelWorkload\<rparr>]
             else []))
      in case e of
           Added p \<Rightarrow> changed p
         | Modified p \<Rightarrow> changed p
         | Deleted p \<Rightarrow> [instanceState p ''Deleted'']
         | OtherEvent \<Rightarrow> [])"

fun watchPods :: "(string \<Rightarrow> string) \<Rightarrow> Pod watchEvent list \<Rightarrow> wsEvent list" where
  "watchPods st [] = []"
| "watchPods st (e # es) =
     (case e of
        Added p \<Rightarrow> podMessages (st (podName p)) e @ watchPods (st(podName p := poolStatusLabel p)) es
      | Modified p \<Rightarrow> podMessages (st (podName p)) e @ watchPods (st(podName p := poolStatusLabel p)) es
      | Deleted p \<Rightarrow> podMessages (st (podName p)) e @ watchPods (st(podName p := [])) es
      | OtherEvent \<Rightarrow> watchPods st es)"

section \<open>Claims\<close>

definition claimName :: "BoilerhouseClaim \<Rightarrow> string" where
  "claimName c = Name (claimMeta c)"

definition phaseOf :: "BoilerhouseClaim \<Rightarrow> string" where
  "phaseOf c = claimPhase (claimStatus c)"

definition tenantReleased :: "BoilerhouseClaim \<Rightarrow> wsEvent" where
  "tenantReleased c = (plainEvent ''tenant.released'' (claimName c))\<lparr>wsTenantId := claimTenantId (claimSpec c)\<rparr>"

definition tenantClaimed :: "BoilerhouseClaim \<Rightarrow> wsEvent" where
  "tenantClaimed c = (plainEvent ''tenant.claimed'' (claimName c))\<lparr>wsTenantId := claimTenantId (claimSpec c),
     wsWorkloadRef := claimWorkloadRef (claimSpec c), wsSource := Source (claimStatus c)\<rparr>"

definition claimMessages :: "string \<Rightarrow> BoilerhouseClaim watchEvent \<Rightarrow> wsEvent list" where
  "claimMessages prev e =
     (let changed = (\<lambda>c.
            (if phaseOf c = ''Active'' \<and> prev \<noteq> ''Active'' then [tenantClaimed c] else []) @
            (if phaseOf c = ''Released'' \<and> prev \<noteq> ''Released'' then [tenantReleased c] else []))
      in case e of
           Added c \<Rightarrow> changed c
         | Modified c \<Rightarrow> changed c
         | Deleted c \<Rightarrow> [tenantReleased c]
         | OtherEvent \<Rightarrow> [])"

fun watchClaims :: "(string \<Rightarrow> string) \<Rightarrow> BoilerhouseClaim watchEvent list \<Rightarrow> wsEvent list" where
  "watchClaims st [] = []"
| "watchClaims st (e # es) =
     (case e of
        Added c \<Rightarrow> claimMessages (st (claimName c)) e @ watchClaims (st(claimName c := phaseOf c)) es
      | Modified c \<Rightarrow> claimMessages (st (claimName c)) e @ watchClaims (st(claimName c := phaseOf c)) es
      | Deleted c \<Rightarrow> claimMessages (st (claimName c)) e @ watchClaims (st(claimName c := [])) es
      | OtherEvent \<Rightarrow> watchClaims st es)"

section \<open>The loops against the history\<close>

text \<open>
  The reference has no state: the value last seen of a name is looked up in the deliveries so far, and each
  delivery's messages are those for that value.
\<close>

fun objectOf :: "'o watchEvent \<Rightarrow> 'o option" where
  "objectOf (Added x) = Some x"
| "objectOf (Modified x) = Some x"
| "objectOf (Deleted x) = Some x"
| "objectOf OtherEvent = None"

definition aboutName :: "('o \<Rightarrow> string) \<Rightarrow> string \<Rightarrow> 'o watchEvent \<Rightarrow> bool" where
  "aboutName key n e = (case objectOf e of Some x \<Rightarrow> key x = n | None \<Rightarrow> False)"

definition shownValue :: "('o \<Rightarrow> string) \<Rightarrow> 'o watchEvent \<Rightarrow> string" where
  "shownValue val e = (case e of Added x \<Rightarrow> val x | Modified x \<Rightarrow> val x | _ \<Rightarrow> [])"

definition lastSeen :: "('o \<Rightarrow> string) \<Rightarrow> ('o \<Rightarrow> string) \<Rightarrow> 'o watchEvent list \<Rightarrow> string \<Rightarrow> string" where
  "lastSeen key val pre n = (case find (aboutName key n) (rev pre) of None \<Rightarrow> [] | Some e \<Rightarrow> shownValue val e)"

fun fromHistory :: "('o \<Rightarrow> string) \<Rightarrow> ('o \<Rightarrow> string) \<Rightarrow> (string \<Rightarrow> 'o watchEvent \<Rightarrow> wsEvent list)
    \<Rightarrow> 'o watchEvent list \<Rightarrow> 'o watchEvent list \<Rightarrow> wsEvent list" where
  "fromHistory key val msgs pre [] = []"
| "fromHistory key val msgs pre (e # es) =
     (case objectOf e of None \<Rightarrow> [] | Some x \<Rightarrow> msgs (lastSeen key val pre (key x)) e) @
     fromHistory key val msgs (pre @ [e]) es"

lemma lastSeen_snoc:
  "lastSeen key val (pre @ [e]) n = (if aboutName key n e then shownValue val e else lastSeen key val pre n)"
  by (simp add: lastSeen_def)

lemma lastSeen_Nil: "lastSeen key val [] = (\<lambda>_. [])"
  by (simp add: lastSeen_def fun_eq_iff)

text \<open>A loop that keeps the last value of every name, and what it sends.\<close>

locale watch_loop =
  fixes key :: "'o \<Rightarrow> string" and val :: "'o \<Rightarrow> string"
    and msgs :: "string \<Rightarrow> 'o watchEvent \<Rightarrow> wsEvent list"
    and loop :: "(string \<Rightarrow> string) \<Rightarrow> 'o watchEvent list \<Rightarrow> wsEvent list"
  assumes loop_Nil: "loop st [] = []"
    and loop_seen: "objectOf e = Some x \<Longrightarrow>
      loop st (e # es) = msgs (st (key x)) e @ loop (st(key x := shownValue val e)) es"
    and loop_other: "loop st (OtherEvent # es) = loop st es"
begin

lemma lastSeen_upd:
  "objectOf e = Some x \<Longrightarrow> (lastSeen key val pre)(key x := shownValue val e) = lastSeen key val (pre @ [e])"
  by (auto simp: fun_eq_iff lastSeen_snoc aboutName_def)

lemma loop_fromHistory: "loop (lastSeen key val pre) es = fromHistory key val msgs pre es"
proof (induction es arbitrary: pre)
  case (Cons e es)
  show ?case
  proof (cases "objectOf e")
    case None
    then have "e = OtherEvent" by (cases e) simp_all
    moreover have "lastSeen key val (pre @ [OtherEvent]) = lastSeen key val pre"
      by (simp add: fun_eq_iff lastSeen_snoc aboutName_def)
    ultimately show ?thesis using Cons.IH [of "pre @ [OtherEvent]"] by (simp add: loop_other)
  next
    case (Some x)
    then show ?thesis using Cons.IH [of "pre @ [e]"] by (simp add: loop_seen lastSeen_upd)
  qed
qed (simp add: loop_Nil)

lemma loop_reference: "loop (\<lambda>_. []) es = fromHistory key val msgs [] es"
  using loop_fromHistory [of "[]" es] by (simp add: lastSeen_Nil)

end

lemma objectOf_cases: "objectOf e = Some x \<Longrightarrow> e = Added x \<or> e = Modified x \<or> e = Deleted x"
  by (cases e) simp_all

interpretation podLoop: watch_loop podName poolStatusLabel podMessages watchPods
  by unfold_locales (auto simp: shownValue_def dest!: objectOf_cases)

interpretation claimLoop: watch_loop claimName phaseOf claimMessages watchClaims
  by unfold_locales (auto simp: shownValue_def dest!: objectOf_cases)

section \<open>What the dashboard should be told\<close>

text \<open>
  The messages of a delivery \<open>e\<close> after the deliveries \<open>pre\<close>, written out without the loops: whether the last
  delivery about a name showed it in a certain way is looked up in \<open>pre\<close>.
\<close>

definition lastShown :: "('o \<Rightarrow> string) \<Rightarrow> ('o \<Rightarrow> bool) \<Rightarrow> 'o watchEvent list \<Rightarrow> string \<Rightarrow> bool" where
  "lastShown key P pre n =
     (case find (aboutName key n) (rev pre) of
        Some (Added x) \<Rightarrow> P x
      | Some (Modified x) \<Rightarrow> P x
      | _ \<Rightarrow> False)"

definition podLabel :: "string \<Rightarrow> Pod \<Rightarrow> string" where
  "podLabel l p = (case Labels (podMeta p) l of Some v \<Rightarrow> v | None \<Rightarrow> [])"

definition podNews :: "Pod watchEvent list \<Rightarrow> Pod watchEvent \<Rightarrow> wsEvent list" where
  "podNews pre e =
     (let state = (\<lambda>p ph. \<lparr>wsType = ''instance.state'', wsName = Name (podMeta p), wsPhase = ph,
            wsWorkloadRef = podLabel ''boilerhouse.dev/workload'' p, wsTenantId = podLabel ''boilerhouse.dev/tenant'' p,
            wsSource = []\<rparr>);
          isReady = (\<lambda>p. podLabel ''boilerhouse.dev/pool-status'' p = ''ready'');
          seen = (\<lambda>p. [state p (podPhase (podStatus p))] @
            (if isReady p \<and> \<not> lastShown (\<lambda>p. Name (podMeta p)) isReady pre (Name (podMeta p))
             then [\<lparr>wsType = ''pool.instance.ready'', wsName = Name (podMeta p), wsPhase = [],
                    wsWorkloadRef = podLabel ''boilerhouse.dev/workload'' p, wsTenantId = [], wsSource = []\<rparr>]
             else []))
      in case e of Added p \<Rightarrow> seen p | Modified p \<Rightarrow> seen p | Deleted p \<Rightarrow> [state p ''Deleted''] | OtherEvent \<Rightarrow> [])"

definition claimNews :: "BoilerhouseClaim watchEvent list \<Rightarrow> BoilerhouseClaim watchEvent \<Rightarrow> wsEvent list" where
  "claimNews pre e =
     (let name = (\<lambda>c. Name (claimMeta c));
          turned = (\<lambda>phase c. claimPhase (claimStatus c) = phase \<and>
            \<not> lastShown name (\<lambda>c. claimPhase (claimStatus c) = phase) pre (name c));
          claimed = (\<lambda>c. \<lparr>wsType = ''tenant.claimed'', wsName = name c, wsPhase = [],
            wsWorkloadRef = claimWorkloadRef (claimSpec c), wsTenantId = claimTenantId (claimSpec c),
            wsSource = Source (claimStatus c)\<rparr>);
          released = (\<lambda>c. \<lparr>wsType = ''tenant.released'', wsName = name c, wsPhase = [], wsWorkloadRef = [],
            wsTenantId = claimTenantId (claimSpec c), wsSource = []\<rparr>);
          seen = (\<lambda>c. (if turned ''Active'' c then [claimed c] else []) @ (if turned ''Released'' c then [released c] else []))
      in case e of Added c \<Rightarrow> seen c | Modified c \<Rightarrow> seen c | Deleted c \<Rightarrow> [released c] | OtherEvent \<Rightarrow> [])"

text \<open>The messages of a whole history of deliveries.\<close>

definition newsOf :: "('o watchEvent list \<Rightarrow> 'o watchEvent \<Rightarrow> wsEvent list) \<Rightarrow> 'o watchEvent list \<Rightarrow> wsEvent list" where
  "newsOf news evs = concat (map (\<lambda>i. news (take i evs) (evs ! i)) [0..<length evs])"

lemma newsOf_from:
  "concat (map (\<lambda>i. news (pre @ take i (e # es)) ((e # es) ! i)) [0..<length (e # es)]) =
   news pre e @ concat (map (\<lambda>i. news ((pre @ [e]) @ take i es) (es ! i)) [0..<length es])"
  by (simp add: upt_conv_Cons map_Suc_upt [symmetric] comp_def del: upt_Suc)

lemma fromHistory_news:
  assumes "\<And>pre e. (case objectOf e of None \<Rightarrow> [] | Some x \<Rightarrow> msgs (lastSeen key val pre (key x)) e) = news pre e"
  shows "fromHistory key val msgs [] evs = newsOf news evs"
proof -
  have "fromHistory key val msgs pre es = concat (map (\<lambda>i. news (pre @ take i es) (es ! i)) [0..<length es])" for pre es
  proof (induction es arbitrary: pre)
    case (Cons e es)
    show ?case unfolding newsOf_from fromHistory.simps assms Cons.IH ..
  qed simp
  from this [of "[]" evs] show ?thesis by (simp add: newsOf_def)
qed

lemma lastSeen_shown: "v \<noteq> [] \<Longrightarrow> lastSeen key val pre n = v \<longleftrightarrow> lastShown key (\<lambda>x. val x = v) pre n"
  by (auto simp: lastSeen_def lastShown_def shownValue_def split: option.split watchEvent.split)

lemma podNews_messages:
  "(case objectOf e of None \<Rightarrow> [] | Some p \<Rightarrow> podMessages (lastSeen podName poolStatusLabel pre (podName p)) e) = podNews pre e"
proof -
  have l: "poolStatusLabel = podLabel ''boilerhouse.dev/pool-status''"
    by (simp add: fun_eq_iff poolStatusLabel_def podLabel_def lookupS_def apiLabelPoolStatus_def)
  show ?thesis
    unfolding l
    by (cases e) (simp_all add: podMessages_def podNews_def lastSeen_shown Let_def instanceState_def plainEvent_def
        l podLabel_def lookupS_def apiLabelWorkload_def apiLabelTenant_def)
qed

lemma claimNews_messages:
  "(case objectOf e of None \<Rightarrow> [] | Some c \<Rightarrow> claimMessages (lastSeen claimName phaseOf pre (claimName c)) e) = claimNews pre e"
proof -
  have l: "phaseOf = (\<lambda>c. claimPhase (claimStatus c))" "claimName = (\<lambda>c. Name (claimMeta c))"
    by (simp_all add: fun_eq_iff phaseOf_def claimName_def)
  show ?thesis
    unfolding l
    by (cases e) (simp_all add: claimMessages_def claimNews_def lastSeen_shown Let_def tenantClaimed_def tenantReleased_def
        plainEvent_def l)
qed

section \<open>Properties\<close>

text \<open>
  C36. The messages a dashboard gets, for any history of deliveries: every delivery of a pod is told with its phase,
  \<open>Deleted\<close> for a deletion, and the pod is announced as ready exactly when its pool status is \<open>ready\<close> and the
  delivery before it about that name did not show it so; a tenant is announced as claimed exactly when the claim is
  Active and the delivery before it about that name did not show it so, and as released likewise for the phase Released.
  The deletion of a claim is always announced as a release, also when its release already was.
\<close>

theorem dashboard_messages:
  "watchPods (\<lambda>_. []) pevs = newsOf podNews pevs \<and>
   watchClaims (\<lambda>_. []) cevs = newsOf claimNews cevs \<and>
   watchClaims (\<lambda>_. []) [Modified (c\<lparr>claimStatus := (claimStatus c)\<lparr>claimPhase := ''Released''\<rparr>\<rparr>), Deleted c] =
     [tenantReleased c, tenantReleased c]"
proof (intro conjI)
  show "watchPods (\<lambda>_. []) pevs = newsOf podNews pevs" "watchClaims (\<lambda>_. []) cevs = newsOf claimNews cevs"
    by (simp_all only: podLoop.loop_reference claimLoop.loop_reference
        fromHistory_news [OF podNews_messages] fromHistory_news [OF claimNews_messages])
qed (simp add: claimMessages_def phaseOf_def claimName_def tenantReleased_def)

end
