(* ===== verification/Api_Socket.thy ===== *)
theory Api_Socket
  imports Api_Websocket
begin

text \<open>
  \<open>handleWebSocket\<close> of \<open>internal/api/websocket.go\<close>: the dashboard's connection as a step relation.  Four
  goroutines run: the handler, which writes the messages of the channel to the socket, the reader, which ends the
  context when the client is gone, and the two watch loops, which fill the channel.  A step is one
  operation of one of them; what the peers do (deliveries of the watches, a failing start, a failing write,
  a disconnect) is the choice of the step.
\<close>

section \<open>A watch loop\<close>

datatype activity = Starting | Running | Stopped

text \<open>
  \<open>table\<close> is the loop's map, \<open>pending\<close> what it still has to send for the delivery it is at.  \<open>seen\<close> is
  for the statements only: the deliveries it took.
\<close>

record 'o watcher =
  activity :: activity
  table :: "string \<Rightarrow> string"
  pending :: "wsEvent list"
  seen :: "'o watchEvent list"

definition eventsCap :: nat where "eventsCap = 100"

definition receive :: "('o \<Rightarrow> string) \<Rightarrow> ('o \<Rightarrow> string) \<Rightarrow> (string \<Rightarrow> 'o watchEvent \<Rightarrow> wsEvent list)
    \<Rightarrow> 'o watchEvent \<Rightarrow> 'o watcher \<Rightarrow> 'o watcher" where
  "receive key val msgs e w =
     (case objectOf e of
        None \<Rightarrow> w\<lparr>seen := seen w @ [e]\<rparr>
      | Some x \<Rightarrow> w\<lparr>table := (table w)(key x := shownValue val e), pending := msgs (table w (key x)) e,
          seen := seen w @ [e]\<rparr>)"

text \<open>
  The loop chooses between the context and its watch only when nothing is pending: the sends do not
  look at the context.  A send waits for room in the channel.
\<close>

inductive watcherStep :: "('o \<Rightarrow> string) \<Rightarrow> ('o \<Rightarrow> string) \<Rightarrow> (string \<Rightarrow> 'o watchEvent \<Rightarrow> wsEvent list)
    \<Rightarrow> bool \<Rightarrow> 'o watcher \<times> wsEvent list \<Rightarrow> 'o watcher \<times> wsEvent list \<Rightarrow> bool"
  for key val msgs ctxIsDone where
  opens: "activity w = Starting \<Longrightarrow> watcherStep key val msgs ctxIsDone (w, ch) (w\<lparr>activity := Running\<rparr>, ch)"
| fails: "activity w = Starting \<Longrightarrow> watcherStep key val msgs ctxIsDone (w, ch) (w\<lparr>activity := Stopped\<rparr>, ch)"
| ends: "\<lbrakk>activity w = Running; pending w = []; ctxIsDone\<rbrakk> \<Longrightarrow>
    watcherStep key val msgs ctxIsDone (w, ch) (w\<lparr>activity := Stopped\<rparr>, ch)"
| closes: "\<lbrakk>activity w = Running; pending w = []\<rbrakk> \<Longrightarrow>
    watcherStep key val msgs ctxIsDone (w, ch) (w\<lparr>activity := Stopped\<rparr>, ch)"
| receives: "\<lbrakk>activity w = Running; pending w = []\<rbrakk> \<Longrightarrow>
    watcherStep key val msgs ctxIsDone (w, ch) (receive key val msgs e w, ch)"
| sends: "\<lbrakk>activity w = Running; pending w = m # ms; length ch < eventsCap\<rbrakk> \<Longrightarrow>
    watcherStep key val msgs ctxIsDone (w, ch) (w\<lparr>pending := ms\<rparr>, ch @ [m])"

inductive_cases watcherStepE: "watcherStep key val msgs d (w, ch) (w', ch')"

section \<open>The connection\<close>

text \<open>\<open>written\<close> went out on the socket; \<open>lost\<close> is a message whose write failed.\<close>

record session =
  ctxDone :: bool
  returned :: bool
  channel :: "wsEvent list"
  written :: "wsEvent list"
  lost :: "wsEvent list"
  podWatcher :: "Pod watcher"
  claimWatcher :: "BoilerhouseClaim watcher"

definition watcherStart :: "'o watcher" where
  "watcherStart = \<lparr>activity = Starting, table = (\<lambda>_. []), pending = [], seen = []\<rparr>"

definition sessionStart :: session where
  "sessionStart = \<lparr>ctxDone = False, returned = False, channel = [], written = [], lost = [],
     podWatcher = watcherStart, claimWatcher = watcherStart\<rparr>"

text \<open>What a request to the route gives, for a server with a REST configuration or without, and an upgrade
  that succeeds or not (the upgrader answers that itself).\<close>

datatype upgradeReply = Refused int string | NotUpgraded | Streams session

definition handleWebSocket :: "bool \<Rightarrow> bool \<Rightarrow> upgradeReply" where
  "handleWebSocket hasRestConfig upgraded =
     (if \<not> hasRestConfig then Refused 500 ''WebSocket not available: no REST config''
      else if \<not> upgraded then NotUpgraded
      else Streams sessionStart)"

text \<open>When the handler returns it cancels the context and closes the connection.\<close>

definition leave :: "session \<Rightarrow> session" where
  "leave s = s\<lparr>ctxDone := True, returned := True\<rparr>"

inductive sessionStep :: "session \<Rightarrow> session \<Rightarrow> bool" where
  disconnects: "\<not> ctxDone s \<Longrightarrow> sessionStep s (s\<lparr>ctxDone := True\<rparr>)"
| podLoop: "watcherStep podName poolStatusLabel podMessages (ctxDone s) (podWatcher s, channel s) (w, ch) \<Longrightarrow>
    sessionStep s (s\<lparr>podWatcher := w, channel := ch\<rparr>)"
| claimLoop: "watcherStep claimName phaseOf claimMessages (ctxDone s) (claimWatcher s, channel s) (w, ch) \<Longrightarrow>
    sessionStep s (s\<lparr>claimWatcher := w, channel := ch\<rparr>)"
| returns: "\<lbrakk>\<not> returned s; ctxDone s\<rbrakk> \<Longrightarrow> sessionStep s (leave s)"
| writes: "\<lbrakk>\<not> returned s; channel s = m # ms\<rbrakk> \<Longrightarrow>
    sessionStep s (s\<lparr>channel := ms, written := written s @ [m]\<rparr>)"
| write_fails: "\<lbrakk>\<not> returned s; channel s = m # ms\<rbrakk> \<Longrightarrow>
    sessionStep s (leave (s\<lparr>channel := ms, lost := [m]\<rparr>))"

abbreviation sessionSteps :: "session \<Rightarrow> session \<Rightarrow> bool" where
  "sessionSteps \<equiv> sessionStep\<^sup>*\<^sup>*"

section \<open>Whose messages\<close>

definition podMessage :: "wsEvent \<Rightarrow> bool" where
  "podMessage m \<longleftrightarrow> wsType m = ''instance.state'' \<or> wsType m = ''pool.instance.ready''"

lemma fromHistory_append:
  "fromHistory key val msgs pre (xs @ ys) = fromHistory key val msgs pre xs @ fromHistory key val msgs (pre @ xs) ys"
  by (induction xs arbitrary: pre) simp_all

text \<open>Of what entered the channel so far, the loop's own messages and the pending ones are those of its deliveries.\<close>

definition inFlow :: "('o \<Rightarrow> string) \<Rightarrow> ('o \<Rightarrow> string) \<Rightarrow> (string \<Rightarrow> 'o watchEvent \<Rightarrow> wsEvent list)
    \<Rightarrow> (wsEvent \<Rightarrow> bool) \<Rightarrow> wsEvent list \<Rightarrow> 'o watcher \<Rightarrow> bool" where
  "inFlow key val msgs mine out w \<longleftrightarrow> table w = lastSeen key val (seen w) \<and> list_all mine (pending w) \<and>
     (pending w \<noteq> [] \<longrightarrow> activity w = Running) \<and>
     filter mine out @ pending w = fromHistory key val msgs [] (seen w)"

text \<open>A watch loop whose messages are recognized among those of the channel.\<close>

locale message_kind = watch_loop +
  fixes mine :: "wsEvent \<Rightarrow> bool"
  assumes msgs_mine: "list_all mine (msgs prev e)"
begin

lemma inFlow_start: "inFlow key val msgs mine [] watcherStart"
  by (simp add: inFlow_def watcherStart_def lastSeen_Nil)

lemma inFlow_others: "inFlow key val msgs mine out w \<Longrightarrow> \<not> mine m \<Longrightarrow> inFlow key val msgs mine (out @ [m]) w"
  by (simp add: inFlow_def)

lemma inFlow_all: "inFlow key val msgs mine out w \<Longrightarrow> filter mine out @ pending w = loop (\<lambda>_. []) (seen w)"
  by (simp add: inFlow_def loop_reference)

lemma inFlow_receive:
  assumes "inFlow key val msgs mine out w" and "pending w = []" and "activity w = Running"
  shows "inFlow key val msgs mine out (receive key val msgs e w)"
proof (cases "objectOf e")
  case None
  then have "e = OtherEvent" by (cases e) simp_all
  then show ?thesis
    using assms by (auto simp: inFlow_def receive_def fromHistory_append lastSeen_snoc aboutName_def fun_eq_iff)
next
  case (Some x)
  then show ?thesis
    using assms by (simp add: inFlow_def receive_def fromHistory_append lastSeen_upd msgs_mine)
qed

lemma inFlow_step:
  assumes "watcherStep key val msgs d (w, ch) (w', ch')" and "inFlow key val msgs mine (pre @ ch) w" and "length ch \<le> eventsCap"
  shows "inFlow key val msgs mine (pre @ ch') w' \<and> length ch' \<le> eventsCap \<and> (ch' = ch \<or> (\<exists>m. mine m \<and> ch' = ch @ [m]))"
  using assms(1)
proof (cases rule: watcherStep.cases)
  case (receives e)
  then show ?thesis using assms(2,3) inFlow_receive by auto
next
  case (sends m ms)
  then show ?thesis using assms(2,3) by (auto simp: inFlow_def)
qed (use assms(2,3) in \<open>auto simp: inFlow_def\<close>)

end

lemma podMessages_mine: "list_all podMessage (podMessages prev e)"
  by (auto simp: podMessages_def podMessage_def instanceState_def plainEvent_def Let_def split: watchEvent.split)

lemma claimMessages_mine: "list_all (\<lambda>m. \<not> podMessage m) (claimMessages prev e)"
  by (auto simp: claimMessages_def podMessage_def tenantClaimed_def tenantReleased_def plainEvent_def Let_def
      split: watchEvent.split)

interpretation podKind: message_kind podName poolStatusLabel podMessages watchPods podMessage
  by unfold_locales (rule podMessages_mine)

interpretation claimKind: message_kind claimName phaseOf claimMessages watchClaims "\<lambda>m. \<not> podMessage m"
  by unfold_locales (rule claimMessages_mine)

section \<open>The invariant\<close>

abbreviation podFlow :: "wsEvent list \<Rightarrow> Pod watcher \<Rightarrow> bool" where
  "podFlow \<equiv> inFlow podName poolStatusLabel podMessages podMessage"

abbreviation claimFlow :: "wsEvent list \<Rightarrow> BoilerhouseClaim watcher \<Rightarrow> bool" where
  "claimFlow \<equiv> inFlow claimName phaseOf claimMessages (\<lambda>m. \<not> podMessage m)"

definition sent :: "session \<Rightarrow> wsEvent list" where
  "sent s = written s @ lost s @ channel s"

definition sessionOk :: "session \<Rightarrow> bool" where
  "sessionOk s \<longleftrightarrow> length (channel s) \<le> eventsCap \<and> podFlow (sent s) (podWatcher s) \<and>
     claimFlow (sent s) (claimWatcher s) \<and> (lost s \<noteq> [] \<longrightarrow> returned s)"

lemma sessionOk_start: "sessionOk sessionStart"
  by (simp add: sessionOk_def sent_def sessionStart_def podKind.inFlow_start claimKind.inFlow_start)

lemma sessionOk_podLoop:
  assumes "sessionOk s" and "watcherStep podName poolStatusLabel podMessages d (podWatcher s, channel s) (w, ch)"
  shows "sessionOk (s\<lparr>podWatcher := w, channel := ch\<rparr>)"
proof -
  have "podFlow ((written s @ lost s) @ channel s) (podWatcher s)" "length (channel s) \<le> eventsCap"
    using assms(1) by (simp_all add: sessionOk_def sent_def)
  from podKind.inFlow_step [OF assms(2) this] assms(1) show ?thesis
    by (auto simp: sessionOk_def sent_def dest: claimKind.inFlow_others)
qed

lemma sessionOk_claimLoop:
  assumes "sessionOk s" and "watcherStep claimName phaseOf claimMessages d (claimWatcher s, channel s) (w, ch)"
  shows "sessionOk (s\<lparr>claimWatcher := w, channel := ch\<rparr>)"
proof -
  have "claimFlow ((written s @ lost s) @ channel s) (claimWatcher s)" "length (channel s) \<le> eventsCap"
    using assms(1) by (simp_all add: sessionOk_def sent_def)
  from claimKind.inFlow_step [OF assms(2) this] assms(1) show ?thesis
    by (auto simp: sessionOk_def sent_def dest: podKind.inFlow_others)
qed

lemma sessionOk_step: "sessionStep s s' \<Longrightarrow> sessionOk s \<Longrightarrow> sessionOk s'"
proof (induction rule: sessionStep.induct)
  case (podLoop s w ch)
  then show ?case by (rule sessionOk_podLoop [rotated])
next
  case (claimLoop s w ch)
  then show ?case by (rule sessionOk_claimLoop [rotated])
qed (auto simp: sessionOk_def sent_def leave_def)

lemma sessionOk_steps: "sessionSteps s s' \<Longrightarrow> sessionOk s \<Longrightarrow> sessionOk s'"
  by (induction rule: rtranclp_induct) (auto dest: sessionOk_step)

lemma streams_start: "handleWebSocket hasRestConfig upgraded = Streams s0 \<Longrightarrow> s0 = sessionStart"
  by (simp add: handleWebSocket_def split: if_splits)

lemma sessionOk_reached:
  "handleWebSocket hasRestConfig upgraded = Streams s0 \<Longrightarrow> sessionSteps s0 s \<Longrightarrow> sessionOk s"
  using sessionOk_steps sessionOk_start streams_start by blast

section \<open>Nothing is stuck while the handler runs\<close>

text \<open>While the handler runs, the messages that are pending or in the channel can go out, with no new delivery.\<close>

definition undelivered :: "session \<Rightarrow> nat" where
  "undelivered s = length (channel s) + 2 * length (pending (podWatcher s)) + 2 * length (pending (claimWatcher s))"

definition sameDeliveries :: "session \<Rightarrow> session \<Rightarrow> bool" where
  "sameDeliveries s s' \<longleftrightarrow> seen (podWatcher s') = seen (podWatcher s) \<and> seen (claimWatcher s') = seen (claimWatcher s)"

lemma undelivered_step:
  assumes "sessionOk s" and "\<not> returned s" and "undelivered s \<noteq> 0"
  shows "\<exists>s'. sessionStep s s' \<and> \<not> returned s' \<and> undelivered s' < undelivered s \<and> sameDeliveries s s'"
proof (cases "channel s")
  case (Cons m ms)
  with sessionStep.writes [OF assms(2) this] assms(2) show ?thesis
    by (intro exI [of _ "s\<lparr>channel := ms, written := written s @ [m]\<rparr>"])
      (simp add: undelivered_def sameDeliveries_def)
next
  case Nil
  show ?thesis
  proof (cases "pending (podWatcher s)")
    case (Cons m ms)
    with assms(1) have "activity (podWatcher s) = Running" by (simp add: sessionOk_def inFlow_def)
    from watcherStep.sends [OF this Cons, of "channel s"] Nil assms(2) Cons show ?thesis
      by (intro exI [of _ "s\<lparr>podWatcher := (podWatcher s)\<lparr>pending := ms\<rparr>, channel := channel s @ [m]\<rparr>"])
        (auto simp: undelivered_def sameDeliveries_def eventsCap_def intro!: sessionStep.podLoop)
  next
    case none: Nil
    with Nil assms(3) obtain m ms where Cons: "pending (claimWatcher s) = m # ms"
      by (cases "pending (claimWatcher s)") (auto simp: undelivered_def)
    with assms(1) have "activity (claimWatcher s) = Running" by (simp add: sessionOk_def inFlow_def)
    from watcherStep.sends [OF this Cons, of "channel s"] Nil assms(2) Cons show ?thesis
      by (intro exI [of _ "s\<lparr>claimWatcher := (claimWatcher s)\<lparr>pending := ms\<rparr>, channel := channel s @ [m]\<rparr>"])
        (auto simp: undelivered_def sameDeliveries_def eventsCap_def intro!: sessionStep.claimLoop)
  qed
qed

lemma drains:
  "sessionOk s \<Longrightarrow> \<not> returned s \<Longrightarrow>
   \<exists>s'. sessionSteps s s' \<and> sessionOk s' \<and> \<not> returned s' \<and> undelivered s' = 0 \<and> sameDeliveries s s'"
proof (induction "undelivered s" arbitrary: s rule: less_induct)
  case less
  show ?case
  proof (cases "undelivered s = 0")
    case True
    with less.prems show ?thesis by (auto simp: sameDeliveries_def)
  next
    case False
    from undelivered_step [OF less.prems this] obtain s1 where
      s1: "sessionStep s s1" "\<not> returned s1" "undelivered s1 < undelivered s" "sameDeliveries s s1" by blast
    from less.hyps [OF s1(3) sessionOk_step [OF s1(1) less.prems(1)] s1(2)] obtain s2 where
      "sessionSteps s1 s2" "sessionOk s2" "\<not> returned s2" "undelivered s2 = 0" "sameDeliveries s1 s2" by blast
    with s1 show ?thesis by (auto simp: sameDeliveries_def intro: converse_rtranclp_into_rtranclp)
  qed
qed

section \<open>A loop that outlives the connection\<close>

definition podLoopStuck :: "Pod watcher \<Rightarrow> session \<Rightarrow> bool" where
  "podLoopStuck w s \<longleftrightarrow> returned s \<and> eventsCap \<le> length (channel s) \<and> podWatcher s = w \<and>
     activity w = Running \<and> pending w \<noteq> []"

lemma full_channel:
  "watcherStep key val msgs d (w, ch) (w', ch') \<Longrightarrow> eventsCap \<le> length ch \<Longrightarrow> ch' = ch"
  by (erule watcherStepE) auto

lemma full_pending:
  "watcherStep key val msgs d (w, ch) (w', ch') \<Longrightarrow> eventsCap \<le> length ch \<Longrightarrow> activity w = Running \<Longrightarrow>
   pending w = []"
  by (erule watcherStepE) auto

lemma podLoopStuck_step: "sessionStep s s' \<Longrightarrow> podLoopStuck w s \<Longrightarrow> podLoopStuck w s'"
  by (induction rule: sessionStep.induct) (auto simp: podLoopStuck_def leave_def dest: full_channel full_pending)

lemma podLoopStuck_steps: "sessionSteps s s' \<Longrightarrow> podLoopStuck w s \<Longrightarrow> podLoopStuck w s'"
  by (induction rule: rtranclp_induct) (auto dest: podLoopStuck_step)

definition shownPod :: Pod where
  "shownPod = \<lparr>podMeta = zeroMeta\<lparr>Name := ''p'', Labels := [apiLabelWorkload \<mapsto> ''w'']\<rparr>,
     podSpec = \<lparr>Containers = [], InitContainers = [], Volumes = [], RestartPolicy = [],
       AutomountServiceAccountToken = None, TerminationGracePeriodSeconds = None, podSecurity = None\<rparr>,
     podStatus = \<lparr>podPhase = ''Running'', PodIP = ''10.0.0.7'', Conditions = []\<rparr>\<rparr>"

text \<open>A pod is shown \<open>n\<close> times, and the handler writes nothing.\<close>

definition podShown :: "nat \<Rightarrow> session" where
  "podShown n = sessionStart\<lparr>channel := replicate n (instanceState shownPod (podPhase (podStatus shownPod))),
     podWatcher := \<lparr>activity = Running, table = (\<lambda>_. []), pending = [], seen = replicate n (Added shownPod)\<rparr>\<rparr>"

text \<open>A hundred messages wait in the channel and the loop holds another one when the client leaves.\<close>

definition abandoned :: session where
  "abandoned = leave ((podShown 100)\<lparr>podWatcher :=
     receive podName poolStatusLabel podMessages (Added shownPod) (podWatcher (podShown 100))\<rparr>)"

lemma demo_receive:
  "receive podName poolStatusLabel podMessages (Added shownPod) (podWatcher (podShown n)) =
   (podWatcher (podShown n))\<lparr>pending := [instanceState shownPod (podPhase (podStatus shownPod))],
     seen := replicate n (Added shownPod) @ [Added shownPod]\<rparr>"
  by (simp add: receive_def podShown_def podMessages_def shownValue_def Let_def poolStatusLabel_def shownPod_def
      lookupS_def apiLabelPoolStatus_def apiLabelWorkload_def fun_eq_iff)

lemma receive_podShown:
  "sessionStep (podShown n) ((podShown n)\<lparr>podWatcher :=
     receive podName poolStatusLabel podMessages (Added shownPod) (podWatcher (podShown n))\<rparr>)"
  using sessionStep.podLoop [OF watcherStep.receives [of "podWatcher (podShown n)" _ _ _ _ "channel (podShown n)" "Added shownPod"]]
  by (simp add: podShown_def sessionStart_def)

lemma reach_podShown: "n \<le> 100 \<Longrightarrow> sessionSteps sessionStart (podShown n)"
proof (induction n)
  case 0
  have "podShown 0 = sessionStart\<lparr>podWatcher := (podWatcher sessionStart)\<lparr>activity := Running\<rparr>,
      channel := channel sessionStart\<rparr>"
    by (simp add: podShown_def sessionStart_def watcherStart_def)
  then have "sessionStep sessionStart (podShown 0)"
    by (simp only:) (rule sessionStep.podLoop, rule watcherStep.opens, simp add: sessionStart_def watcherStart_def)
  then show ?case by blast
next
  case (Suc n)
  let ?w = "receive podName poolStatusLabel podMessages (Added shownPod) (podWatcher (podShown n))"
  let ?m = "instanceState shownPod (podPhase (podStatus shownPod))"
  let ?s = "(podShown n)\<lparr>podWatcher := ?w\<rparr>"
  have "sessionStep ?s (?s\<lparr>podWatcher := ?w\<lparr>pending := []\<rparr>, channel := channel ?s @ [?m]\<rparr>)"
  proof (rule sessionStep.podLoop)
    show "watcherStep podName poolStatusLabel podMessages (ctxDone ?s) (podWatcher ?s, channel ?s)
        (?w\<lparr>pending := []\<rparr>, channel ?s @ [?m])"
      using watcherStep.sends [of ?w ?m "[]" "channel ?s"] Suc.prems
      by (simp add: demo_receive) (simp add: podShown_def eventsCap_def)
  qed
  moreover have "?s\<lparr>podWatcher := ?w\<lparr>pending := []\<rparr>, channel := channel ?s @ [?m]\<rparr> = podShown (Suc n)"
    by (simp add: demo_receive) (simp add: podShown_def replicate_append_same [symmetric])
  moreover have "sessionSteps sessionStart (podShown n)" using Suc by simp
  ultimately show ?case using receive_podShown [of n] by (metis rtranclp.rtrancl_into_rtrancl)
qed

lemma reach_abandoned: "sessionSteps sessionStart abandoned"
proof -
  let ?s = "(podShown 100)\<lparr>podWatcher :=
     receive podName poolStatusLabel podMessages (Added shownPod) (podWatcher (podShown 100))\<rparr>"
  have "sessionStep ?s (?s\<lparr>ctxDone := True\<rparr>)"
    by (rule sessionStep.disconnects) (simp add: podShown_def sessionStart_def)
  moreover have "sessionStep (?s\<lparr>ctxDone := True\<rparr>) abandoned"
    using sessionStep.returns [of "?s\<lparr>ctxDone := True\<rparr>"]
    by (simp add: abandoned_def leave_def podShown_def sessionStart_def)
  ultimately show ?thesis
    using reach_podShown [of 100] receive_podShown [of 100]
    by (meson order_refl rtranclp.rtrancl_into_rtrancl)
qed

section \<open>Properties\<close>

text \<open>
  C18. However the loops and the writer interleave, the dashboard gets each loop's messages complete, once and in
  their order: what was written or lost on a failed write, then the at most a hundred messages of the channel, then the
  one the loop is sending are, for pods and for claims, the messages of the deliveries the loop
  took; a message is lost only when the handler returns.
\<close>

theorem socket_messages:
  assumes "handleWebSocket hasRestConfig upgraded = Streams s0" and "sessionSteps s0 s"
  shows "filter podMessage (written s @ lost s @ channel s) @ pending (podWatcher s) =
      watchPods (\<lambda>_. []) (seen (podWatcher s)) \<and>
    filter (\<lambda>m. \<not> podMessage m) (written s @ lost s @ channel s) @ pending (claimWatcher s) =
      watchClaims (\<lambda>_. []) (seen (claimWatcher s)) \<and>
    length (channel s) \<le> 100 \<and> (lost s \<noteq> [] \<longrightarrow> returned s)"
  using sessionOk_reached [OF assms] podKind.inFlow_all [of "sent s" "podWatcher s"]
    claimKind.inFlow_all [of "sent s" "claimWatcher s"]
  by (simp add: sessionOk_def sent_def eventsCap_def)

theorem socket_messages_witness:
  "handleWebSocket True True = Streams sessionStart \<and>
   filter podMessage (written abandoned @ lost abandoned @ channel abandoned) @ pending (podWatcher abandoned) =
     watchPods (\<lambda>_. []) (replicate 100 (Added shownPod) @ [Added shownPod])"
  using socket_messages [of True True sessionStart, OF _ reach_abandoned]
  by (simp add: handleWebSocket_def abandoned_def leave_def demo_receive)

text \<open>
  C19. While the handler runs nothing blocks: from every state it can be in, all messages of the deliveries so far can be
  written, without a further delivery, and then nothing waits in the channel or in a loop.
\<close>

theorem socket_drains:
  assumes "handleWebSocket hasRestConfig upgraded = Streams s0" and "sessionSteps s0 s" and "\<not> returned s"
  shows "\<exists>s'. sessionSteps s s' \<and> \<not> returned s' \<and> channel s' = [] \<and>
    seen (podWatcher s') = seen (podWatcher s) \<and> seen (claimWatcher s') = seen (claimWatcher s) \<and>
    filter podMessage (written s') = watchPods (\<lambda>_. []) (seen (podWatcher s)) \<and>
    filter (\<lambda>m. \<not> podMessage m) (written s') = watchClaims (\<lambda>_. []) (seen (claimWatcher s))"
proof -
  from drains [OF sessionOk_reached [OF assms(1,2)] assms(3)] obtain s' where
    s': "sessionSteps s s'" "sessionOk s'" "\<not> returned s'" "undelivered s' = 0" "sameDeliveries s s'" by blast
  then show ?thesis
    using podKind.inFlow_all [of "sent s'" "podWatcher s'"] claimKind.inFlow_all [of "sent s'" "claimWatcher s'"]
    by (intro exI [of _ s']) (auto simp: sessionOk_def undelivered_def sameDeliveries_def sent_def)
qed

theorem socket_drains_witness:
  "\<exists>s'. sessionSteps (podShown 100) s' \<and> filter podMessage (written s') = watchPods (\<lambda>_. []) (replicate 100 (Added shownPod))"
  using socket_drains [of True True sessionStart, OF _ reach_podShown [of 100]]
  by (auto simp: handleWebSocket_def podShown_def sessionStart_def)

text \<open>
  C22. A watch loop can outlive its connection: its send does not look at the context, so when the handler has returned with
  a full channel while the loop is sending, the loop never ends and its watch is never stopped.
\<close>

theorem pod_loop_leaks:
  assumes "handleWebSocket hasRestConfig upgraded = Streams s0" and "sessionSteps s0 s"
    and "returned s" and "length (channel s) = 100" and "pending (podWatcher s) \<noteq> []" and "sessionSteps s s'"
  shows "podWatcher s' = podWatcher s \<and> activity (podWatcher s') = Running"
proof -
  have "podLoopStuck (podWatcher s) s"
    using sessionOk_reached [OF assms(1,2)] assms(3-5) by (auto simp: podLoopStuck_def sessionOk_def inFlow_def eventsCap_def)
  with podLoopStuck_steps [OF assms(6)] show ?thesis by (auto simp: podLoopStuck_def)
qed

theorem pod_loop_leaks_witness:
  "sessionSteps sessionStart abandoned \<and> returned abandoned \<and>
   \<not> (\<exists>s'. sessionSteps abandoned s' \<and> activity (podWatcher s') = Stopped)"
proof -
  have "activity (podWatcher s') = Running" if "sessionSteps abandoned s'" for s'
    using pod_loop_leaks [of True True sessionStart, OF _ reach_abandoned _ _ _ that]
    by (simp add: handleWebSocket_def abandoned_def leave_def demo_receive) (simp add: podShown_def)
  then show ?thesis by (auto simp: reach_abandoned) (simp add: abandoned_def leave_def)
qed

end
