(* ===== verification/Trigger_Guards.thy ===== *)
theory Trigger_Guards
  imports World
begin

text \<open>
  \<open>internal/trigger\<close>: the payload of an event (\<open>adapter.go\<close>), the tenant it is for
  (\<open>tenant_resolution.go\<close>) and the guards that may refuse it (\<open>guard.go\<close>, \<open>guard_api.go\<close>).
  \<open>Raw any\<close> is a JSON value, \<open>nil\<close> being \<open>JNull\<close> and a \<open>map[string]any\<close> an object.  A value of
  \<open>Guard\<close> is one of the two types that implement the interface; the locale \<open>event_guard\<close> states
  what the gateway needs of a guard.
\<close>

section \<open>Decoding JSON into structs (encoding/json)\<close>

text \<open>
  A key names a struct field when they are equal up to the case of ASCII letters; the last
  entry wins, \<open>null\<close> leaves a non-pointer field as it is, and a value of the wrong type is an
  error reported after the rest is decoded (its text is not modelled).
\<close>

definition lowerChar :: "char \<Rightarrow> char" where
  "lowerChar c = (if 65 \<le> (of_char c :: nat) \<and> (of_char c :: nat) \<le> 90 then char_of ((of_char c :: nat) + 32) else c)"

definition namesField :: "string \<Rightarrow> string \<Rightarrow> bool" where
  "namesField name k \<longleftrightarrow> map lowerChar k = map lowerChar name"

definition fieldValues :: "string \<Rightarrow> (string \<times> json) list \<Rightarrow> json list" where
  "fieldValues name kvs = map snd (filter (\<lambda>(k, v). namesField name k) kvs)"

definition isStringish :: "json \<Rightarrow> bool" where
  "isStringish j = (case j of JStr s \<Rightarrow> True | JNull \<Rightarrow> True | _ \<Rightarrow> False)"

text \<open>A string field started at \<open>old\<close>: the last string value.\<close>

fun stringField :: "string \<Rightarrow> json list \<Rightarrow> string" where
  "stringField old [] = old"
| "stringField old (j # js) = stringField (case j of JStr s \<Rightarrow> s | _ \<Rightarrow> old) js"

definition typeError :: err where
  "typeError = errorf ''json: cannot unmarshal value into Go struct field''"

section \<open>Payload and tenant\<close>

record TriggerPayload =
  payloadText :: string
  payloadSource :: string
  payloadRaw :: json

definition payloadJson :: "TriggerPayload \<Rightarrow> json" where
  "payloadJson p = JObj [(''text'', JStr (payloadText p)), (''source'', JStr (payloadSource p)),
     (''raw'', payloadRaw p)]"

definition ResolveTenantId :: "TriggerTenant option \<Rightarrow> TriggerPayload \<Rightarrow> err + string" where
  "ResolveTenantId tenant payload =
     (case tenant of
        None \<Rightarrow> Inl (errorf ''tenant configuration is required'')
      | Some t \<Rightarrow>
          if Static t \<noteq> [] then Inr (Prefix t @ Static t)
          else if From t = [] then Inl (errorf ''tenant.static or tenant.from must be set'')
          else (case payloadRaw payload of
                  JObj kvs \<Rightarrow> (case mapOfEntries kvs (From t) of
                      None \<Rightarrow> Inl (errorf (''field '' @ Quote (From t) @ '' not found in payload''))
                    | Some v \<Rightarrow> (case v of
                        JStr str \<Rightarrow> Inr (Prefix t @ str)
                      | _ \<Rightarrow> Inl (errorf (''field '' @ Quote (From t) @ '' is not a string''))))
                | _ \<Rightarrow> Inl (errorf ''cannot extract tenant from payload: raw is not an object'')))"

section \<open>The guards\<close>

record AllowlistGuard =
  TenantIds :: "string list"
  DenyMessage :: string

definition checkAllowlist :: "AllowlistGuard \<Rightarrow> string \<Rightarrow> TriggerPayload \<Rightarrow> err option io" where
  "checkAllowlist g tenantId payload =
     ret (if tenantId \<in> set (TenantIds g) then None
          else Some (errorf (if DenyMessage g = [] then ''tenant '' @ Quote tenantId @ '' is not allowed''
                             else DenyMessage g)))"

record APIGuard =
  agTriggerName :: string
  agUrl :: string
  agTimeout :: int
  agToken :: string
  agMisconfigured :: string

definition apiGuardReasonMax :: nat where "apiGuardReasonMax = 256"
definition apiGuardDefaultTimeout :: int where "apiGuardDefaultTimeout = 2 * second"
definition apiGuardDefaultDenyMsg :: string where "apiGuardDefaultDenyMsg = ''denied by api guard''"

definition apiUnreachable :: "string \<Rightarrow> err" where
  "apiUnreachable why = errorf (''api guard unreachable: '' @ why)"

definition guardRequest :: "APIGuard \<Rightarrow> string \<Rightarrow> TriggerPayload \<Rightarrow> HttpRequest" where
  "guardRequest g tenantId payload =
     \<lparr>httpMethod = ''POST'', httpURL = agUrl g,
      httpHeaders = [(''Content-Type'', ''application/json''),
                     (''User-Agent'', ''boilerhouse-trigger-gateway'')] @
        (if agToken g \<noteq> [] then [(''Authorization'', ''Bearer '' @ agToken g)] else []),
      httpBody = Some (JObj [(''triggerName'', JStr (agTriggerName g)), (''tenantId'', JStr tenantId),
                             (''payload'', payloadJson payload)])\<rparr>"

text \<open>\<open>apiGuardResponse\<close>: the pointer \<open>allow\<close> and \<open>reason\<close>.\<close>

fun boolPtrField :: "bool option \<Rightarrow> json list \<Rightarrow> bool option" where
  "boolPtrField old [] = old"
| "boolPtrField old (j # js) =
     boolPtrField (case j of JBool b \<Rightarrow> Some b | JNull \<Rightarrow> None | _ \<Rightarrow> old) js"

definition decodeGuardResponse :: "rawJson \<Rightarrow> err + bool option \<times> string" where
  "decodeGuardResponse raw =
     (case raw of
        BadJson m \<Rightarrow> Inl (errorf m)
      | GoodJson JNull \<Rightarrow> Inr (None, [])
      | GoodJson (JObj kvs) \<Rightarrow>
          if list_all (\<lambda>j. case j of JBool b \<Rightarrow> True | JNull \<Rightarrow> True | _ \<Rightarrow> False) (fieldValues ''allow'' kvs) \<and>
             list_all isStringish (fieldValues ''reason'' kvs)
          then Inr (boolPtrField None (fieldValues ''allow'' kvs), stringField [] (fieldValues ''reason'' kvs))
          else Inl typeError
      | GoodJson _ \<Rightarrow> Inl typeError)"

definition denyReason :: "string \<Rightarrow> string" where
  "denyReason reason =
     (let r = TrimSpace reason; r = (if r = [] then apiGuardDefaultDenyMsg else r)
      in if length r > apiGuardReasonMax then take apiGuardReasonMax r else r)"

definition checkAPI :: "env \<Rightarrow> APIGuard \<Rightarrow> string \<Rightarrow> TriggerPayload \<Rightarrow> err option io" where
  "checkAPI E g tenantId payload =
     (if agMisconfigured g \<noteq> [] then ret (Some (errorf (''guard misconfigured: '' @ agMisconfigured g)))
      else do {
        r \<leftarrow> httpDo E (guardRequest g tenantId payload);
        ret (case r of
               Inl e \<Rightarrow> Some (apiUnreachable (err_msg e))
             | Inr resp \<Rightarrow>
                 if StatusCode resp \<noteq> 200
                 then Some (apiUnreachable (''status '' @ Itoa (StatusCode resp)))
                 else (case decodeGuardResponse (json_parse E (respBody resp)) of
                         Inl e \<Rightarrow> Some (apiUnreachable (err_msg e))
                       | Inr (allow, reason) \<Rightarrow> (case allow of
                           None \<Rightarrow> Some (apiUnreachable ''missing allow field'')
                         | Some True \<Rightarrow> None
                         | Some False \<Rightarrow> Some (errorf (denyReason reason)))))
      })"

datatype guard = Allowlist AllowlistGuard | Api APIGuard

fun Check :: "env \<Rightarrow> guard \<Rightarrow> string \<Rightarrow> TriggerPayload \<Rightarrow> err option io" where
  "Check E (Allowlist g) tenantId payload = checkAllowlist g tenantId payload"
| "Check E (Api g) tenantId payload = checkAPI E g tenantId payload"

section \<open>Configuration of an API guard\<close>

record apiGuardConfig =
  agcURL :: string
  agcTimeoutMs :: int
  agcSecretRef :: "(string \<times> string) option"

definition validInt :: "json \<Rightarrow> bool" where
  "validInt j = (case j of JInt i \<Rightarrow> - (2 ^ 63) \<le> i \<and> i < 2 ^ 63 | JNull \<Rightarrow> True | _ \<Rightarrow> False)"

fun intField :: "int \<Rightarrow> json list \<Rightarrow> int" where
  "intField old [] = old"
| "intField old (j # js) = intField (case j of JInt i \<Rightarrow> i | _ \<Rightarrow> old) js"

text \<open>A pointer to a struct of two strings: \<open>null\<close> clears it, an object fills it in.\<close>

definition validRef :: "json \<Rightarrow> bool" where
  "validRef j = (case j of
     JNull \<Rightarrow> True
   | JObj kvs \<Rightarrow> list_all isStringish (fieldValues ''name'' kvs) \<and>
                list_all isStringish (fieldValues ''key'' kvs)
   | _ \<Rightarrow> False)"

fun refField :: "(string \<times> string) option \<Rightarrow> json list \<Rightarrow> (string \<times> string) option" where
  "refField old [] = old"
| "refField old (j # js) = refField (case j of
     JNull \<Rightarrow> None
   | JObj kvs \<Rightarrow> (let (n, k) = (case old of None \<Rightarrow> ([], []) | Some r \<Rightarrow> r)
       in Some (stringField n (fieldValues ''name'' kvs), stringField k (fieldValues ''key'' kvs)))
   | _ \<Rightarrow> old) js"

definition decodeGuardConfig :: "RawExtension option \<Rightarrow> err + apiGuardConfig" where
  "decodeGuardConfig ext =
     (let zero = \<lparr>agcURL = [], agcTimeoutMs = 0, agcSecretRef = None\<rparr>
      in case (case ext of None \<Rightarrow> None | Some x \<Rightarrow> Raw x) of
           None \<Rightarrow> Inr zero
         | Some (BadJson m) \<Rightarrow> Inl (errorf m)
         | Some (GoodJson JNull) \<Rightarrow> Inr zero
         | Some (GoodJson (JObj kvs)) \<Rightarrow>
             if list_all isStringish (fieldValues ''url'' kvs) \<and>
                list_all validInt (fieldValues ''timeoutMs'' kvs) \<and>
                list_all validRef (fieldValues ''secretRef'' kvs)
             then Inr \<lparr>agcURL = stringField [] (fieldValues ''url'' kvs),
                       agcTimeoutMs = intField 0 (fieldValues ''timeoutMs'' kvs),
                       agcSecretRef = refField None (fieldValues ''secretRef'' kvs)\<rparr>
             else Inl typeError
         | Some (GoodJson _) \<Rightarrow> Inl typeError)"

definition millisecond :: int where "millisecond = 1000000"

text \<open>\<open>Authorization\<close> of the guard from the referenced Secret, or why it is unusable.\<close>

definition guardSecret :: "env \<Rightarrow> string \<Rightarrow> string \<times> string \<Rightarrow> APIGuard \<Rightarrow> APIGuard io" where
  "guardSecret E ns ref g =
     (case ref of (name, key) \<Rightarrow>
        if name = [] \<or> key = []
        then ret (g\<lparr>agMisconfigured := ''secretRef requires both name and key''\<rparr>)
        else do {
          s \<leftarrow> getObj SecretEv (secrets E) (nsName ns name);
          ret (case s of
                 Inl e \<Rightarrow> g\<lparr>agMisconfigured := ''guard secret unavailable: '' @ err_msg e\<rparr>
               | Inr secret \<Rightarrow> (case secretData secret key of
                   None \<Rightarrow> g\<lparr>agMisconfigured := ''guard secret unavailable: key '' @ Quote key @
                             '' not found in secret '' @ Quote name\<rparr>
                 | Some tok \<Rightarrow> g\<lparr>agToken := tok\<rparr>))
        })"

definition parseAPIGuard :: "env \<Rightarrow> string \<Rightarrow> string \<Rightarrow> TriggerGuard \<Rightarrow> APIGuard io" where
  "parseAPIGuard E ns triggerName guardSpec =
     (let g = \<lparr>agTriggerName = triggerName, agUrl = [], agTimeout = apiGuardDefaultTimeout,
               agToken = [], agMisconfigured = []\<rparr>
      in case decodeGuardConfig (guardConfig guardSpec) of
           Inl e \<Rightarrow> ret (g\<lparr>agMisconfigured := ''invalid config: '' @ err_msg e\<rparr>)
         | Inr cfg \<Rightarrow>
             if agcURL cfg = [] then ret (g\<lparr>agMisconfigured := ''url is required''\<rparr>)
             else if url_scheme E (agcURL cfg) \<notin> {Some ''http'', Some ''https''}
             then ret (g\<lparr>agMisconfigured := ''invalid url '' @ Quote (agcURL cfg)\<rparr>)
             else let g = g\<lparr>agUrl := agcURL cfg\<rparr>
                  in if agcTimeoutMs cfg < 0
                     then ret (g\<lparr>agMisconfigured := ''timeoutMs must be > 0, got '' @ Itoa (agcTimeoutMs cfg)\<rparr>)
                     else let g = (if agcTimeoutMs cfg \<noteq> 0
                                   then g\<lparr>agTimeout := wrap64 (agcTimeoutMs cfg * millisecond)\<rparr> else g)
                          in (case agcSecretRef cfg of
                                None \<Rightarrow> ret g
                              | Some ref \<Rightarrow> guardSecret E ns ref g))"

section \<open>The contract of a guard\<close>

text \<open>A guard does nothing but post to its HTTP service.\<close>

definition guardEvent :: "event \<Rightarrow> bool" where
  "guardEvent e = (case e of HttpEv q r \<Rightarrow> httpMethod q = ''POST'' | _ \<Rightarrow> False)"

locale event_guard =
  fixes check :: "string \<Rightarrow> TriggerPayload \<Rightarrow> err option io"
  assumes emits_check: "emits guardEvent (check t p)"

interpretation allowlist: event_guard "checkAllowlist g" for g
  by unfold_locales (simp add: checkAllowlist_def emits_ret)

interpretation api: event_guard "checkAPI E g" for E g
  by unfold_locales
    (auto simp: checkAPI_def httpDo_def guardEvent_def guardRequest_def intro!: emits_intros)

lemma emits_Check: "emits guardEvent (Check E g t p)"
  by (cases g) (simp_all add: allowlist.emits_check api.emits_check)

section \<open>Lemmas\<close>

lemma denyReason_length: "length (denyReason r) \<le> apiGuardReasonMax"
  by (simp add: denyReason_def Let_def apiGuardReasonMax_def apiGuardDefaultDenyMsg_def)

text \<open>The API guard allows exactly on status 200 with a body whose \<open>allow\<close> is true.\<close>

lemma checkAPI_allows:
  "wp (checkAPI E g t p) (\<lambda>r tr'. (r = None) = (agMisconfigured g = [] \<and>
     (\<exists>resp reason. drop (length tr) tr' = [HttpEv (guardRequest g t p) (Inr resp)] \<and>
        StatusCode resp = 200 \<and>
        decodeGuardResponse (json_parse E (respBody resp)) = Inr (Some True, reason)))) tr"
  by (auto simp: checkAPI_def httpDo_def wp_simps split: sum.splits option.splits bool.splits prod.splits)

section \<open>Properties\<close>

text \<open>
  C16. The API guard fails closed: it allows an event exactly when it is well configured, its one request
  was answered with status 200 and the body decodes to an object whose \<open>allow\<close> is true; an error,
  another status, a body that does not decode, or a missing \<open>allow\<close> denies.
\<close>

theorem api_guard_fails_closed:
  "result (checkAPI E g t p) tr = None \<longleftrightarrow> agMisconfigured g = [] \<and>
     (\<exists>resp reason. appended (checkAPI E g t p) tr = [HttpEv (guardRequest g t p) (Inr resp)] \<and>
        StatusCode resp = 200 \<and> decodeGuardResponse (json_parse E (respBody resp)) = Inr (Some True, reason))"
  using checkAPI_allows [of E g t p tr]
  by (simp only: wp_appended [where Q = "\<lambda>r evs. (r = None) = (agMisconfigured g = [] \<and>
     (\<exists>resp reason. evs = [HttpEv (guardRequest g t p) (Inr resp)] \<and> StatusCode resp = 200 \<and>
        decodeGuardResponse (json_parse E (respBody resp)) = Inr (Some True, reason)))"])

text \<open>
  An API guard that is not misconfigured has the configured http or https URL, and its bearer token is
  empty without a Secret reference and else the value of the referenced key of the referenced
  Secret in the gateway's namespace, read when the guard was built.
\<close>

theorem api_guard_config:
  assumes "decodeGuardConfig (guardConfig guardSpec) = Inr cfg"
    and "agMisconfigured (result (parseAPIGuard E ns name guardSpec) tr) = []"
  shows "agUrl (result (parseAPIGuard E ns name guardSpec) tr) = agcURL cfg \<and> agcURL cfg \<noteq> [] \<and>
    url_scheme E (agcURL cfg) \<in> {Some ''http'', Some ''https''} \<and> agcTimeoutMs cfg \<ge> 0 \<and>
    (case agcSecretRef cfg of
       None \<Rightarrow> agToken (result (parseAPIGuard E ns name guardSpec) tr) = []
     | Some (n, k) \<Rightarrow> (case k_get (secrets E) tr (nsName ns n) of
           Inl e \<Rightarrow> False
         | Inr sec \<Rightarrow> secretData sec k = Some (agToken (result (parseAPIGuard E ns name guardSpec) tr))))"
  using assms
  by (auto simp: parseAPIGuard_def guardSecret_def result_def getObj_def Let_def
      split: option.splits sum.splits if_splits prod.splits)

definition demoGuardSpec :: TriggerGuard where
  "demoGuardSpec = \<lparr>guardType = ''api'',
     guardConfig = Some \<lparr>Raw = Some (GoodJson (JObj [(''url'', JStr ''http://g'')]))\<rparr>\<rparr>"

definition guardEnv :: env where
  "guardEnv = offlineEnv\<lparr>url_scheme := \<lambda>_. Some ''http''\<rparr>"

lemma demoGuard_decodes:
  "decodeGuardConfig (guardConfig demoGuardSpec) =
     Inr \<lparr>agcURL = ''http://g'', agcTimeoutMs = 0, agcSecretRef = None\<rparr>"
  by (simp add: demoGuardSpec_def decodeGuardConfig_def fieldValues_def namesField_def lowerChar_def
      isStringish_def)

theorem api_guard_config_witness:
  "agUrl (result (parseAPIGuard guardEnv ''ns'' ''x'' demoGuardSpec) []) = ''http://g''"
proof -
  have "agMisconfigured (result (parseAPIGuard guardEnv ''ns'' ''x'' demoGuardSpec) []) = []"
    by (simp add: parseAPIGuard_def demoGuard_decodes Let_def result_def guardEnv_def)
  from api_guard_config [OF demoGuard_decodes this] show ?thesis by simp
qed

end
