(* ===== verification/Trigger_Drivers.thy ===== *)
theory Trigger_Drivers
  imports Trigger_Guards Go_Json
begin

text \<open>
  \<open>internal/trigger/driver*.go\<close>: how an event is sent to an instance.  The default driver posts the payload;
  the claude-code and pi drivers hold a conversation over a WebSocket, whose loops are given fuel
  (a read deadline ends them in the code); the openclaw driver reads a stream of server-sent events.
  A driver's answer is \<open>None\<close> when the fuel ran out.  A response is read whole, so a body that breaks off
  is an error of the request.
\<close>

type_synonym driver = "string \<Rightarrow> string \<Rightarrow> TriggerPayload \<Rightarrow> (err + json) option io"

section \<open>The default and the misconfigured driver\<close>

definition sendDefault :: "env \<Rightarrow> driver" where
  "sendDefault E endpoint tenantId payload = do {
     r \<leftarrow> httpDo E \<lparr>httpMethod = ''POST'', httpURL = endpoint,
            httpHeaders = [(''Content-Type'', ''application/json'')],
            httpBody = Some (payloadJson payload)\<rparr>;
     ret (Some (case r of
            Inl e \<Rightarrow> Inl (wrapf ''driver: send request'' e)
          | Inr resp \<Rightarrow>
              if StatusCode resp < 200 \<or> StatusCode resp \<ge> 300
              then Inl (errorf (''driver: endpoint returned '' @ Itoa (StatusCode resp) @ '': '' @ respBody resp))
              else if respBody resp = [] then Inr JNull
              else (case json_parse E (respBody resp) of
                      BadJson m \<Rightarrow> Inr (JStr (respBody resp))
                    | GoodJson j \<Rightarrow> Inr j)))
   }"

definition sendMisconfigured :: "string \<Rightarrow> driver" where
  "sendMisconfigured reason endpoint tenantId payload =
     ret (Some (Inl (errorf (''driver misconfigured: '' @ reason))))"

section \<open>WebSocket conversations\<close>

definition claudeCodeDefaultHandshakeTimeout :: int where "claudeCodeDefaultHandshakeTimeout = 10 * second"
definition claudeCodeDefaultOverallTimeout :: int where "claudeCodeDefaultOverallTimeout = 300 * second"
definition piDefaultOverallTimeout :: int where "piDefaultOverallTimeout = 300 * second"

definition endpointToWS :: "string \<Rightarrow> string" where
  "endpointToWS endpoint =
     (let s = TrimRight endpoint (CHR ''/'')
      in if HasPrefix s ''https://'' then ''wss://'' @ TrimPrefix s ''https://'' @ ''/ws''
         else if HasPrefix s ''http://'' then ''ws://'' @ TrimPrefix s ''http://'' @ ''/ws''
         else s @ ''/ws'')"

text \<open>\<open>conn.ReadJSON(&msg)\<close> into a \<open>map[string]any\<close>: anything but an object or null is an error.\<close>

definition readMsg :: "env \<Rightarrow> (err + (string \<times> json) list) io" where
  "readMsg E = do {
     r \<leftarrow> wsRead E;
     ret (case r of
            Inl e \<Rightarrow> Inl e
          | Inr (JObj kvs) \<Rightarrow> Inr kvs
          | Inr JNull \<Rightarrow> Inr []
          | Inr _ \<Rightarrow> Inl typeError)
   }"

definition textResult :: "string \<Rightarrow> json" where
  "textResult t = JObj [(''text'', JStr t)]"

definition exitCode :: "env \<Rightarrow> (string \<times> json) list \<Rightarrow> int" where
  "exitCode E msg =
     (case (case mapOfEntries msg ''code'' of None \<Rightarrow> None | Some v \<Rightarrow> jsonInt64 (int64_beyond E) v) of
        Some n \<Rightarrow> n | None \<Rightarrow> 1)"

definition claudeCodeExit :: "env \<Rightarrow> (string \<times> json) list \<Rightarrow> string" where
  "claudeCodeExit E msg = ''Claude Code exited with code '' @ Itoa (exitCode E msg) @
     (if textField msg ''stderr'' = [] then [] else [CHR 0x0A] @ textField msg ''stderr'')"

definition piExit :: "env \<Rightarrow> (string \<times> json) list \<Rightarrow> string" where
  "piExit E msg = ''Pi exited with code '' @ Itoa (exitCode E msg)"

text \<open>One message of the exchange: the text so far, or the end of the loop.\<close>

definition claudeCodeMessage :: "env \<Rightarrow> (string \<times> json) list \<Rightarrow> string \<Rightarrow> (err + json) + string" where
  "claudeCodeMessage E msg sb =
     (let mtype = textField msg ''type''
      in if mtype = ''output'' then Inr (sb @ textField msg ''text'')
         else if mtype = ''idle'' then Inl (Inr (textResult sb))
         else if mtype = ''exit''
         then Inl (Inr (textResult (if sb \<noteq> [] then sb else claudeCodeExit E msg)))
         else if mtype = ''error''
         then Inl (Inl (errorf (''claude-code: bridge error: '' @ textField msg ''message'')))
         else Inr sb)"

definition piMessage :: "env \<Rightarrow> (string \<times> json) list \<Rightarrow> string \<Rightarrow> (err + json) + string" where
  "piMessage E msg sb =
     (let mtype = textField msg ''type''
      in if mtype = ''output'' then Inr (sb @ textField msg ''text'')
         else if mtype = ''idle'' then Inl (Inr (textResult sb))
         else if mtype = ''exit''
         then Inl (Inr (textResult (if sb \<noteq> [] then sb else piExit E msg)))
         else if mtype = ''error'' then Inl (Inl (errorf (''pi: bridge error: '' @ textField msg ''message'')))
         else Inr sb)"

text \<open>The reading loop both drivers share; \<open>who\<close> starts the error of a failed read.\<close>

fun readOutput :: "env \<Rightarrow> string \<Rightarrow> ((string \<times> json) list \<Rightarrow> string \<Rightarrow> (err + json) + string) \<Rightarrow> string \<Rightarrow> nat
    \<Rightarrow> (err + json) option io" where
  "readOutput E who step sb 0 = ret None"
| "readOutput E who step sb (Suc n) = do {
     r \<leftarrow> readMsg E;
     case r of
       Inl e \<Rightarrow> ret (Some (Inl (wrapf (who @ '': read'') e)))
     | Inr msg \<Rightarrow> (case step msg sb of
         Inl answer \<Rightarrow> ret (Some answer)
       | Inr sb' \<Rightarrow> readOutput E who step sb' n)
   }"

text \<open>Sending the prompt, setting the read deadline, and reading the answer.\<close>

definition promptMsg :: "string \<Rightarrow> json" where
  "promptMsg t = JObj [(''text'', JStr t), (''type'', JStr ''prompt'')]"

definition initMsg :: "string \<Rightarrow> json" where
  "initMsg tenantId = JObj [(''tenantId'', JStr tenantId), (''type'', JStr ''init'')]"

definition prompt :: "env \<Rightarrow> string \<Rightarrow> ((string \<times> json) list \<Rightarrow> string \<Rightarrow> (err + json) + string) \<Rightarrow> nat
    \<Rightarrow> TriggerPayload \<Rightarrow> (err + json) option io" where
  "prompt E who step n payload = do {
     w \<leftarrow> wsWrite E (promptMsg (payloadText payload));
     case w of
       Some e \<Rightarrow> ret (Some (Inl (wrapf (who @ '': send prompt'') e)))
     | None \<Rightarrow> do {
         now \<leftarrow> timeNow E;
         readOutput E who step [] n
       }
   }"

fun claudeCodeWaitForReady :: "env \<Rightarrow> nat \<Rightarrow> err option option io" where
  "claudeCodeWaitForReady E 0 = ret None"
| "claudeCodeWaitForReady E (Suc n) = do {
     r \<leftarrow> readMsg E;
     case r of
       Inl e \<Rightarrow> ret (Some (Some (wrapf ''claude-code: handshake'' e)))
     | Inr msg \<Rightarrow> if textField msg ''type'' = ''ready'' then ret (Some None)
                  else claudeCodeWaitForReady E n
   }"

definition sendClaudeCode :: "env \<Rightarrow> nat \<Rightarrow> driver" where
  "sendClaudeCode E n endpoint tenantId payload =
     (let wsEndpoint = endpointToWS endpoint
      in do {
        d \<leftarrow> wsDial E wsEndpoint;
        case d of
          Some e \<Rightarrow> ret (Some (Inl (wrapf (''claude-code: dial '' @ wsEndpoint) e)))
        | None \<Rightarrow> do {
            w \<leftarrow> wsWrite E (initMsg tenantId);
            case w of
              Some e \<Rightarrow> ret (Some (Inl (wrapf ''claude-code: send init'' e)))
            | None \<Rightarrow> do {
                now \<leftarrow> timeNow E;
                h \<leftarrow> claudeCodeWaitForReady E n;
                case h of
                  None \<Rightarrow> ret None
                | Some (Some e) \<Rightarrow> ret (Some (Inl e))
                | Some None \<Rightarrow> prompt E ''claude-code'' (claudeCodeMessage E) n payload
              }
          }
      })"

definition sendPi :: "env \<Rightarrow> nat \<Rightarrow> driver" where
  "sendPi E n endpoint tenantId payload =
     (let wsEndpoint = endpointToWS endpoint
      in do {
        d \<leftarrow> wsDial E wsEndpoint;
        case d of
          Some e \<Rightarrow> ret (Some (Inl (wrapf (''pi: dial '' @ wsEndpoint) e)))
        | None \<Rightarrow> prompt E ''pi'' (piMessage E) n payload
      })"

section \<open>The openclaw driver\<close>

text \<open>\<open>bufio.ScanLines\<close> with a buffer of one megabyte: the lines, or the error of a line that does not fit.\<close>

definition scanMax :: nat where "scanMax = 1024 * 1024"

definition dropCR :: "string \<Rightarrow> string" where
  "dropCR line = (if line \<noteq> [] \<and> last line = CHR 0x0D then butlast line else line)"

definition bodyLines :: "string \<Rightarrow> string list" where
  "bodyLines body = (let ls = Split body (CHR 0x0A) in if last ls = [] then butlast ls else ls)"

text \<open>\<open>choices[0].delta.content\<close> of a chunk; a chunk that does not decode is skipped.\<close>

definition deltaOk :: "json \<Rightarrow> bool" where
  "deltaOk j = (case j of
     JObj kvs \<Rightarrow> list_all isStringish (fieldValues ''content'' kvs)
   | JNull \<Rightarrow> True
   | _ \<Rightarrow> False)"

definition choiceOk :: "json \<Rightarrow> bool" where
  "choiceOk j = (case j of
     JObj kvs \<Rightarrow> list_all deltaOk (fieldValues ''delta'' kvs)
   | JNull \<Rightarrow> True
   | _ \<Rightarrow> False)"

definition choicesOk :: "json \<Rightarrow> bool" where
  "choicesOk j = (case j of JArr xs \<Rightarrow> list_all choiceOk xs | JNull \<Rightarrow> True | _ \<Rightarrow> False)"

fun deltaContent :: "string \<Rightarrow> json list \<Rightarrow> string" where
  "deltaContent old [] = old"
| "deltaContent old (j # js) = deltaContent (case j of
     JObj kvs \<Rightarrow> stringField old (fieldValues ''content'' kvs) | _ \<Rightarrow> old) js"

definition choiceContent :: "json \<Rightarrow> string" where
  "choiceContent j = (case j of JObj kvs \<Rightarrow> deltaContent [] (fieldValues ''delta'' kvs) | _ \<Rightarrow> [])"

definition chunkContent :: "rawJson \<Rightarrow> string" where
  "chunkContent raw =
     (case raw of
        GoodJson (JObj kvs) \<Rightarrow>
          if list_all choicesOk (fieldValues ''choices'' kvs) \<and> fieldValues ''choices'' kvs \<noteq> []
          then (case last (fieldValues ''choices'' kvs) of
                  JArr (c # cs) \<Rightarrow> choiceContent c
                | _ \<Rightarrow> [])
          else []
      | _ \<Rightarrow> [])"

definition lineText :: "env \<Rightarrow> string \<Rightarrow> string" where
  "lineText E line =
     (if \<not> HasPrefix line ''data:'' then []
      else let data = TrimSpace (TrimPrefix line ''data:'')
           in if data = [] \<or> data = ''[DONE]'' then [] else chunkContent (json_parse E data))"

definition streamText :: "env \<Rightarrow> string \<Rightarrow> err + string" where
  "streamText E body =
     (if list_all (\<lambda>l. length l < scanMax) (bodyLines body)
      then Inr (concat (map (\<lambda>l. lineText E (dropCR l)) (bodyLines body)))
      else Inl (errorf ''bufio.Scanner: token too long''))"

definition openclawRequest :: "string \<Rightarrow> string \<Rightarrow> string \<Rightarrow> TriggerPayload \<Rightarrow> HttpRequest" where
  "openclawRequest token endpoint tenantId payload =
     \<lparr>httpMethod = ''POST'', httpURL = TrimRight endpoint (CHR ''/'') @ ''/v1/chat/completions'',
      httpHeaders = [(''Content-Type'', ''application/json''), (''Authorization'', ''Bearer '' @ token),
                     (''X-OpenClaw-Session-Key'', tenantId)],
      httpBody = Some (JObj [(''messages'', JArr [JObj [(''content'', JStr (payloadText payload)),
                                                      (''role'', JStr ''user'')]]),
                             (''model'', JStr ''openclaw''), (''stream'', JBool True)])\<rparr>"

definition sendOpenclaw :: "env \<Rightarrow> string \<Rightarrow> driver" where
  "sendOpenclaw E token endpoint tenantId payload =
     (if token = [] then ret (Some (Inl (errorf ''openclaw: gatewayToken is required'')))
      else do {
        r \<leftarrow> httpDo E (openclawRequest token endpoint tenantId payload);
        ret (Some (case r of
               Inl e \<Rightarrow> Inl (wrapf ''openclaw'' e)
             | Inr resp \<Rightarrow>
                 if StatusCode resp < 200 \<or> StatusCode resp \<ge> 300
                 then Inl (errorf (''openclaw: status '' @ Itoa (StatusCode resp) @ '': '' @ respBody resp))
                 else (case streamText E (respBody resp) of
                         Inl e \<Rightarrow> Inl (wrapf ''openclaw: read stream'' e)
                       | Inr t \<Rightarrow> Inr (textResult t))))
      })"

section \<open>Lemmas\<close>

text \<open>
  What a conversation answers, read off the messages: the text of the outputs up to the first message that
  ends it.
\<close>

definition outputText :: "(string \<times> json) list list \<Rightarrow> string" where
  "outputText ms = concat (map (\<lambda>m. if textField m ''type'' = ''output'' then textField m ''text'' else []) ms)"

definition msgOf :: "err + json \<Rightarrow> (string \<times> json) list option" where
  "msgOf r = (case r of Inr (JObj kvs) \<Rightarrow> Some kvs | Inr JNull \<Rightarrow> Some [] | _ \<Rightarrow> None)"

lemma readMsg_run: "run_state (readMsg E) tr =
    (case msgOf (ws_read E tr) of Some kvs \<Rightarrow> Inr kvs | None \<Rightarrow> Inl (case ws_read E tr of Inl e \<Rightarrow> e | Inr _ \<Rightarrow> typeError),
     tr @ [WsReadEv (ws_read E tr)])"
  by (simp add: readMsg_def wsRead_def msgOf_def split: sum.split json.split)

lemma wp_readMsg [wp_simps]: "wp (readMsg E) Q tr =
    (case msgOf (ws_read E tr) of
       Some kvs \<Rightarrow> Q (Inr kvs) (tr @ [WsReadEv (ws_read E tr)])
     | None \<Rightarrow> Q (Inl (case ws_read E tr of Inl e \<Rightarrow> e | Inr _ \<Rightarrow> typeError)) (tr @ [WsReadEv (ws_read E tr)]))"
  by (simp add: wp_def readMsg_run split: option.split)

text \<open>
  \<open>saidOk ex sb j ms\<close>: the last message is the first that ends the conversation, and \<open>j\<close> carries the
  text \<open>sb\<close> and the outputs', or that of the exit when there is none.
\<close>

definition saidOk :: "((string \<times> json) list \<Rightarrow> string) \<Rightarrow> string \<Rightarrow> json \<Rightarrow> (string \<times> json) list list \<Rightarrow> bool" where
  "saidOk ex sb j ms \<longleftrightarrow> (\<exists>before final. ms = before @ [final] \<and>
     list_all (\<lambda>m. textField m ''type'' \<notin> {''idle'', ''exit''}) before \<and>
     textField final ''type'' \<in> {''idle'', ''exit''} \<and>
     j = textResult (if textField final ''type'' = ''idle'' \<or> sb @ outputText before \<noteq> []
                     then sb @ outputText before else ex final))"

lemma saidOk_Cons:
  assumes "saidOk ex (sb @ outputText [m]) j ms" and "textField m ''type'' \<notin> {''idle'', ''exit''}"
  shows "saidOk ex sb j (m # ms)"
proof -
  from assms(1) obtain before final where b: "ms = before @ [final]"
      "list_all (\<lambda>m. textField m ''type'' \<notin> {''idle'', ''exit''}) before"
      "textField final ''type'' \<in> {''idle'', ''exit''}"
      "j = textResult (if textField final ''type'' = ''idle'' \<or> (sb @ outputText [m]) @ outputText before \<noteq> []
                       then (sb @ outputText [m]) @ outputText before else ex final)"
    unfolding saidOk_def by blast
  have "outputText [m] @ outputText before = outputText (m # before)" by (simp add: outputText_def)
  with b assms(2) show ?thesis
    unfolding saidOk_def by (intro exI [of _ "m # before"] exI [of _ final]) (simp add: append_assoc)
qed

text \<open>
  What the reading loop needs of a driver: an output adds its text, and idle and exit are what ends
  the conversation with a text.  The two bridges differ in the words of an exit only.
\<close>

locale conversation =
  fixes step :: "(string \<times> json) list \<Rightarrow> string \<Rightarrow> (err + json) + string"
    and exitText :: "(string \<times> json) list \<Rightarrow> string"
  assumes going: "step m sb = Inr sb' \<Longrightarrow>
      sb' = sb @ outputText [m] \<and> textField m ''type'' \<notin> {''idle'', ''exit''}"
    and ended: "step m sb = Inl (Inr j) \<Longrightarrow>
      textField m ''type'' \<in> {''idle'', ''exit''} \<and>
      j = textResult (if textField m ''type'' = ''idle'' \<or> sb \<noteq> [] then sb else exitText m)"
begin

lemma wp_readOutput:
  "wp (readOutput E who step sb n) (\<lambda>r tr'. \<exists>rs. tr' = tr @ map WsReadEv rs \<and>
     (\<forall>j. r = Some (Inr j) \<longrightarrow> (\<exists>ms. map msgOf rs = map Some ms \<and> saidOk exitText sb j ms))) tr"
proof (induction n arbitrary: sb tr)
  case 0
  then show ?case by (simp add: wp_simps)
next
  case (Suc n)
  let ?r = "ws_read E tr"
  let ?Q = "\<lambda>r tr'. \<exists>rs. tr' = tr @ map WsReadEv rs \<and>
     (\<forall>j. r = Some (Inr j) \<longrightarrow> (\<exists>ms. map msgOf rs = map Some ms \<and> saidOk exitText sb j ms))"
  have IH: "wp (readOutput E who step sb' n) ?Q (tr @ [WsReadEv ?r])"
    if "msgOf ?r = Some m" "step m sb = Inr sb'" for m sb'
  proof (rule wp_mono [OF Suc.IH [of sb']], elim exE conjE)
    fix r tr' rs
    assume "tr' = (tr @ [WsReadEv ?r]) @ map WsReadEv rs"
      and said: "\<forall>j. r = Some (Inr j) \<longrightarrow> (\<exists>ms. map msgOf rs = map Some ms \<and> saidOk exitText sb' j ms)"
    moreover have "\<exists>ms. map msgOf (?r # rs) = map Some ms \<and> saidOk exitText sb j ms" if "r = Some (Inr j)" for j
    proof -
      from said that obtain ms where "map msgOf rs = map Some ms" "saidOk exitText sb' j ms" by blast
      with going [OF \<open>step m sb = Inr sb'\<close>] \<open>msgOf ?r = Some m\<close> show ?thesis
        by (intro exI [of _ "m # ms"]) (simp add: saidOk_Cons)
    qed
    ultimately show "?Q r tr'" by (intro exI [of _ "?r # rs"]) simp
  qed
  have final: "saidOk exitText sb j [m]" if "step m sb = Inl (Inr j)" for m j
    using ended [OF that] unfolding saidOk_def by (intro exI [of _ "[]"] exI [of _ m]) (simp add: outputText_def)
  show ?case
  proof (cases "msgOf ?r")
    case None
    then show ?thesis by (simp add: wp_simps) (rule exI [of _ "[?r]"], simp)
  next
    case (Some m)
    show ?thesis
    proof (cases "step m sb")
      case (Inl answer)
      with Some show ?thesis
        by (simp add: wp_simps) (rule exI [of _ "[?r]"], use final in \<open>auto intro: exI [of _ "[m]"]\<close>)
    next
      case (Inr sb')
      with Some IH [OF Some Inr] show ?thesis by (simp add: wp_bind wp_readMsg)
    qed
  qed
qed

end

interpretation claude: conversation "claudeCodeMessage E" "claudeCodeExit E" for E
  by unfold_locales
    (auto simp: claudeCodeMessage_def outputText_def Let_def split: if_splits)

interpretation pi: conversation "piMessage E" "piExit E" for E
  by unfold_locales (auto simp: piMessage_def outputText_def Let_def split: if_splits)

text \<open>The handshake reads messages until one is ready.\<close>

definition isReady :: "err + json \<Rightarrow> bool" where
  "isReady r = (case msgOf r of Some m \<Rightarrow> textField m ''type'' = ''ready'' | None \<Rightarrow> False)"

lemma wp_claudeCodeWaitForReady:
  "wp (claudeCodeWaitForReady E n) (\<lambda>r tr'. \<exists>rs. tr' = tr @ map WsReadEv rs \<and>
     (r = Some None \<longrightarrow> rs \<noteq> [] \<and> isReady (last rs))) tr"
proof (induction n arbitrary: tr)
  case 0
  then show ?case by (simp add: wp_simps)
next
  case (Suc n)
  let ?r = "ws_read E tr"
  let ?Q = "\<lambda>r tr'. \<exists>rs. tr' = tr @ map WsReadEv rs \<and> (r = Some None \<longrightarrow> rs \<noteq> [] \<and> isReady (last rs))"
  have IH: "wp (claudeCodeWaitForReady E n) ?Q (tr @ [WsReadEv ?r])"
  proof (rule wp_mono [OF Suc.IH])
    fix r tr'
    assume "\<exists>rs. tr' = (tr @ [WsReadEv ?r]) @ map WsReadEv rs \<and> (r = Some None \<longrightarrow> rs \<noteq> [] \<and> isReady (last rs))"
    then obtain rs where "tr' = (tr @ [WsReadEv ?r]) @ map WsReadEv rs"
      "r = Some None \<longrightarrow> rs \<noteq> [] \<and> isReady (last rs)" by blast
    then show "?Q r tr'" by (intro exI [of _ "?r # rs"]) simp
  qed
  have "?Q (Some None) (tr @ [WsReadEv ?r])" if "isReady ?r"
    using that by (intro exI [of _ "[?r]"]) simp
  moreover have "?Q (Some (Some e)) (tr @ [WsReadEv ?r])" for e
    by (intro exI [of _ "[?r]"]) simp
  ultimately show ?case
    using IH by (simp add: wp_simps isReady_def split: option.split)
qed

lemma wp_prompt:
  assumes "\<And>tr. wp (readOutput E who step [] n) (\<lambda>r tr'. \<exists>rs. tr' = tr @ map WsReadEv rs \<and>
     (\<forall>j. r = Some (Inr j) \<longrightarrow> (\<exists>ms. map msgOf rs = map Some ms \<and> S j ms))) tr"
  shows "wp (prompt E who step n payload) (\<lambda>r tr'. \<forall>j. r = Some (Inr j) \<longrightarrow>
     (\<exists>now rs ms. tr' = tr @ [WsWriteEv (promptMsg (payloadText payload)) None, TimeEv now] @ map WsReadEv rs \<and>
        map msgOf rs = map Some ms \<and> S j ms)) tr"
proof (cases "ws_write E tr (promptMsg (payloadText payload))")
  case None
  let ?now = "time_now E (tr @ [WsWriteEv (promptMsg (payloadText payload)) None])"
  have "wp (readOutput E who step [] n) (\<lambda>r tr'. \<forall>j. r = Some (Inr j) \<longrightarrow>
     (\<exists>now rs ms. tr' = tr @ [WsWriteEv (promptMsg (payloadText payload)) None, TimeEv now] @ map WsReadEv rs \<and>
        map msgOf rs = map Some ms \<and> S j ms)) (tr @ [WsWriteEv (promptMsg (payloadText payload)) None, TimeEv ?now])"
    by (rule wp_mono [OF assms]) fastforce
  with None show ?thesis by (simp add: prompt_def wsWrite_def timeNow_def wp_simps)
qed (simp add: prompt_def wsWrite_def timeNow_def wp_simps)

lemma wp_sendPi:
  "wp (sendPi E n ep t payload) (\<lambda>r tr'. \<forall>j. r = Some (Inr j) \<longrightarrow>
     (\<exists>now rs ms. tr' = tr @ [WsDialEv (endpointToWS ep) None,
          WsWriteEv (promptMsg (payloadText payload)) None, TimeEv now] @ map WsReadEv rs \<and>
        map msgOf rs = map Some ms \<and> saidOk (piExit E) [] j ms)) tr"
proof (cases "ws_dial E tr (endpointToWS ep)")
  case None
  have "wp (prompt E ''pi'' (piMessage E) n payload) (\<lambda>r tr'. \<forall>j. r = Some (Inr j) \<longrightarrow>
     (\<exists>now rs ms. tr' = tr @ [WsDialEv (endpointToWS ep) None,
          WsWriteEv (promptMsg (payloadText payload)) None, TimeEv now] @ map WsReadEv rs \<and>
        map msgOf rs = map Some ms \<and> saidOk (piExit E) [] j ms)) (tr @ [WsDialEv (endpointToWS ep) None])"
    by (rule wp_mono [OF wp_prompt [OF pi.wp_readOutput]]) fastforce
  with None show ?thesis by (simp add: sendPi_def wsDial_def wp_simps Let_def)
qed (simp add: sendPi_def wsDial_def wp_simps Let_def)

text \<open>The whole exchange with a claude-code bridge.\<close>

definition claudeExchange :: "env \<Rightarrow> string \<Rightarrow> string \<Rightarrow> TriggerPayload \<Rightarrow> json \<Rightarrow> event list \<Rightarrow> bool" where
  "claudeExchange E ep t payload j evs \<longleftrightarrow> (\<exists>now hs now' rs ms.
     evs = [WsDialEv (endpointToWS ep) None, WsWriteEv (initMsg t) None, TimeEv now] @ map WsReadEv hs @
       [WsWriteEv (promptMsg (payloadText payload)) None, TimeEv now'] @ map WsReadEv rs \<and>
     hs \<noteq> [] \<and> isReady (last hs) \<and> map msgOf rs = map Some ms \<and> saidOk (claudeCodeExit E) [] j ms)"

lemma wp_sendClaudeCode:
  "wp (sendClaudeCode E n ep t payload) (\<lambda>r tr'. \<forall>j. r = Some (Inr j) \<longrightarrow>
     (\<exists>evs. tr' = tr @ evs \<and> claudeExchange E ep t payload j evs)) tr"
proof -
  let ?Q = "\<lambda>r tr'. \<forall>j. r = Some (Inr j) \<longrightarrow> (\<exists>evs. tr' = tr @ evs \<and> claudeExchange E ep t payload j evs)"
  let ?pre = "\<lambda>now. [WsDialEv (endpointToWS ep) None, WsWriteEv (initMsg t) None, TimeEv now]"
  have p: "wp (prompt E ''claude-code'' (claudeCodeMessage E) n payload) ?Q (tr @ ?pre now @ map WsReadEv hs)"
    if "hs \<noteq> []" "isReady (last hs)" for now hs
  proof (rule wp_mono [OF wp_prompt [OF claude.wp_readOutput]])
    fix r tr'
    assume *: "\<forall>j. r = Some (Inr j) \<longrightarrow>
       (\<exists>now' rs ms. tr' = (tr @ ?pre now @ map WsReadEv hs) @
            [WsWriteEv (promptMsg (payloadText payload)) None, TimeEv now'] @ map WsReadEv rs \<and>
          map msgOf rs = map Some ms \<and> saidOk (claudeCodeExit E) [] j ms)"
    show "?Q r tr'"
    proof (intro allI impI)
      fix j
      assume "r = Some (Inr j)"
      with * obtain now' rs ms where "tr' = (tr @ ?pre now @ map WsReadEv hs) @
            [WsWriteEv (promptMsg (payloadText payload)) None, TimeEv now'] @ map WsReadEv rs"
          "map msgOf rs = map Some ms" "saidOk (claudeCodeExit E) [] j ms" by blast
      with that show "\<exists>evs. tr' = tr @ evs \<and> claudeExchange E ep t payload j evs"
        unfolding claudeExchange_def by (intro exI conjI) (assumption | simp)+
    qed
  qed
  have h: "wp (claudeCodeWaitForReady E n) (\<lambda>h. wp (case h of
                  None \<Rightarrow> ret None
                | Some (Some e) \<Rightarrow> ret (Some (Inl e))
                | Some None \<Rightarrow> prompt E ''claude-code'' (claudeCodeMessage E) n payload) ?Q) (tr @ ?pre now)" for now
    by (rule wp_mono [OF wp_claudeCodeWaitForReady]) (use p in \<open>auto simp: wp_simps split: option.split\<close>)
  show ?thesis
    using h by (simp add: sendClaudeCode_def Let_def wsDial_def wsWrite_def timeNow_def wp_bind wp_call wp_ret
        wp_case_option split: option.split)
qed

text \<open>A stream of server-sent events, as a sender writes it: one frame per chunk, and the end marker.\<close>

definition sseFrame :: "string \<Rightarrow> string" where
  "sseFrame d = ''data: '' @ d @ [CHR 0x0A, CHR 0x0A]"

definition sseBody :: "string list \<Rightarrow> string" where
  "sseBody ds = concat (map sseFrame ds) @ sseFrame ''[DONE]''"

definition sseData :: "string \<Rightarrow> bool" where
  "sseData d \<longleftrightarrow> d \<noteq> [] \<and> TrimSpace d = d \<and> CHR 0x0A \<notin> set d \<and> d \<noteq> ''[DONE]'' \<and> length d + 6 < scanMax"

lemma TrimSpace_space: "TrimSpace (CHR '' '' # d) = TrimSpace d"
  by (simp add: TrimSpace_def isSpace_def)

lemma last_TrimSpace: "TrimSpace d = d \<Longrightarrow> d \<noteq> [] \<Longrightarrow> \<not> isSpace (last d)"
proof -
  assume t: "TrimSpace d = d" and ne: "d \<noteq> []"
  then have r: "dropWhile isSpace (rev (dropWhile isSpace d)) \<noteq> []"
    unfolding TrimSpace_def by (metis rev.simps(1))
  from hd_dropWhile [OF r] have "\<not> isSpace (last (TrimSpace d))" by (simp add: TrimSpace_def last_rev)
  with t show ?thesis by simp
qed

lemma dropCR_data: "TrimSpace d = d \<Longrightarrow> d \<noteq> [] \<Longrightarrow> dropCR (''data: '' @ d) = ''data: '' @ d"
  using last_TrimSpace [of d] by (auto simp: dropCR_def isSpace_def)

lemma lineText_data:
  "sseData d \<Longrightarrow> lineText E (dropCR (''data: '' @ d)) = chunkContent (json_parse E d)"
  unfolding sseData_def
  by (simp add: dropCR_data [unfolded append.simps] lineText_def HasPrefix_def TrimPrefix_def TrimSpace_space)

lemma lineText_done: "lineText E (dropCR (''data: '' @ ''[DONE]'')) = []"
  by (simp add: lineText_def HasPrefix_def TrimPrefix_def TrimSpace_space dropCR_def)
    (simp add: TrimSpace_def isSpace_def)

lemma Split_frame: "CHR 0x0A \<notin> set d \<Longrightarrow>
    Split (sseFrame d @ s) (CHR 0x0A) = (''data: '' @ d) # [] # Split s (CHR 0x0A)"
  using Split_append [of "CHR 0x0A" "''data: '' @ d"] by (simp add: sseFrame_def)

lemma Split_sseBody:
  "list_all sseData ds \<Longrightarrow> Split (sseBody ds) (CHR 0x0A) =
     concat (map (\<lambda>d. [''data: '' @ d, []]) ds) @ [''data: '' @ ''[DONE]'', [], []]"
proof (induction ds)
  case Nil
  show ?case
    using Split_frame [of "''[DONE]''" "[]"] by (simp add: sseBody_def)
next
  case (Cons d ds)
  then show ?case
    using Split_frame [of d "sseBody ds"] by (simp add: sseBody_def sseData_def)
qed

lemma bodyLines_sse:
  "list_all sseData ds \<Longrightarrow> bodyLines (sseBody ds) =
     concat (map (\<lambda>d. [''data: '' @ d, []]) ds) @ [''data: '' @ ''[DONE]'', []]"
  unfolding bodyLines_def Split_sseBody Let_def by (simp add: butlast_append)

lemma lineText_Nil [simp]: "lineText E (dropCR []) = []"
  by (simp add: lineText_def dropCR_def HasPrefix_def)

lemma streamText_sse:
  assumes "list_all sseData ds"
  shows "streamText E (sseBody ds) = Inr (concat (map (\<lambda>d. chunkContent (json_parse E d)) ds))"
proof -
  have "list_all (\<lambda>l. length l < scanMax) (bodyLines (sseBody ds))"
    using assms unfolding bodyLines_sse [OF assms] by (auto simp: list_all_iff sseData_def scanMax_def)
  moreover have "concat (map (\<lambda>l. lineText E (dropCR l)) (bodyLines (sseBody ds))) =
      concat (map (\<lambda>d. chunkContent (json_parse E d)) ds)"
    unfolding bodyLines_sse [OF assms] using assms
    by (induction ds) (simp_all add: lineText_data [unfolded append.simps] lineText_done [unfolded append.simps])
  ultimately show ?thesis by (simp add: streamText_def)
qed

section \<open>Enough fuel\<close>

text \<open>
  When every read after \<open>N\<close> of them fails, as the read deadline makes it, \<open>N + 1\<close> rounds are enough for
  both loops.
\<close>

definition reads :: "event list \<Rightarrow> nat" where
  "reads evs = length (filter (\<lambda>e. case e of WsReadEv r \<Rightarrow> True | _ \<Rightarrow> False) evs)"

definition readsEnd :: "env \<Rightarrow> nat \<Rightarrow> trace \<Rightarrow> bool" where
  "readsEnd E N tr \<longleftrightarrow> (\<forall>evs. N \<le> reads evs \<longrightarrow> msgOf (ws_read E (tr @ evs)) = None)"

lemma reads_simps [simp]:
  "reads [] = 0" "reads (WsReadEv r # evs) = Suc (reads evs)" "reads (xs @ ys) = reads xs + reads ys"
  by (simp_all add: reads_def)

lemma readsEnd_step: "readsEnd E (Suc N) tr \<Longrightarrow> readsEnd E N (tr @ [WsReadEv r])"
  unfolding readsEnd_def by (auto dest: spec [of _ "WsReadEv r # evs" for evs])

lemma readsEnd_extend: "readsEnd E N tr \<Longrightarrow> readsEnd E N (tr @ evs)"
  unfolding readsEnd_def by (auto dest: spec [of _ "evs @ evs'" for evs'])

lemma readsEnd_0: "readsEnd E 0 tr \<Longrightarrow> msgOf (ws_read E tr) = None"
  unfolding readsEnd_def by (auto dest: spec [of _ "[]"])

lemma wp_readOutput_ends:
  "readsEnd E N tr \<Longrightarrow> wp (readOutput E who step sb (Suc N)) (\<lambda>r tr'. r \<noteq> None) tr"
proof (induction N arbitrary: sb tr)
  case 0
  from readsEnd_0 [OF 0] show ?case by (simp add: wp_simps)
next
  case (Suc N)
  from Suc.IH [OF readsEnd_step [OF Suc.prems]]
  have "wp (readOutput E who step sb' (Suc N)) (\<lambda>r tr'. r \<noteq> None) (tr @ [WsReadEv r])" for sb' r .
  then show ?case
    by (subst readOutput.simps) (simp add: wp_simps del: readOutput.simps split: option.split sum.split)
qed

lemma wp_claudeCodeWaitForReady_ends:
  "readsEnd E N tr \<Longrightarrow> wp (claudeCodeWaitForReady E (Suc N)) (\<lambda>r tr'. r \<noteq> None) tr"
proof (induction N arbitrary: tr)
  case 0
  from readsEnd_0 [OF 0] show ?case by (simp add: wp_simps)
next
  case (Suc N)
  from Suc.IH [OF readsEnd_step [OF Suc.prems]]
  have "wp (claudeCodeWaitForReady E (Suc N)) (\<lambda>r tr'. r \<noteq> None) (tr @ [WsReadEv r])" for r .
  then show ?case
    by (subst claudeCodeWaitForReady.simps)
      (simp add: wp_simps del: claudeCodeWaitForReady.simps split: option.split)
qed

lemma wp_prompt_ends:
  "readsEnd E N tr \<Longrightarrow> wp (prompt E who step (Suc N) payload) (\<lambda>r tr'. r \<noteq> None) tr"
  using wp_readOutput_ends [OF readsEnd_extend [of E N tr]]
  by (simp add: prompt_def wsWrite_def timeNow_def wp_simps del: readOutput.simps split: option.split)

lemma wp_sendPi_ends:
  "readsEnd E N tr \<Longrightarrow> wp (sendPi E (Suc N) ep t payload) (\<lambda>r tr'. r \<noteq> None) tr"
  using wp_prompt_ends [OF readsEnd_extend [of E N tr]]
  by (simp add: sendPi_def Let_def wsDial_def wp_simps split: option.split)

lemma wp_sendClaudeCode_ends:
  assumes "readsEnd E N tr"
  shows "wp (sendClaudeCode E (Suc N) ep t payload) (\<lambda>r tr'. r \<noteq> None) tr"
proof -
  have "wp (claudeCodeWaitForReady E (Suc N)) (\<lambda>h. wp (case h of
        None \<Rightarrow> ret None
      | Some (Some e) \<Rightarrow> ret (Some (Inl e))
      | Some None \<Rightarrow> prompt E ''claude-code'' (claudeCodeMessage E) (Suc N) payload) (\<lambda>r tr'. r \<noteq> None))
      (tr @ evs)" for evs
  proof (rule wp_mono [OF wp_conj [OF wp_claudeCodeWaitForReady_ends wp_claudeCodeWaitForReady]])
    show "readsEnd E N (tr @ evs)" by (rule readsEnd_extend [OF assms])
    fix h :: "err option option" and tr'
    assume "h \<noteq> None \<and> (\<exists>rs. tr' = (tr @ evs) @ map WsReadEv rs \<and>
      (h = Some None \<longrightarrow> rs \<noteq> [] \<and> isReady (last rs)))"
    then obtain x rs where "h = Some x" "tr' = tr @ evs @ map WsReadEv rs" by auto
    with wp_prompt_ends [OF readsEnd_extend [OF assms, of "evs @ map WsReadEv rs"]]
    show "wp (case h of
        None \<Rightarrow> ret None
      | Some (Some e) \<Rightarrow> ret (Some (Inl e))
      | Some None \<Rightarrow> prompt E ''claude-code'' (claudeCodeMessage E) (Suc N) payload) (\<lambda>r tr'. r \<noteq> None) tr'"
      by (cases x) (simp_all add: wp_ret)
  qed
  then show ?thesis
    by (simp add: sendClaudeCode_def Let_def wsDial_def wsWrite_def timeNow_def wp_bind wp_call wp_ret
        wp_case_option del: claudeCodeWaitForReady.simps split: option.split)
qed

section \<open>Properties\<close>

text \<open>
  C9. The claude-code driver answers: when the read deadline lets at most \<open>N\<close> reads succeed, it ends.  An
  answer without an error is the outcome of a whole exchange: it dialled the endpoint's
  bridge, sent init with the tenant, read messages until one was ready, only then sent the prompt with
  the event's text, and read messages up to the first idle or exit; the answer is the text of the
  outputs among them, in order, or the words of the exit when there is none.
\<close>

theorem claude_exchange:
  assumes "readsEnd E N tr"
  shows "\<exists>r. result (sendClaudeCode E (Suc N) ep t payload) tr = Some r \<and>
    (\<forall>j. r = Inr j \<longrightarrow> claudeExchange E ep t payload j (appended (sendClaudeCode E (Suc N) ep t payload) tr))"
proof -
  have "wp (sendClaudeCode E (Suc N) ep t payload) (\<lambda>r tr'. \<forall>j. r = Some (Inr j) \<longrightarrow>
     claudeExchange E ep t payload j (drop (length tr) tr')) tr"
    by (rule wp_mono [OF wp_sendClaudeCode]) auto
  from this [unfolded wp_appended [where Q = "\<lambda>r evs. \<forall>j. r = Some (Inr j) \<longrightarrow> claudeExchange E ep t payload j evs"]]
    wp_sendClaudeCode_ends [OF assms, of ep t payload]
  show ?thesis by (auto simp: wp_def result_def split: prod.splits)
qed

text \<open>A bridge that says ready, hello and idle, and then nothing.\<close>

definition bridgeEnv :: env where
  "bridgeEnv = offlineEnv\<lparr>ws_dial := \<lambda>_ _. None, ws_write := \<lambda>_ _. None,
     ws_read := \<lambda>tr. if reads tr \<ge> 3 then Inl (errorf ''i/o timeout'')
       else Inr (JObj (if reads tr = 0 then [(''type'', JStr ''ready'')]
       else if reads tr = 1 then [(''type'', JStr ''output''), (''text'', JStr ''hello'')]
       else [(''type'', JStr ''idle'')]))\<rparr>"

theorem claude_exchange_witness:
  "claudeExchange bridgeEnv ''http://h'' ''t'' \<lparr>payloadText = ''hi'', payloadSource = ''cron'', payloadRaw = JNull\<rparr>
     (textResult ''hello'') (appended (sendClaudeCode bridgeEnv 4 ''http://h'' ''t''
        \<lparr>payloadText = ''hi'', payloadSource = ''cron'', payloadRaw = JNull\<rparr>) [])"
proof -
  let ?p = "\<lparr>payloadText = ''hi'', payloadSource = ''cron'', payloadRaw = JNull\<rparr>"
  have "readsEnd bridgeEnv 3 []" by (simp add: readsEnd_def bridgeEnv_def msgOf_def)
  moreover have "result (sendClaudeCode bridgeEnv (Suc 3) ''http://h'' ''t'' ?p) [] = Some (Inr (textResult ''hello''))"
    by (simp add: result_def sendClaudeCode_def bridgeEnv_def Let_def wsDial_def wsWrite_def timeNow_def
        wsRead_def readMsg_def textField_def strField_def mapOfEntries_def prompt_def claudeCodeMessage_def
        reads_def numeral_3_eq_3)
  ultimately show ?thesis
    using claude_exchange [of bridgeEnv 3 "[]" "''http://h''" "''t''" ?p] by simp
qed

text \<open>
  C25. What an openclaw gateway streams is read back: for a response of status 200 whose body is one
  server-sent event per chunk and the end marker, no line longer than the scanner's buffer, the driver
  answers the contents of the chunks in order, after one request that carries the gateway token
  and names the tenant as the session.
\<close>

theorem openclaw_stream:
  assumes "token \<noteq> []" and "list_all sseData ds"
    and "http_do E tr (openclawRequest token ep t payload) = Inr \<lparr>StatusCode = 200, respBody = sseBody ds\<rparr>"
  shows "result (sendOpenclaw E token ep t payload) tr =
      Some (Inr (textResult (concat (map (\<lambda>d. chunkContent (json_parse E d)) ds)))) \<and>
    appended (sendOpenclaw E token ep t payload) tr =
      [HttpEv (openclawRequest token ep t payload) (Inr \<lparr>StatusCode = 200, respBody = sseBody ds\<rparr>)] \<and>
    (''X-OpenClaw-Session-Key'', t) \<in> set (httpHeaders (openclawRequest token ep t payload))"
  using assms
  by (simp add: sendOpenclaw_def result_def appended_def httpDo_def streamText_sse openclawRequest_def)

definition chunkJson :: "string \<Rightarrow> json" where
  "chunkJson c = JObj [(''choices'', JArr [JObj [(''delta'', JObj [(''content'', JStr c)])]])]"

definition streamEnv :: env where
  "streamEnv = offlineEnv\<lparr>http_do := \<lambda>_ _. Inr \<lparr>StatusCode = 200, respBody = sseBody [''1'', ''2'']\<rparr>,
     json_parse := \<lambda>s. GoodJson (chunkJson (if s = ''1'' then ''Hel'' else ''lo''))\<rparr>"

theorem openclaw_stream_witness:
  "result (sendOpenclaw streamEnv ''tok'' ''http://h'' ''t'' \<lparr>payloadText = ''hi'', payloadSource = ''cron'', payloadRaw = JNull\<rparr>) [] =
     Some (Inr (textResult ''Hello''))"
proof -
  have "list_all sseData [''1'', ''2'']"
    by (simp add: sseData_def TrimSpace_def isSpace_def scanMax_def)
  from openclaw_stream [OF _ this, of "''tok''" streamEnv "[]" "''http://h''" "''t''"
      "\<lparr>payloadText = ''hi'', payloadSource = ''cron'', payloadRaw = JNull\<rparr>"]
  show ?thesis
    by (simp add: streamEnv_def chunkContent_def chunkJson_def fieldValues_def namesField_def choicesOk_def
        choiceOk_def deltaOk_def isStringish_def choiceContent_def)
qed

end
