(* ===== verification/Trigger_Gateway.thy ===== *)
theory Trigger_Gateway
  imports Trigger_Drivers
begin

text \<open>
  \<open>internal/trigger/gateway.go\<close>: the pipeline an event goes through (tenant,
  guards, claim, driver).  The two polling loops end when their context does, which the
  environment decides; they are given fuel, and \<open>None\<close> is the result that ran out of it.
\<close>

definition claimPollTimeout :: int where "claimPollTimeout = 120 * second"
definition claimPollTick :: int where "claimPollTick = 1 * second"
definition deletePollTick :: int where "deletePollTick = 500 * millisecond"

record Gateway =
  gwNamespace :: string

section \<open>Claims\<close>

definition formatEndpoint :: "ClaimEndpoint \<Rightarrow> string" where
  "formatEndpoint ep = (if Port ep > 0 then ''http://'' @ Host ep @ '':'' @ Itoa (Port ep)
     else ''http://'' @ Host ep)"

text \<open>The endpoint of an Active claim that has one with a host.\<close>

definition activeEndpoint :: "BoilerhouseClaim \<Rightarrow> ClaimEndpoint option" where
  "activeEndpoint c =
     (if claimPhase (claimStatus c) = ''Active''
      then (case Endpoint (claimStatus c) of
              None \<Rightarrow> None
            | Some ep \<Rightarrow> if Host ep \<noteq> [] then Some ep else None)
      else None)"

fun waitForClaimDeleted :: "env \<Rightarrow> NamespacedName \<Rightarrow> nat \<Rightarrow> err option option io" where
  "waitForClaimDeleted E key 0 = ret None"
| "waitForClaimDeleted E key (Suc n) = do {
     ticked \<leftarrow> waitTimer E deletePollTick;
     if \<not> ticked
     then ret (Some (Some (errorf (''timed out waiting for claim '' @ keyName key @ '' to delete''))))
     else do {
       r \<leftarrow> getObj ClaimEv (claims E) key;
       case r of
         Inl e \<Rightarrow> if isNotFound e then ret (Some None) else waitForClaimDeleted E key n
       | Inr _ \<Rightarrow> waitForClaimDeleted E key n
     }
   }"

fun waitForClaim :: "env \<Rightarrow> NamespacedName \<Rightarrow> nat \<Rightarrow> (err + string) option io" where
  "waitForClaim E key 0 = ret None"
| "waitForClaim E key (Suc n) = do {
     ticked \<leftarrow> waitTimer E claimPollTick;
     if \<not> ticked
     then ret (Some (Inl (errorf (''timed out waiting for claim '' @ keyName key @ '' to become active''))))
     else do {
       r \<leftarrow> getObj ClaimEv (claims E) key;
       case r of
         Inl e \<Rightarrow> waitForClaim E key n
       | Inr claim \<Rightarrow>
           (case activeEndpoint claim of
              Some ep \<Rightarrow> ret (Some (Inr (formatEndpoint ep)))
            | None \<Rightarrow>
                if claimPhase (claimStatus claim) = ''Error''
                then ret (Some (Inl (errorf (''claim '' @ keyName key @ '' errored: '' @
                       claimDetail (claimStatus claim)))))
                else waitForClaim E key n)
     }
   }"

definition claimNameFor :: "string \<Rightarrow> string \<Rightarrow> string" where
  "claimNameFor tenantId workloadRef = ''claim-'' @ tenantId @ ''-'' @ workloadRef"

definition gatewayClaim :: "Gateway \<Rightarrow> string \<Rightarrow> string \<Rightarrow> BoilerhouseClaim" where
  "gatewayClaim g tenantId workloadRef =
     \<lparr>claimMeta = objectMeta (claimNameFor tenantId workloadRef) (gwNamespace g),
      claimSpec = \<lparr>claimTenantId = tenantId, claimWorkloadRef = workloadRef, claimResume = Some True\<rparr>,
      claimStatus = emptyClaimStatus\<rparr>"

definition createAndWait :: "env \<Rightarrow> Gateway \<Rightarrow> string \<Rightarrow> string \<Rightarrow> nat \<Rightarrow> (err + string) option io" where
  "createAndWait E g tenantId workloadRef n = do {
     c \<leftarrow> createObj ClaimEv (claims E) (gatewayClaim g tenantId workloadRef);
     case (case c of Inr _ \<Rightarrow> None | Inl e \<Rightarrow> if isAlreadyExists e then None else Some e) of
       Some e \<Rightarrow> ret (Some (Inl (wrapf ''create claim'' e)))
     | None \<Rightarrow> waitForClaim E (nsName (gwNamespace g) (claimNameFor tenantId workloadRef)) n
   }"

definition ensureClaim :: "env \<Rightarrow> Gateway \<Rightarrow> string \<Rightarrow> string \<Rightarrow> nat \<Rightarrow> (err + string) option io" where
  "ensureClaim E g tenantId workloadRef n =
     (let key = nsName (gwNamespace g) (claimNameFor tenantId workloadRef)
      in do {
        r \<leftarrow> getObj ClaimEv (claims E) key;
        case r of
          Inl e \<Rightarrow>
            if isNotFound e then createAndWait E g tenantId workloadRef n
            else ret (Some (Inl (wrapf ''get claim'' e)))
        | Inr existing \<Rightarrow>
            (case activeEndpoint existing of
               Some ep \<Rightarrow> ret (Some (Inr (formatEndpoint ep)))
             | None \<Rightarrow>
                 if claimPhase (claimStatus existing) \<in> {''Released'', ''Error'', ''Releasing''}
                 then do {
                   d \<leftarrow> deleteObj ClaimEv (claims E) (keyOf (claimMeta existing));
                   case deleteFailed d of
                     Some e \<Rightarrow> ret (Some (Inl (wrapf (''delete terminal claim (phase='' @
                       claimPhase (claimStatus existing) @ '')'') e)))
                   | None \<Rightarrow> do {
                       w \<leftarrow> waitForClaimDeleted E key n;
                       case w of
                         None \<Rightarrow> ret None
                       | Some (Some e) \<Rightarrow> ret (Some (Inl (wrapf ''waiting for terminal claim delete'' e)))
                       | Some None \<Rightarrow> createAndWait E g tenantId workloadRef n
                     }
                 }
                 else waitForClaim E key n)
      })"

section \<open>Guards of a trigger\<close>

text \<open>\<open>parseAllowlistGuard\<close> ignores decoding errors and keeps what was decoded before them.\<close>

fun stringsField :: "string list \<Rightarrow> json list \<Rightarrow> string list" where
  "stringsField old [] = old"
| "stringsField old (j # js) = stringsField (case j of
     JArr xs \<Rightarrow> map (\<lambda>x. case x of JStr s \<Rightarrow> s | _ \<Rightarrow> []) xs
   | JNull \<Rightarrow> []
   | _ \<Rightarrow> old) js"

definition parseAllowlistGuard :: "TriggerGuard \<Rightarrow> AllowlistGuard" where
  "parseAllowlistGuard guardSpec =
     (case (case guardConfig guardSpec of None \<Rightarrow> None | Some x \<Rightarrow> Raw x) of
        Some (GoodJson (JObj kvs)) \<Rightarrow>
          \<lparr>TenantIds = stringsField [] (fieldValues ''tenantIds'' kvs),
           DenyMessage = stringField [] (fieldValues ''denyMessage'' kvs)\<rparr>
      | _ \<Rightarrow> \<lparr>TenantIds = [], DenyMessage = []\<rparr>)"

fun buildGuards :: "env \<Rightarrow> Gateway \<Rightarrow> string \<Rightarrow> TriggerGuard list \<Rightarrow> guard list io" where
  "buildGuards E g triggerName [] = ret []"
| "buildGuards E g triggerName (spec # specs) =
     (if guardType spec = ''allowlist''
      then do {
        gs \<leftarrow> buildGuards E g triggerName specs;
        ret (Allowlist (parseAllowlistGuard spec) # gs)
      }
      else if guardType spec = ''api''
      then do {
        a \<leftarrow> parseAPIGuard E (gwNamespace g) triggerName spec;
        gs \<leftarrow> buildGuards E g triggerName specs;
        ret (Api a # gs)
      }
      else buildGuards E g triggerName specs)"

section \<open>The handler\<close>

fun runGuards :: "env \<Rightarrow> guard list \<Rightarrow> string \<Rightarrow> TriggerPayload \<Rightarrow> err option io" where
  "runGuards E [] tenantId payload = ret None"
| "runGuards E (g # gs) tenantId payload = do {
     r \<leftarrow> Check E g tenantId payload;
     case r of
       Some e \<Rightarrow> ret (Some (wrapf ''guard check failed'' e))
     | None \<Rightarrow> runGuards E gs tenantId payload
   }"

definition handleEvent :: "env \<Rightarrow> Gateway \<Rightarrow> guard list \<Rightarrow> driver \<Rightarrow> BoilerhouseTriggerSpec \<Rightarrow> nat
    \<Rightarrow> TriggerPayload \<Rightarrow> (err + json) option io" where
  "handleEvent E g guards send spec n payload =
     (case ResolveTenantId (triggerTenant spec) payload of
        Inl e \<Rightarrow> ret (Some (Inl (wrapf ''resolve tenant'' e)))
      | Inr tenantId \<Rightarrow> do {
          v \<leftarrow> runGuards E guards tenantId payload;
          case v of
            Some e \<Rightarrow> ret (Some (Inl e))
          | None \<Rightarrow> do {
              c \<leftarrow> ensureClaim E g tenantId (triggerWorkloadRef spec) n;
              case c of
                None \<Rightarrow> ret None
              | Some (Inl e) \<Rightarrow> ret (Some (Inl (wrapf ''ensure claim'' e)))
              | Some (Inr endpoint) \<Rightarrow> do {
                  r \<leftarrow> send endpoint tenantId payload;
                  case r of
                    None \<Rightarrow> ret None
                  | Some (Inl e) \<Rightarrow> ret (Some (Inl (wrapf ''driver send'' e)))
                  | Some (Inr j) \<Rightarrow> ret (Some (Inr j))
                }
            }
        })"

section \<open>Lemmas\<close>

lemma emits_runGuards: "emits guardEvent (runGuards E gs t p)"
  by (induction gs) (auto intro!: emits_intros emits_Check)

text \<open>An allowlist that does not list the tenant refuses, whatever the other guards say.\<close>

lemma wp_runGuards_denied:
  assumes "Allowlist a \<in> set gs" and "t \<notin> set (TenantIds a)"
  shows "wp (runGuards E gs t p) (\<lambda>r tr'. r \<noteq> None \<and> (\<exists>evs. tr' = tr @ evs \<and> list_all guardEvent evs)) tr"
  using assms(1)
proof (induction gs arbitrary: tr)
  case (Cons g gs)
  show ?case
  proof (cases "g = Allowlist a")
    case True
    with assms(2) show ?thesis by (simp add: wp_simps checkAllowlist_def)
  next
    case False
    with Cons.prems have IH: "wp (runGuards E gs t p)
      (\<lambda>r tr'. r \<noteq> None \<and> (\<exists>evs. tr' = tr @ evs \<and> list_all guardEvent evs)) tr" for tr
      by (intro Cons.IH) auto
    show ?thesis
      unfolding runGuards.simps wp_bind
    proof (rule emits_wpI [OF emits_Check])
      fix r :: "err option" and evs
      assume evs: "list_all guardEvent evs"
      have "wp (runGuards E gs t p)
        (\<lambda>r tr'. r \<noteq> None \<and> (\<exists>evs. tr' = tr @ evs \<and> list_all guardEvent evs)) (tr @ evs)"
        by (rule wp_mono [OF IH]) (use evs in auto)
      then show "wp (case r of Some e \<Rightarrow> ret (Some (wrapf ''guard check failed'' e))
          | None \<Rightarrow> runGuards E gs t p)
        (\<lambda>r tr'. r \<noteq> None \<and> (\<exists>evs. tr' = tr @ evs \<and> list_all guardEvent evs)) (tr @ evs)"
        using evs by (cases r) (auto simp: wp_simps)
    qed
  qed
qed simp

text \<open>An endpoint that is returned was just read from an Active claim with that host and port.\<close>

definition readsEndpoint :: "NamespacedName \<Rightarrow> string \<Rightarrow> event \<Rightarrow> bool" where
  "readsEndpoint key url e =
     (case e of
        ClaimEv (GetEv k (Inr c)) \<Rightarrow> k = key \<and> claimPhase (claimStatus c) = ''Active'' \<and>
          (\<exists>ep. Endpoint (claimStatus c) = Some ep \<and> Host ep \<noteq> [] \<and>
             url = ''http://'' @ Host ep @ (if Port ep > 0 then '':'' @ Itoa (Port ep) else []))
      | _ \<Rightarrow> False)"

lemma activeEndpoint_reads: "activeEndpoint c = Some ep \<Longrightarrow> readsEndpoint key (formatEndpoint ep) (ClaimEv (GetEv key (Inr c)))"
  by (auto simp: activeEndpoint_def readsEndpoint_def formatEndpoint_def split: if_splits option.splits)

text \<open>The calls of \<open>ensureClaim\<close>: it reads the claim of one name and creates one of this tenant and workload only.\<close>

definition ensureEvent :: "NamespacedName \<Rightarrow> string \<Rightarrow> string \<Rightarrow> event \<Rightarrow> bool" where
  "ensureEvent key t w e =
     (case e of
        ClaimEv (GetEv k r) \<Rightarrow> k = key
      | ClaimEv (CreateEv c r) \<Rightarrow> keyOf (claimMeta c) = key \<and> claimTenantId (claimSpec c) = t \<and>
          claimWorkloadRef (claimSpec c) = w
      | ClaimEv (DeleteEv k r) \<Rightarrow> True
      | WaitEv d b \<Rightarrow> True
      | _ \<Rightarrow> False)"

lemma emits_ensureEvent: "emits (ensureEvent (nsName (gwNamespace g) (claimNameFor t w)) t w) (ensureClaim E g t w n)"
proof -
  let ?key = "nsName (gwNamespace g) (claimNameFor t w)" and ?P = "ensureEvent (nsName (gwNamespace g) (claimNameFor t w)) t w"
  have "emits ?P (waitForClaim E ?key n)" "emits ?P (waitForClaimDeleted E ?key n)"
    by (induction n) (auto simp: waitTimer_def getObj_def ensureEvent_def intro!: emits_intros)
  then show ?thesis
    by (auto simp: ensureClaim_def createAndWait_def Let_def getObj_def createObj_def deleteObj_def ensureEvent_def
        gatewayClaim_def keyOf_def nsName_def objectMeta_def intro!: emits_intros)
qed

definition endpointFresh :: "NamespacedName \<Rightarrow> (err + string) option \<Rightarrow> event list \<Rightarrow> bool" where
  "endpointFresh key r evs =
     (case r of
        Some (Inr url) \<Rightarrow> evs \<noteq> [] \<and> readsEndpoint key url (last evs)
      | _ \<Rightarrow> True)"

lemma endpointFresh_append:
  "endpointFresh key r evs \<Longrightarrow> endpointFresh key r (pre @ evs)"
  by (cases r; cases "the r") (simp_all add: endpointFresh_def)

lemma endpointFresh_Cons: "endpointFresh key r evs \<Longrightarrow> endpointFresh key r (x # evs)"
  using endpointFresh_append [of key r evs "[x]"] by simp

lemma endpointFresh_simps [simp]:
  "endpointFresh key None evs" "endpointFresh key (Some (Inl e)) evs"
  by (simp_all add: endpointFresh_def)

lemma wp_waitForClaim:
  "wp (waitForClaim E key n) (\<lambda>r tr'. \<exists>evs. tr' = tr @ evs \<and> endpointFresh key r evs) tr"
proof (induction n arbitrary: tr)
  case 0
  then show ?case by (simp add: wp_simps)
next
  case (Suc n)
  let ?w = "WaitEv claimPollTick True"
  have IH: "wp (waitForClaim E key n) (\<lambda>r tr'. \<exists>evs. tr' = tr @ evs \<and> endpointFresh key r evs)
      (tr @ [?w, x])" for x
    by (rule wp_mono [OF Suc.IH]) (auto intro!: endpointFresh_Cons)
  then show ?case
    by (auto simp: wp_simps waitTimer_def getObj_def endpointFresh_def [of _ "Some (Inr u)" for u] activeEndpoint_reads
        split: sum.split option.split)
qed

lemma wp_createAndWait:
  "wp (createAndWait E g t w n) (\<lambda>r tr'. \<exists>evs. tr' = tr @ evs \<and>
     endpointFresh (nsName (gwNamespace g) (claimNameFor t w)) r evs) tr"
proof -
  let ?key = "nsName (gwNamespace g) (claimNameFor t w)"
  have "wp (waitForClaim E ?key n) (\<lambda>r tr'. \<exists>evs. tr' = tr @ evs \<and> endpointFresh ?key r evs) (tr @ [x])" for x
    by (rule wp_mono [OF wp_waitForClaim]) (auto intro!: endpointFresh_Cons)
  then show ?thesis
    by (auto simp: createAndWait_def createObj_def wp_simps split: sum.split)
qed

definition claimOrWait :: "event \<Rightarrow> bool" where
  "claimOrWait e = (case e of ClaimEv _ \<Rightarrow> True | WaitEv _ _ \<Rightarrow> True | _ \<Rightarrow> False)"

lemma emits_waitForClaimDeleted: "emits claimOrWait (waitForClaimDeleted E key n)"
  by (induction n) (auto simp: waitTimer_def getObj_def claimOrWait_def intro!: emits_intros)

lemma wp_ensureClaim:
  "wp (ensureClaim E g t w n) (\<lambda>r tr'. \<exists>evs. tr' = tr @ evs \<and>
     endpointFresh (nsName (gwNamespace g) (claimNameFor t w)) r evs) tr"
proof -
  let ?key = "nsName (gwNamespace g) (claimNameFor t w)"
  let ?Q = "\<lambda>r tr'. \<exists>evs. tr' = tr @ evs \<and> endpointFresh ?key r evs"
  have c: "wp (createAndWait E g t w n) ?Q (tr @ pre)" for pre
    by (rule wp_mono [OF wp_createAndWait]) (auto intro!: endpointFresh_append)
  have wt: "wp (waitForClaim E ?key n) ?Q (tr @ pre)" for pre
    by (rule wp_mono [OF wp_waitForClaim]) (auto intro!: endpointFresh_append)
  have d: "wp (waitForClaimDeleted E ?key n) (\<lambda>w'. wp (case w' of
                 None \<Rightarrow> ret None
               | Some (Some e) \<Rightarrow> ret (Some (Inl (wrapf ''waiting for terminal claim delete'' e)))
               | Some None \<Rightarrow> createAndWait E g t w n) ?Q) (tr @ [a, b])" for a b
  proof (rule emits_wpI [OF emits_waitForClaimDeleted])
    fix w' :: "err option option" and evs
    show "wp (case w' of
                 None \<Rightarrow> ret None
               | Some (Some e) \<Rightarrow> ret (Some (Inl (wrapf ''waiting for terminal claim delete'' e)))
               | Some None \<Rightarrow> createAndWait E g t w n) ?Q ((tr @ [a, b]) @ evs)"
      using c [of "[a, b] @ evs"] by (auto simp: wp_simps split: option.split)
  qed
  show ?thesis
    using c [of "[x]" for x] wt [of "[x]" for x] d
    by (auto simp: ensureClaim_def Let_def getObj_def deleteObj_def wp_bind wp_call wp_ret
        endpointFresh_def [of _ "Some (Inr u)" for u] activeEndpoint_reads split: sum.split option.split)
qed

text \<open>Enough fuel: when the context of a poll is done after \<open>N\<close> ticks, \<open>N + 1\<close> rounds suffice.\<close>

definition waits :: "event list \<Rightarrow> nat" where
  "waits evs = length (filter (\<lambda>e. case e of WaitEv d b \<Rightarrow> True | _ \<Rightarrow> False) evs)"

definition pollEnds :: "env \<Rightarrow> int \<Rightarrow> nat \<Rightarrow> trace \<Rightarrow> bool" where
  "pollEnds E tick N tr \<longleftrightarrow> (\<forall>evs. N \<le> waits evs \<longrightarrow> \<not> timer_first E (tr @ evs) tick)"

lemma waits_simps [simp]:
  "waits [] = 0" "waits (WaitEv d b # evs) = Suc (waits evs)" "waits (ClaimEv ce # evs) = waits evs"
  "waits (xs @ ys) = waits xs + waits ys"
  by (simp_all add: waits_def)

lemma pollEnds_step: "pollEnds E tick (Suc N) tr \<Longrightarrow> pollEnds E tick N (tr @ [WaitEv d b, ClaimEv ce])"
  unfolding pollEnds_def
proof (intro allI impI)
  fix evs
  assume "\<forall>evs. Suc N \<le> waits evs \<longrightarrow> \<not> timer_first E (tr @ evs) tick" "N \<le> waits evs"
  then show "\<not> timer_first E ((tr @ [WaitEv d b, ClaimEv ce]) @ evs) tick"
    by (auto dest: spec [of _ "[WaitEv d b, ClaimEv ce] @ evs"])
qed

lemma wp_waitForClaim_ends:
  "pollEnds E claimPollTick N tr \<Longrightarrow> wp (waitForClaim E key (Suc N)) (\<lambda>r tr'. r \<noteq> None) tr"
proof (induction N arbitrary: tr)
  case 0
  then have "\<not> timer_first E tr claimPollTick" by (auto simp: pollEnds_def dest: spec [of _ "[]"])
  then show ?case by (simp add: wp_simps waitTimer_def)
next
  case (Suc N)
  from Suc.IH [OF pollEnds_step [OF Suc.prems]]
  have "wp (waitForClaim E key (Suc N)) (\<lambda>r tr'. r \<noteq> None)
    (tr @ [WaitEv d b, ClaimEv ce])" for d b ce .
  then show ?case
    by (subst waitForClaim.simps)
      (auto simp: wp_bind wp_call wp_ret waitTimer_def getObj_def simp del: waitForClaim.simps
        split: sum.split option.split)
qed

lemma pollEnds_extend: "pollEnds E tick N tr \<Longrightarrow> pollEnds E tick N (tr @ evs)"
  unfolding pollEnds_def
proof (intro allI impI)
  fix evs'
  assume "\<forall>evs. N \<le> waits evs \<longrightarrow> \<not> timer_first E (tr @ evs) tick" "N \<le> waits evs'"
  then show "\<not> timer_first E ((tr @ evs) @ evs') tick"
    by (auto dest: spec [of _ "evs @ evs'"])
qed

lemma wp_waitForClaimDeleted_ends:
  "pollEnds E deletePollTick N tr \<Longrightarrow>
   wp (waitForClaimDeleted E key (Suc N)) (\<lambda>r tr'. r \<noteq> None) tr"
proof (induction N arbitrary: tr)
  case 0
  then have "\<not> timer_first E tr deletePollTick" by (auto simp: pollEnds_def dest: spec [of _ "[]"])
  then show ?case by (simp add: wp_simps waitTimer_def)
next
  case (Suc N)
  from Suc.IH [OF pollEnds_step [OF Suc.prems]]
  have "wp (waitForClaimDeleted E key (Suc N)) (\<lambda>r tr'. r \<noteq> None)
    (tr @ [WaitEv d b, ClaimEv ce])" for d b ce .
  then show ?case
    by (subst waitForClaimDeleted.simps)
      (auto simp: wp_bind wp_call wp_ret waitTimer_def getObj_def simp del: waitForClaimDeleted.simps
        split: sum.split)
qed

lemma wp_createAndWait_ends:
  assumes "pollEnds E claimPollTick N tr"
  shows "wp (createAndWait E g t w (Suc N)) (\<lambda>r tr'. r \<noteq> None) tr"
  using wp_waitForClaim_ends [OF pollEnds_extend [OF assms]]
  by (auto simp: createAndWait_def createObj_def wp_bind wp_call wp_ret simp del: waitForClaim.simps
      split: sum.split)

lemma wp_ensureClaim_ends:
  assumes "pollEnds E claimPollTick N tr" and "pollEnds E deletePollTick N tr"
  shows "wp (ensureClaim E g t w (Suc N)) (\<lambda>r tr'. r \<noteq> None) tr"
proof -
  let ?key = "nsName (gwNamespace g) (claimNameFor t w)"
  have d: "wp (waitForClaimDeleted E ?key (Suc N)) (\<lambda>w'. wp (case w' of
                 None \<Rightarrow> ret None
               | Some (Some e) \<Rightarrow> ret (Some (Inl (wrapf ''waiting for terminal claim delete'' e)))
               | Some None \<Rightarrow> createAndWait E g t w (Suc N)) (\<lambda>r tr'. r \<noteq> None)) (tr @ evs)" for evs
  proof (rule wp_mono [OF wp_conj [OF wp_waitForClaimDeleted_ends emits_wp [OF emits_waitForClaimDeleted]]])
    show "pollEnds E deletePollTick N (tr @ evs)" by (rule pollEnds_extend [OF assms(2)])
    fix w' :: "err option option" and tr'
    assume "w' \<noteq> None \<and> (\<exists>evs'. tr' = (tr @ evs) @ evs' \<and> list_all claimOrWait evs')"
    then obtain e evs' where "w' = Some e" "tr' = tr @ evs @ evs'" by auto
    with wp_createAndWait_ends [OF pollEnds_extend [OF assms(1), of "evs @ evs'"], of g t w]
    show "wp (case w' of
                 None \<Rightarrow> ret None
               | Some (Some e) \<Rightarrow> ret (Some (Inl (wrapf ''waiting for terminal claim delete'' e)))
               | Some None \<Rightarrow> createAndWait E g t w (Suc N)) (\<lambda>r tr'. r \<noteq> None) tr'"
      by (cases e) (simp_all add: wp_ret)
  qed
  show ?thesis
    using d wp_createAndWait_ends [OF pollEnds_extend [OF assms(1)]]
      wp_waitForClaim_ends [OF pollEnds_extend [OF assms(1)]]
    by (auto simp: ensureClaim_def Let_def getObj_def deleteObj_def wp_bind wp_call wp_ret
        simp del: waitForClaim.simps waitForClaimDeleted.simps split: sum.split option.split)
qed

section \<open>Properties\<close>

text \<open>
  C15. An event for a tenant that an allowlist of the trigger does not list is refused with an error,
  whatever the other guards answer: no claim is read or written and the driver is not called;
  all that can happen is requests of API guards.
\<close>

theorem guard_denies:
  assumes "ResolveTenantId (triggerTenant spec) payload = Inr t"
    and "Allowlist a \<in> set guards" and "t \<notin> set (TenantIds a)"
  shows "(case result (handleEvent E g guards send spec n payload) tr of Some (Inl e) \<Rightarrow> True | _ \<Rightarrow> False) \<and>
    list_all guardEvent (appended (handleEvent E g guards send spec n payload) tr)"
proof -
  have "wp (handleEvent E g guards send spec n payload) (\<lambda>r tr'.
      (case r of Some (Inl e) \<Rightarrow> True | _ \<Rightarrow> False) \<and> list_all guardEvent (drop (length tr) tr')) tr"
    unfolding handleEvent_def assms(1) sum.case wp_bind
    by (rule wp_mono [OF wp_runGuards_denied [OF assms(2,3)]]) (auto simp: wp_simps)
  from this [unfolded wp_appended [where Q = "\<lambda>r evs. (case r of Some (Inl e) \<Rightarrow> True | _ \<Rightarrow> False) \<and>
      list_all guardEvent evs"]] show ?thesis .
qed

definition demoSpec :: BoilerhouseTriggerSpec where
  "demoSpec = \<lparr>triggerType = ''webhook'', triggerWorkloadRef = ''w'',
     triggerTenant = Some \<lparr>Static = [], From = ''user'', Prefix = ''u-''\<rparr>, triggerDriver = [],
     DriverOptions = None, Guards = [], triggerConfig = None\<rparr>"

definition demoPayload :: TriggerPayload where
  "demoPayload = \<lparr>payloadText = [], payloadSource = ''webhook'', payloadRaw = JObj [(''user'', JStr ''eve'')]\<rparr>"

lemma demo_resolves: "ResolveTenantId (triggerTenant demoSpec) demoPayload = Inr ''u-eve''"
  by (simp add: ResolveTenantId_def demoSpec_def demoPayload_def mapOfEntries_def)

theorem guard_denies_witness:
  "list_all guardEvent (appended (handleEvent offlineEnv \<lparr>gwNamespace = ''ns''\<rparr>
     [Allowlist \<lparr>TenantIds = [''u-ann''], DenyMessage = []\<rparr>] (sendDefault offlineEnv) demoSpec 5 demoPayload) [])"
  using guard_denies [OF demo_resolves, of "\<lparr>TenantIds = [''u-ann''], DenyMessage = []\<rparr>"
      "[Allowlist \<lparr>TenantIds = [''u-ann''], DenyMessage = []\<rparr>]"]
  by simp

text \<open>
  C35. The endpoint the gateway sends an event to comes from the last thing it did: a Get of the claim whose name is
  \<open>claim-\<close>, the tenant, a dash and the workload, which answered an Active claim with that host and port.  On the way it
  reads no other claim and creates none but one of this name for this tenant and workload.  Whose the claim is that the
  Get answers is not looked at: two tenants can share the name (the library has an example).
\<close>

theorem endpoint_fresh:
  assumes "result (ensureClaim E g t w n) tr = Some (Inr url)"
  shows "appended (ensureClaim E g t w n) tr \<noteq> [] \<and>
    readsEndpoint (nsName (gwNamespace g) (''claim-'' @ t @ ''-'' @ w)) url (last (appended (ensureClaim E g t w n) tr)) \<and>
    list_all (ensureEvent (nsName (gwNamespace g) (''claim-'' @ t @ ''-'' @ w)) t w) (appended (ensureClaim E g t w n) tr)"
proof -
  have "wp (ensureClaim E g t w n) (\<lambda>r tr'.
      endpointFresh (nsName (gwNamespace g) (claimNameFor t w)) r (drop (length tr) tr')) tr"
    by (rule wp_mono [OF wp_ensureClaim]) auto
  from this [unfolded wp_appended [where Q = "endpointFresh (nsName (gwNamespace g) (claimNameFor t w))"]] assms
  show ?thesis
    using emits_appended [OF emits_ensureEvent [where E = E and g = g and t = t and w = w and n = n], of tr] by (simp add: endpointFresh_def claimNameFor_def)
qed

text \<open>An API server that holds an active claim.\<close>

definition activeGatewayClaim :: BoilerhouseClaim where
  "activeGatewayClaim = (gatewayClaim \<lparr>gwNamespace = ''ns''\<rparr> ''t'' ''w'')\<lparr>claimStatus :=
     emptyClaimStatus\<lparr>claimPhase := ''Active'', Endpoint := Some \<lparr>Host = ''10.0.0.7'', Port = 80\<rparr>\<rparr>\<rparr>"

definition gatewayEnv :: env where
  "gatewayEnv = offlineEnv\<lparr>claims := offlineKind\<lparr>k_get := \<lambda>_ _. Inr activeGatewayClaim\<rparr>,
     timer_first := \<lambda>tr _. length tr < 4\<rparr>"

theorem endpoint_fresh_witness:
  "readsEndpoint (nsName ''ns'' ''claim-t-w'') (formatEndpoint \<lparr>Host = ''10.0.0.7'', Port = 80\<rparr>)
     (last (appended (ensureClaim gatewayEnv \<lparr>gwNamespace = ''ns''\<rparr> ''t'' ''w'' 3) []))"
proof -
  have "result (ensureClaim gatewayEnv \<lparr>gwNamespace = ''ns''\<rparr> ''t'' ''w'' 3) [] =
      Some (Inr (formatEndpoint \<lparr>Host = ''10.0.0.7'', Port = 80\<rparr>))"
    by (simp add: result_def ensureClaim_def getObj_def gatewayEnv_def activeGatewayClaim_def activeEndpoint_def Let_def)
  from endpoint_fresh [OF this] show ?thesis by simp
qed

text \<open>
  Ensuring a claim ends: when neither poll's timer wins any more after \<open>N\<close> waits, as with a context
  that is done by then, \<open>N + 1\<close> rounds of fuel give a result, an endpoint or an error, whatever
  the API server answers.
\<close>

theorem gateway_ends:
  assumes "pollEnds E claimPollTick N tr" and "pollEnds E deletePollTick N tr"
  shows "result (ensureClaim E g t w (Suc N)) tr \<noteq> None"
  using wp_ensureClaim_ends [OF assms, of g t w]
  by (simp only: wp_appended [where Q = "\<lambda>r evs. r \<noteq> None"] not_False_eq_True)

theorem gateway_ends_witness:
  "result (ensureClaim gatewayEnv \<lparr>gwNamespace = ''ns''\<rparr> ''t'' ''w'' 5) [] \<noteq> None"
proof -
  have "waits evs \<le> length evs" for evs by (simp add: waits_def)
  then have "pollEnds gatewayEnv tick 4 []" for tick
    by (auto simp: pollEnds_def gatewayEnv_def not_less intro: order_trans)
  from gateway_ends [OF this this, of "\<lparr>gwNamespace = ''ns''\<rparr>" "''t''" "''w''"] show ?thesis by simp
qed

end
