(* ===== verification/Trigger_Adapters.thy ===== *)
theory Trigger_Adapters
  imports Trigger_Drivers
begin

text \<open>
  \<open>internal/trigger/adapter_*.go\<close>: the sources of events.  An adapter calls the handler of its trigger,
  which is a parameter here, with the payload of each event: the cron adapter at every tick, the webhook
  adapter for every POST, the Telegram adapter for the updates it polls from the Bot API.  The loops
  of the cron and the Telegram adapter end with their context and are given fuel.

  \<open>ctx.Err() == nil\<close> is the answer to a timer of length zero that is raced against the context.
  The error of a cron interval that is not positive leaves out the interval the code renders into it.
\<close>

type_synonym handler = "TriggerPayload \<Rightarrow> (err + json) option io"

definition ctxAlive :: "env \<Rightarrow> bool io" where
  "ctxAlive E = waitTimer E 0"

section \<open>Cron\<close>

definition cronPayload :: "env \<Rightarrow> string \<Rightarrow> int \<Rightarrow> TriggerPayload" where
  "cronPayload E text now =
     \<lparr>payloadText = text, payloadSource = ''cron'',
      payloadRaw = JObj [(''tick'', JStr (format_rfc3339 E now))]\<rparr>"

fun cronLoop :: "env \<Rightarrow> handler \<Rightarrow> int \<Rightarrow> string \<Rightarrow> nat \<Rightarrow> unit option io" where
  "cronLoop E h interval text 0 = ret None"
| "cronLoop E h interval text (Suc n) = do {
     ticked \<leftarrow> waitTimer E interval;
     if \<not> ticked then ret (Some ())
     else do {
       now \<leftarrow> timeNow E;
       r \<leftarrow> h (cronPayload E text now);
       case r of
         None \<Rightarrow> ret None
       | Some _ \<Rightarrow> cronLoop E h interval text n
     }
   }"

definition startCron :: "env \<Rightarrow> handler \<Rightarrow> int \<Rightarrow> string \<Rightarrow> nat \<Rightarrow> err option option io" where
  "startCron E h interval text n =
     (if interval \<le> 0 then ret (Some (Some (errorf (''cron adapter: interval must be positive''))))
      else do {
        r \<leftarrow> cronLoop E h interval text n;
        ret (map_option (\<lambda>_. None) r)
      })"

section \<open>Webhook\<close>

datatype webhookReply = WebhookError int string | WebhookJson json

definition webhookPayload :: "env \<Rightarrow> string \<Rightarrow> TriggerPayload" where
  "webhookPayload E body =
     \<lparr>payloadText = [], payloadSource = ''webhook'',
      payloadRaw = (if body = [] then JNull
                    else (case json_parse E body of BadJson _ \<Rightarrow> JStr body | GoodJson j \<Rightarrow> j))\<rparr>"

definition serveWebhook :: "env \<Rightarrow> handler \<Rightarrow> string \<Rightarrow> err + string \<Rightarrow> webhookReply option io" where
  "serveWebhook E h reqMethod body =
     (if reqMethod \<noteq> ''POST'' then ret (Some (WebhookError 405 ''method not allowed''))
      else (case body of
              Inl _ \<Rightarrow> ret (Some (WebhookError 400 ''failed to read body''))
            | Inr b \<Rightarrow> do {
                r \<leftarrow> h (webhookPayload E b);
                ret (map_option (\<lambda>x. case x of
                  Inl e \<Rightarrow> WebhookError 500 (err_msg e) | Inr j \<Rightarrow> WebhookJson j) r)
              }))"

section \<open>Configuration of the Telegram adapter\<close>

definition defaultTelegramAPIBaseURL :: string where "defaultTelegramAPIBaseURL = ''https://api.telegram.org''"
definition defaultTelegramPollTimeout :: int where "defaultTelegramPollTimeout = 30"
definition telegramErrorBackoff :: int where "telegramErrorBackoff = 5 * second"
definition telegramGenericErrorReply :: string where
  "telegramGenericErrorReply = ''Sorry, something went wrong. Please try again later.''"

record telegramConfig =
  BotToken :: string
  BotTokenSecretRef :: "(string \<times> string) option"
  UpdateTypes :: "string list"
  PollTimeoutSeconds :: int
  APIBaseURL :: string

text \<open>The options other than the token, over the defaults.\<close>

definition stringItems :: "json list \<Rightarrow> string list" where
  "stringItems xs = concat (map (\<lambda>x. case x of JStr s \<Rightarrow> [s] | _ \<Rightarrow> []) xs)"

definition telegramOptions :: "env \<Rightarrow> (string \<times> json) list \<Rightarrow> telegramConfig" where
  "telegramOptions E raw =
     \<lparr>BotToken = [], BotTokenSecretRef = None,
      UpdateTypes = (case mapOfEntries raw ''updateTypes'' of
          Some (JArr xs) \<Rightarrow> if stringItems xs \<noteq> [] then stringItems xs else [''message'']
        | _ \<Rightarrow> [''message'']),
      PollTimeoutSeconds = (case mapOfEntries raw ''pollTimeoutSeconds'' of
          Some v \<Rightarrow> (case jsonInt64 (int64_beyond E) v of Some n \<Rightarrow> n | None \<Rightarrow> defaultTelegramPollTimeout)
        | None \<Rightarrow> defaultTelegramPollTimeout),
      APIBaseURL = (if textField raw ''apiBaseUrl'' \<noteq> [] then textField raw ''apiBaseUrl''
                    else defaultTelegramAPIBaseURL)\<rparr>"

definition parseTelegramConfig :: "env \<Rightarrow> (string \<times> json) list option \<Rightarrow> err + telegramConfig" where
  "parseTelegramConfig E rawMap =
     (case rawMap of
        None \<Rightarrow> Inl (errorf ''telegram adapter: config is required'')
      | Some raw \<Rightarrow>
          let token = textField raw ''botToken''
          in (case objField raw ''botTokenSecretRef'' of
                Some v \<Rightarrow>
                  if textField v ''name'' = [] \<or> textField v ''key'' = []
                  then Inl (errorf ''telegram adapter: botTokenSecretRef requires name and key'')
                  else if token \<noteq> []
                  then Inl (errorf ''telegram adapter: botToken and botTokenSecretRef are mutually exclusive'')
                  else Inr ((telegramOptions E raw)\<lparr>BotTokenSecretRef :=
                         Some (textField v ''name'', textField v ''key'')\<rparr>)
              | None \<Rightarrow>
                  if token = []
                  then Inl (errorf ''telegram adapter: botToken or botTokenSecretRef is required'')
                  else Inr ((telegramOptions E raw)\<lparr>BotToken := token\<rparr>)))"

section \<open>Calls of the Bot API\<close>

text \<open>The envelope \<open>{ok, result, description}\<close>; \<open>resOk\<close> says which results decode.\<close>

fun boolField :: "bool \<Rightarrow> json list \<Rightarrow> bool" where
  "boolField old [] = old"
| "boolField old (j # js) = boolField (case j of JBool b \<Rightarrow> b | _ \<Rightarrow> old) js"

definition isBoolish :: "json \<Rightarrow> bool" where
  "isBoolish j = (case j of JBool b \<Rightarrow> True | JNull \<Rightarrow> True | _ \<Rightarrow> False)"

definition decodeEnvelope :: "(json \<Rightarrow> bool) \<Rightarrow> rawJson \<Rightarrow> err + bool \<times> string \<times> json list" where
  "decodeEnvelope resOk raw =
     (case raw of
        BadJson m \<Rightarrow> Inl (errorf m)
      | GoodJson JNull \<Rightarrow> Inr (False, [], [])
      | GoodJson (JObj kvs) \<Rightarrow>
          if list_all isBoolish (fieldValues ''ok'' kvs) \<and>
             list_all isStringish (fieldValues ''description'' kvs) \<and>
             list_all resOk (fieldValues ''result'' kvs)
          then Inr (boolField False (fieldValues ''ok'' kvs),
                    stringField [] (fieldValues ''description'' kvs), fieldValues ''result'' kvs)
          else Inl typeError
      | GoodJson _ \<Rightarrow> Inl typeError)"

definition botGet :: "string \<Rightarrow> HttpRequest" where
  "botGet url = \<lparr>httpMethod = ''GET'', httpURL = url, httpHeaders = [], httpBody = None\<rparr>"

definition botPost :: "string \<Rightarrow> HttpRequest" where
  "botPost url = \<lparr>httpMethod = ''POST'', httpURL = url, httpHeaders = [], httpBody = None\<rparr>"

text \<open>What a call that must be answered \<open>ok\<close> returns.\<close>

definition envelopeError :: "env \<Rightarrow> string \<Rightarrow> (json \<Rightarrow> bool) \<Rightarrow> HttpResponse \<Rightarrow> err option" where
  "envelopeError E who resOk resp =
     (case decodeEnvelope resOk (json_parse E (respBody resp)) of
        Inl e \<Rightarrow> Some (wrapf (who @ '': parse body'') e)
      | Inr (ok, desc, _) \<Rightarrow> if ok then None else Some (errorf (who @ '': '' @ desc)))"

definition meOk :: "json \<Rightarrow> bool" where
  "meOk j = (case j of
     JObj kvs \<Rightarrow> list_all validInt (fieldValues ''id'' kvs) \<and> list_all isStringish (fieldValues ''username'' kvs)
   | JNull \<Rightarrow> True
   | _ \<Rightarrow> False)"

definition getMe :: "env \<Rightarrow> string \<Rightarrow> err option io" where
  "getMe E tgAPI = do {
     r \<leftarrow> httpDo E (botGet (tgAPI @ ''/getMe''));
     ret (case r of Inl e \<Rightarrow> Some e | Inr resp \<Rightarrow> envelopeError E ''telegram getMe'' meOk resp)
   }"

definition deleteWebhook :: "env \<Rightarrow> string \<Rightarrow> err option io" where
  "deleteWebhook E tgAPI = do {
     r \<leftarrow> httpDo E (botPost (tgAPI @ ''/deleteWebhook''));
     ret (case r of Inl e \<Rightarrow> Some e
          | Inr resp \<Rightarrow> envelopeError E ''telegram deleteWebhook'' (\<lambda>_. True) resp)
   }"

definition isUpdate :: "json \<Rightarrow> bool" where
  "isUpdate j = (case j of JObj _ \<Rightarrow> True | JNull \<Rightarrow> True | _ \<Rightarrow> False)"

definition updatesOk :: "json \<Rightarrow> bool" where
  "updatesOk j = (case j of JArr xs \<Rightarrow> list_all isUpdate xs | JNull \<Rightarrow> True | _ \<Rightarrow> False)"

text \<open>A null update is the nil map, which reads as the empty one.\<close>

definition updatesOf :: "json list \<Rightarrow> (string \<times> json) list list" where
  "updatesOf results =
     (case rev results of
        JArr xs # _ \<Rightarrow> map (\<lambda>x. case x of JObj kvs \<Rightarrow> kvs | _ \<Rightarrow> []) xs
      | _ \<Rightarrow> [])"

definition decodeUpdates :: "env \<Rightarrow> HttpResponse \<Rightarrow> err + (string \<times> json) list list" where
  "decodeUpdates E resp =
     (if StatusCode resp < 200 \<or> StatusCode resp \<ge> 300
      then Inl (errorf (''telegram getUpdates: status '' @ Itoa (StatusCode resp) @ '': '' @ respBody resp))
      else (case decodeEnvelope updatesOk (json_parse E (respBody resp)) of
              Inl e \<Rightarrow> Inl (wrapf ''telegram getUpdates: parse body'' e)
            | Inr (ok, desc, results) \<Rightarrow>
                if ok then Inr (updatesOf results) else Inl (errorf (''telegram getUpdates: '' @ desc))))"

definition getUpdates :: "env \<Rightarrow> string \<Rightarrow> (err + (string \<times> json) list list) io" where
  "getUpdates E pollURL = do {
     r \<leftarrow> httpDo E (botGet pollURL);
     ret (case r of Inl e \<Rightarrow> Inl e | Inr resp \<Rightarrow> decodeUpdates E resp)
   }"

definition messageRequest :: "string \<Rightarrow> int \<Rightarrow> string \<Rightarrow> HttpRequest" where
  "messageRequest tgAPI chatID text =
     \<lparr>httpMethod = ''POST'', httpURL = tgAPI @ ''/sendMessage'',
      httpHeaders = [(''Content-Type'', ''application/json'')],
      httpBody = Some (JObj [(''chat_id'', JInt chatID), (''text'', JStr text)])\<rparr>"

definition sendMessage :: "env \<Rightarrow> string \<Rightarrow> int \<Rightarrow> string \<Rightarrow> err option io" where
  "sendMessage E tgAPI chatID text = do {
     r \<leftarrow> httpDo E (messageRequest tgAPI chatID text);
     ret (case r of
            Inl e \<Rightarrow> Some e
          | Inr resp \<Rightarrow> if StatusCode resp < 200 \<or> StatusCode resp \<ge> 300
              then Some (errorf (''telegram sendMessage: status '' @ Itoa (StatusCode resp))) else None)
   }"

section \<open>Updates\<close>

record parsedTelegramUpdate =
  tuUpdateType :: string
  tuUpdateID :: int
  tuChatID :: "int option"
  tuUserID :: "int option"
  tuText :: string
  tuSenderName :: string
  tuSenderUsername :: string

definition getNumber :: "env \<Rightarrow> json option \<Rightarrow> int option" where
  "getNumber E v = (case v of None \<Rightarrow> None | Some j \<Rightarrow> jsonInt64 (int64_beyond E) j)"

definition updateIdOf :: "env \<Rightarrow> (string \<times> json) list \<Rightarrow> int" where
  "updateIdOf E update = (case getNumber E (mapOfEntries update ''update_id'') of Some n \<Rightarrow> n | None \<Rightarrow> 0)"

definition idOf :: "env \<Rightarrow> (string \<times> json) list option \<Rightarrow> int option" where
  "idOf E obj = (case obj of None \<Rightarrow> None | Some kvs \<Rightarrow> getNumber E (mapOfEntries kvs ''id''))"

definition senderNameOf :: "(string \<times> json) list \<Rightarrow> string" where
  "senderNameOf from =
     (let first = textField from ''first_name''; last = textField from ''last_name'';
          combined = first @ (if last \<noteq> [] then (if first \<noteq> [] then '' '' else []) @ last else [])
      in if combined \<noteq> [] then combined else textField from ''username'')"

text \<open>The fields of a message or callback whose chat is \<open>chat\<close> and whose text is \<open>text\<close>.\<close>

definition parsedFrom :: "env \<Rightarrow> string \<Rightarrow> (string \<times> json) list \<Rightarrow> (string \<times> json) list option \<Rightarrow> (string \<times> json) list
    \<Rightarrow> string \<Rightarrow> parsedTelegramUpdate" where
  "parsedFrom E updateType update chat body text =
     \<lparr>tuUpdateType = updateType, tuUpdateID = updateIdOf E update, tuChatID = idOf E chat,
      tuUserID = idOf E (objField body ''from''), tuText = text,
      tuSenderName = (case objField body ''from'' of None \<Rightarrow> [] | Some f \<Rightarrow> senderNameOf f),
      tuSenderUsername = (case objField body ''from'' of None \<Rightarrow> [] | Some f \<Rightarrow> textField f ''username'')\<rparr>"

definition parseTelegramUpdate :: "env \<Rightarrow> (string \<times> json) list \<Rightarrow> parsedTelegramUpdate option" where
  "parseTelegramUpdate E update =
     (case objField update ''message'' of
        Some m \<Rightarrow> Some (parsedFrom E ''message'' update (objField m ''chat'') m (textField m ''text''))
      | None \<Rightarrow> (case objField update ''edited_message'' of
          Some m \<Rightarrow> Some (parsedFrom E ''edited_message'' update (objField m ''chat'') m (textField m ''text''))
        | None \<Rightarrow> (case objField update ''callback_query'' of
            Some cb \<Rightarrow> Some (parsedFrom E ''callback_query'' update
                (case objField cb ''message'' of None \<Rightarrow> None | Some m \<Rightarrow> objField m ''chat'') cb
                (textField cb ''data''))
          | None \<Rightarrow> None)))"

definition usernameOrId :: "parsedTelegramUpdate \<Rightarrow> string" where
  "usernameOrId p =
     (if tuSenderUsername p \<noteq> [] then tuSenderUsername p
      else (case tuUserID p of
              Some n \<Rightarrow> Itoa n
            | None \<Rightarrow> (case tuChatID p of Some n \<Rightarrow> Itoa n | None \<Rightarrow> [])))"

definition setOpt :: "string \<Rightarrow> json option \<Rightarrow> (string \<times> json) list \<Rightarrow> (string \<times> json) list" where
  "setOpt key v kvs = (case v of None \<Rightarrow> kvs | Some j \<Rightarrow> setField key j kvs)"

definition strOpt :: "string \<Rightarrow> json option" where
  "strOpt s = (if s \<noteq> [] then Some (JStr s) else None)"

definition enrichedRaw :: "parsedTelegramUpdate \<Rightarrow> (string \<times> json) list \<Rightarrow> (string \<times> json) list" where
  "enrichedRaw p raw =
     setOpt ''text'' (strOpt (tuText p))
      (setField ''updateType'' (JStr (tuUpdateType p))
       (setField ''usernameOrId'' (JStr (usernameOrId p))
        (setOpt ''username'' (strOpt (tuSenderUsername p))
         (setOpt ''userId'' (map_option JInt (tuUserID p))
          (setOpt ''chatId'' (map_option JInt (tuChatID p)) raw)))))"

definition telegramUpdateToPayload :: "parsedTelegramUpdate \<Rightarrow> (string \<times> json) list \<Rightarrow> TriggerPayload" where
  "telegramUpdateToPayload p raw =
     \<lparr>payloadText = tuText p, payloadSource = ''telegram'', payloadRaw = JObj (enrichedRaw p raw)\<rparr>"

definition extractResponseText :: "json \<Rightarrow> string" where
  "extractResponseText j = (case j of JStr s \<Rightarrow> s | JObj kvs \<Rightarrow> textField kvs ''text'' | _ \<Rightarrow> [])"

section \<open>Polling\<close>

definition pollURL :: "telegramConfig \<Rightarrow> string \<Rightarrow> int \<Rightarrow> string" where
  "pollURL cfg tgAPI offset =
     tgAPI @ ''/getUpdates?timeout='' @ Itoa (PollTimeoutSeconds cfg) @ ''&offset='' @ Itoa offset @
     ''&allowed_updates='' @ QueryEscape (marshalStrings (UpdateTypes cfg))"

definition nextOffset :: "env \<Rightarrow> int \<Rightarrow> (string \<times> json) list \<Rightarrow> int" where
  "nextOffset E offset update =
     (if updateIdOf E update \<ge> offset then wrap64 (updateIdOf E update + 1) else offset)"

definition replyText :: "err + json \<Rightarrow> string" where
  "replyText r =
     (case r of
        Inl _ \<Rightarrow> telegramGenericErrorReply
      | Inr j \<Rightarrow> if extractResponseText j = [] then telegramGenericErrorReply else extractResponseText j)"

definition dispatchUpdate :: "env \<Rightarrow> handler \<Rightarrow> telegramConfig \<Rightarrow> string \<Rightarrow> (string \<times> json) list
    \<Rightarrow> unit option io" where
  "dispatchUpdate E h cfg tgAPI update =
     (case parseTelegramUpdate E update of
        None \<Rightarrow> ret (Some ())
      | Some p \<Rightarrow>
          if tuUpdateType p \<notin> set (UpdateTypes cfg) then ret (Some ())
          else do {
            r \<leftarrow> h (telegramUpdateToPayload p update);
            case r of
              None \<Rightarrow> ret None
            | Some x \<Rightarrow> (case tuChatID p of
                None \<Rightarrow> ret (Some ())
              | Some chat \<Rightarrow> do {
                  s \<leftarrow> sendMessage E tgAPI chat (replyText x);
                  ret (Some ())
                })
          })"

fun processUpdates :: "env \<Rightarrow> handler \<Rightarrow> telegramConfig \<Rightarrow> string \<Rightarrow> int \<Rightarrow> (string \<times> json) list list
    \<Rightarrow> int option io" where
  "processUpdates E h cfg tgAPI offset [] = ret (Some offset)"
| "processUpdates E h cfg tgAPI offset (u # us) = do {
     d \<leftarrow> dispatchUpdate E h cfg tgAPI u;
     case d of
       None \<Rightarrow> ret None
     | Some _ \<Rightarrow> processUpdates E h cfg tgAPI (nextOffset E offset u) us
   }"

text \<open>A failed poll: the loop goes on after a pause, unless the context has ended.\<close>

definition backOff :: "env \<Rightarrow> unit option io \<Rightarrow> unit option io" where
  "backOff E again = do {
     alive \<leftarrow> ctxAlive E;
     if \<not> alive then ret (Some ())
     else do {
       slept \<leftarrow> waitTimer E telegramErrorBackoff;
       if \<not> slept then ret (Some ()) else again
     }
   }"

text \<open>The rest of a round, from the answer to \<open>getUpdates\<close> on.\<close>

definition afterPoll :: "env \<Rightarrow> handler \<Rightarrow> telegramConfig \<Rightarrow> string \<Rightarrow> (int \<Rightarrow> unit option io) \<Rightarrow> int
    \<Rightarrow> err + (string \<times> json) list list \<Rightarrow> unit option io" where
  "afterPoll E h cfg tgAPI again offset u = (case u of
     Inl e \<Rightarrow> backOff E (again offset)
   | Inr us \<Rightarrow> do {
       o' \<leftarrow> processUpdates E h cfg tgAPI offset us;
       case o' of
         None \<Rightarrow> ret None
       | Some offset' \<Rightarrow> again offset'
     })"

fun pollLoop :: "env \<Rightarrow> handler \<Rightarrow> telegramConfig \<Rightarrow> string \<Rightarrow> int \<Rightarrow> nat \<Rightarrow> unit option io" where
  "pollLoop E h cfg tgAPI offset 0 = ret None"
| "pollLoop E h cfg tgAPI offset (Suc n) = do {
     alive \<leftarrow> ctxAlive E;
     if \<not> alive then ret (Some ())
     else do {
       u \<leftarrow> getUpdates E (pollURL cfg tgAPI offset);
       afterPoll E h cfg tgAPI (\<lambda>offset'. pollLoop E h cfg tgAPI offset' n) offset u
     }
   }"

definition startTelegram :: "env \<Rightarrow> handler \<Rightarrow> (string \<times> json) list option \<Rightarrow> nat \<Rightarrow> err option option io" where
  "startTelegram E h rawMap n =
     (case parseTelegramConfig E rawMap of
        Inl e \<Rightarrow> ret (Some (Some e))
      | Inr cfg \<Rightarrow>
          let tgAPI = APIBaseURL cfg @ ''/bot'' @ BotToken cfg
          in do {
            m \<leftarrow> getMe E tgAPI;
            case m of
              Some e \<Rightarrow> ret (Some None)
            | None \<Rightarrow> do {
                d \<leftarrow> deleteWebhook E tgAPI;
                r \<leftarrow> pollLoop E h cfg tgAPI 0 n;
                ret (map_option (\<lambda>_. None) r)
              }
          })"

section \<open>Offsets\<close>

text \<open>The updates an answer of \<open>getUpdates\<close> carried, and the offset a history of answers leads to.\<close>

definition notGet :: "event \<Rightarrow> bool" where
  "notGet e = (case e of HttpEv q r \<Rightarrow> httpMethod q \<noteq> ''GET'' | _ \<Rightarrow> True)"

definition answeredUpdates :: "env \<Rightarrow> event \<Rightarrow> (string \<times> json) list list" where
  "answeredUpdates E e =
     (case e of
        HttpEv q (Inr resp) \<Rightarrow>
          if httpMethod q = ''GET'' then (case decodeUpdates E resp of Inr us \<Rightarrow> us | Inl _ \<Rightarrow> []) else []
      | _ \<Rightarrow> [])"

definition received :: "env \<Rightarrow> event list \<Rightarrow> (string \<times> json) list list" where
  "received E evs = concat (map (answeredUpdates E) evs)"

definition offsetAfter :: "env \<Rightarrow> event list \<Rightarrow> int" where
  "offsetAfter E evs = foldl (nextOffset E) 0 (received E evs)"

text \<open>
  The id an update was sent with, the integer part of the float64 of its number (0 when there is none), and the
  offset one past the greatest id.
\<close>

definition sentId :: "(string \<times> json) list \<Rightarrow> int" where
  "sentId update = (case mapOfEntries update ''update_id'' of
     Some j \<Rightarrow> (case jsonTrunc j of Some v \<Rightarrow> v | None \<Rightarrow> 0)
   | None \<Rightarrow> 0)"

definition pastAll :: "(string \<times> json) list list \<Rightarrow> int" where
  "pastAll us = foldl max 0 (map (\<lambda>u. sentId u + 1) us)"

definition pollGuard :: "env \<Rightarrow> telegramConfig \<Rightarrow> string \<Rightarrow> event list \<Rightarrow> event \<Rightarrow> bool" where
  "pollGuard E cfg tgAPI pre e = (case e of
      HttpEv q r \<Rightarrow> httpMethod q = ''GET'' \<longrightarrow>
        q = botGet (pollURL cfg tgAPI (offsetAfter E pre)) \<and>
        (list_all (\<lambda>u. fitsInt64 (sentId u)) (received E pre) \<longrightarrow>
           offsetAfter E pre = pastAll (received E pre) \<and> pastAll (received E pre) < 2 ^ 63 \<and>
           list_all (\<lambda>u. sentId u < pastAll (received E pre)) (received E pre))
    | _ \<Rightarrow> True)"

lemma notGet_simps [simp]:
  "notGet (WaitEv d b)" "notGet (TimeEv t)" "notGet (HttpEv q r) \<longleftrightarrow> httpMethod q \<noteq> ''GET''"
  by (simp_all add: notGet_def)

lemma answered_notGet: "notGet e \<Longrightarrow> answeredUpdates E e = []"
  by (auto simp: notGet_def answeredUpdates_def split: event.splits sum.splits)

lemma received_append [simp]: "received E (xs @ ys) = received E xs @ received E ys"
  by (simp add: received_def)

lemma received_notGet: "list_all notGet evs \<Longrightarrow> received E evs = []"
  by (induction evs) (simp_all add: received_def answered_notGet)

lemma offsetAfter_notGet: "list_all notGet evs \<Longrightarrow> offsetAfter E (pre @ evs) = offsetAfter E pre"
  by (simp add: offsetAfter_def received_notGet)

lemma pollGuard_notGet: "list_all notGet evs \<Longrightarrow> guarded (pollGuard E cfg tgAPI) pre evs"
  by (erule guarded_list_all) (auto simp: pollGuard_def split: event.splits)

lemma fits_bounds: "fitsInt64 (sentId u) \<Longrightarrow> - (2 ^ 63) \<le> sentId u \<and> sentId u + 1 < 2 ^ 63"
  by (auto simp: sentId_def fitsInt64_def dest!: jsonTrunc_less split: option.splits)

lemma updateIdOf_fits: "fitsInt64 (sentId u) \<Longrightarrow> updateIdOf E u = sentId u"
  by (auto simp: updateIdOf_def getNumber_def jsonInt64_def sentId_def int64OfFloat_def split: option.splits)

lemma nextOffset_max: "fitsInt64 (sentId u) \<Longrightarrow> nextOffset E offset u = max offset (sentId u + 1)"
  using fits_bounds [of u] by (auto simp: nextOffset_def updateIdOf_fits wrap64_id)

lemma foldl_nextOffset:
  "list_all (\<lambda>u. fitsInt64 (sentId u)) us \<Longrightarrow> foldl (nextOffset E) offset us = foldl max offset (map (\<lambda>u. sentId u + 1) us)"
  by (induction us arbitrary: offset) (simp_all add: nextOffset_max)

lemma foldl_max_bounds:
  "(offset :: int) \<le> foldl max offset xs \<and> list_all (\<lambda>x. x \<le> foldl max offset xs) xs \<and>
   (\<forall>b. offset < b \<longrightarrow> list_all (\<lambda>x. x < b) xs \<longrightarrow> foldl max offset xs < b)"
proof (induction xs arbitrary: offset)
  case (Cons x xs)
  from Cons.IH [of "max offset x"] show ?case by auto
qed simp

lemma pastAll_bounds:
  assumes "list_all (\<lambda>u. fitsInt64 (sentId u)) us"
  shows "pastAll us < 2 ^ 63 \<and> list_all (\<lambda>u. sentId u < pastAll us) us"
proof -
  from assms have "list_all (\<lambda>u. sentId u + 1 < 2 ^ 63) us"
    unfolding list_all_iff using fits_bounds by blast
  with foldl_max_bounds [of 0 "map (\<lambda>u. sentId u + 1) us"] show ?thesis
    by (simp add: pastAll_def list.pred_map comp_def add1_zle_eq)
qed

lemma offsetAfter_past:
  "list_all (\<lambda>u. fitsInt64 (sentId u)) (received E evs) \<Longrightarrow> offsetAfter E evs = pastAll (received E evs)"
  by (simp add: offsetAfter_def pastAll_def foldl_nextOffset)

lemma pollGuard_poll: "guarded (pollGuard E cfg tgAPI) pre
    [HttpEv (botGet (pollURL cfg tgAPI (offsetAfter E pre))) r]"
  using pastAll_bounds [of "received E pre"] by (auto simp: pollGuard_def offsetAfter_past)

lemma offsetAfter_poll:
  "offsetAfter E (pre @ [HttpEv (botGet url) (Inr resp)]) =
     (case decodeUpdates E resp of Inr us \<Rightarrow> foldl (nextOffset E) (offsetAfter E pre) us | Inl _ \<Rightarrow> offsetAfter E pre)"
  by (simp add: offsetAfter_def received_def answeredUpdates_def botGet_def split: sum.split)

lemma offsetAfter_error: "offsetAfter E (pre @ [HttpEv q (Inl e)]) = offsetAfter E pre"
  by (simp add: offsetAfter_def received_def answeredUpdates_def)

lemma offsetAfter_wait: "offsetAfter E (pre @ [WaitEv d b]) = offsetAfter E pre"
  by (rule offsetAfter_notGet) simp

section \<open>The loop against the history\<close>

lemma wp_ctxAlive [wp_simps]:
  "wp (ctxAlive E) Q tr = Q (timer_first E tr 0) (tr @ [WaitEv 0 (timer_first E tr 0)])"
  by (simp add: ctxAlive_def waitTimer_def wp_simps)

lemma wp_getUpdates [wp_simps]:
  "wp (getUpdates E url) Q tr =
     Q (case http_do E tr (botGet url) of Inl e \<Rightarrow> Inl e | Inr resp \<Rightarrow> decodeUpdates E resp)
       (tr @ [HttpEv (botGet url) (http_do E tr (botGet url))])"
  by (simp add: getUpdates_def httpDo_def wp_simps)

lemma pollGuard_round:
  assumes "offset = offsetAfter E pre" and "list_all notGet evs"
  shows "guarded (pollGuard E cfg tgAPI) pre
    ([WaitEv 0 True, HttpEv (botGet (pollURL cfg tgAPI offset)) r] @ evs)"
proof -
  have "guarded (pollGuard E cfg tgAPI) pre [WaitEv 0 True, HttpEv (botGet (pollURL cfg tgAPI offset)) r]"
    using pollGuard_poll [of E cfg tgAPI "pre @ [WaitEv 0 True]" r] pollGuard_notGet [of "[WaitEv 0 True]" E cfg tgAPI pre]
      assms(1) by (simp add: offsetAfter_wait)
  then show ?thesis
    using pollGuard_notGet [OF assms(2), of E cfg tgAPI "pre @ [WaitEv 0 True, HttpEv (botGet (pollURL cfg tgAPI offset)) r]"]
    by (simp only: guarded_append)
qed

lemma offsetAfter_round:
  assumes "offset = offsetAfter E pre" and "list_all notGet evs"
  shows "offsetAfter E ((pre @ [WaitEv 0 True, HttpEv (botGet url) r]) @ evs) =
      (case r of Inr resp \<Rightarrow> (case decodeUpdates E resp of Inr us \<Rightarrow> foldl (nextOffset E) offset us | Inl _ \<Rightarrow> offset)
       | Inl _ \<Rightarrow> offset)"
  unfolding offsetAfter_notGet [OF assms(2)]
  using offsetAfter_poll [of E "pre @ [WaitEv 0 True]"] offsetAfter_error [of E "pre @ [WaitEv 0 True]"] assms(1)
  by (simp add: offsetAfter_wait split: sum.split)

text \<open>What an adapter relies on in a handler: it posts at most, as the handlers of the gateway do.\<close>

locale event_handler =
  fixes h :: handler
  assumes posts_only: "emits notGet (h p)"
begin

lemma emits_dispatchUpdate: "emits notGet (dispatchUpdate E h cfg tgAPI u)"
  by (auto simp: dispatchUpdate_def sendMessage_def httpDo_def messageRequest_def
      intro!: emits_intros posts_only)

lemma wp_processUpdates:
  "wp (processUpdates E h cfg tgAPI offset us) (\<lambda>r tr'. \<exists>evs. tr' = tr @ evs \<and> list_all notGet evs \<and>
     (\<forall>x. r = Some x \<longrightarrow> x = foldl (nextOffset E) offset us)) tr"
proof (induction us arbitrary: offset tr)
  case Nil
  then show ?case by (simp add: wp_simps)
next
  case (Cons u us)
  show ?case
    unfolding processUpdates.simps wp_bind
  proof (rule emits_wpI [OF emits_dispatchUpdate])
    fix d :: "unit option" and evs
    assume evs: "list_all notGet evs"
    have "wp (processUpdates E h cfg tgAPI (nextOffset E offset u) us) (\<lambda>r tr'. \<exists>evs. tr' = tr @ evs \<and>
        list_all notGet evs \<and> (\<forall>x. r = Some x \<longrightarrow> x = foldl (nextOffset E) offset (u # us))) (tr @ evs)"
      by (rule wp_mono [OF Cons.IH]) (use evs in auto)
    then show "wp (case d of None \<Rightarrow> ret None
        | Some _ \<Rightarrow> processUpdates E h cfg tgAPI (nextOffset E offset u) us)
      (\<lambda>r tr'. \<exists>evs. tr' = tr @ evs \<and> list_all notGet evs \<and>
        (\<forall>x. r = Some x \<longrightarrow> x = foldl (nextOffset E) offset (u # us))) (tr @ evs)"
      using evs by (simp add: wp_simps split: option.split)
  qed
qed

lemma wp_backOff:
  assumes "\<And>x evs. list_all notGet evs \<Longrightarrow> Q x (tr @ evs)"
    and "\<And>evs. list_all notGet evs \<Longrightarrow> wp again Q (tr @ evs)"
  shows "wp (backOff E again) Q tr"
  using assms(1) [of "[WaitEv a b]" for a b] assms(1) [of "[WaitEv a b, WaitEv c d]" for a b c d]
    assms(2) [of "[WaitEv a b, WaitEv c d]" for a b c d]
  by (simp add: backOff_def waitTimer_def wp_simps)

lemma wp_afterPoll:
  assumes quiet: "\<And>x evs. list_all notGet evs \<Longrightarrow> Q x (tr @ evs)"
    and again: "\<And>offset' evs. list_all notGet evs \<Longrightarrow>
      offset' = (case u of Inl e \<Rightarrow> offset | Inr us \<Rightarrow> foldl (nextOffset E) offset us) \<Longrightarrow> wp (again offset') Q (tr @ evs)"
  shows "wp (afterPoll E h cfg tgAPI again offset u) Q tr"
proof (cases u)
  case (Inl e)
  with assms show ?thesis by (auto simp: afterPoll_def intro!: wp_backOff)
next
  case (Inr us)
  have "wp (processUpdates E h cfg tgAPI offset us)
      (\<lambda>o'. wp (case o' of None \<Rightarrow> ret None | Some offset' \<Rightarrow> again offset') Q) tr"
    by (rule wp_mono [OF wp_processUpdates]) (auto simp: wp_ret quiet Inr again split: option.split)
  with Inr show ?thesis by (simp add: afterPoll_def wp_bind)
qed

lemma wp_pollLoop:
  "offset = offsetAfter E pre \<Longrightarrow> wp (pollLoop E h cfg tgAPI offset n)
     (\<lambda>r tr'. \<exists>evs. tr' = tr @ evs \<and> guarded (pollGuard E cfg tgAPI) pre evs) tr"
proof (induction n arbitrary: offset pre tr)
  case 0
  then show ?case by (simp add: wp_simps)
next
  case (Suc n)
  let ?Q = "\<lambda>r tr'. \<exists>evs. tr' = tr @ evs \<and> guarded (pollGuard E cfg tgAPI) pre evs"
  let ?r = "http_do E (tr @ [WaitEv 0 True]) (botGet (pollURL cfg tgAPI offset))"
  let ?u = "case ?r of Inl e \<Rightarrow> Inl e | Inr resp \<Rightarrow> decodeUpdates E resp"
  let ?round = "[WaitEv 0 True, HttpEv (botGet (pollURL cfg tgAPI offset)) ?r]"
  have guard: "guarded (pollGuard E cfg tgAPI) pre (?round @ evs)" if "list_all notGet evs" for evs
    by (rule pollGuard_round [OF Suc.prems that])
  have "wp (afterPoll E h cfg tgAPI (\<lambda>offset'. pollLoop E h cfg tgAPI offset' n) offset ?u) ?Q (tr @ ?round)"
  proof (rule wp_afterPoll)
    fix offset' evs
    assume evs: "list_all notGet evs"
      and "offset' = (case ?u of Inl e \<Rightarrow> offset | Inr us \<Rightarrow> foldl (nextOffset E) offset us)"
    then have "offset' = offsetAfter E (pre @ (?round @ evs))"
      using offsetAfter_round [OF Suc.prems evs, of "pollURL cfg tgAPI offset" ?r] by (simp split: sum.splits)
    from wp_shift [OF Suc.IH [OF this]] guard [OF evs]
    show "wp (pollLoop E h cfg tgAPI offset' n) ?Q ((tr @ ?round) @ evs)" by simp
  qed (use guard in auto)
  moreover have "?Q x (tr @ [WaitEv 0 False])" for x :: "unit option"
    using pollGuard_notGet [of "[WaitEv 0 False]"] by auto
  ultimately show ?case by (simp add: wp_bind wp_ctxAlive wp_getUpdates wp_ret)
qed

lemma pollLoop_offsets:
  "guarded (pollGuard E cfg tgAPI) [] (appended (pollLoop E h cfg tgAPI 0 n) tr)"
proof (rule guarded_appendedI)
  have "(0::int) = offsetAfter E []" by (simp add: offsetAfter_def received_def)
  from wp_pollLoop [OF this, of cfg tgAPI n tr]
  show "wp (pollLoop E h cfg tgAPI 0 n) (\<lambda>_ tr'. guarded (pollGuard E cfg tgAPI) [] (drop (length tr) tr')) tr"
    by (rule wp_mono) auto
qed

end

section \<open>What an end user sees of an error\<close>

definition mapErr :: "(err \<Rightarrow> err) \<Rightarrow> handler \<Rightarrow> handler" where
  "mapErr f h p = do { r \<leftarrow> h p; ret (map_option (map_sum f (\<lambda>j. j)) r) }"

lemma replyText_mapErr: "replyText (map_sum f (\<lambda>j. j) r) = replyText r"
  by (cases r) (simp_all add: replyText_def)

lemma bind_mapErr: "State_Monad.bind (mapErr f h p) k = State_Monad.bind (h p) (\<lambda>r. k (map_option (map_sum f (\<lambda>j. j)) r))"
  by (simp add: mapErr_def)

lemma dispatchUpdate_mapErr: "dispatchUpdate E (mapErr f h) cfg tgAPI u = dispatchUpdate E h cfg tgAPI u"
  unfolding dispatchUpdate_def bind_mapErr case_map_option comp_def replyText_mapErr ..

lemma processUpdates_mapErr:
  "processUpdates E (mapErr f h) cfg tgAPI offset us = processUpdates E h cfg tgAPI offset us"
proof (induction us arbitrary: offset)
  case (Cons u us)
  show ?case unfolding processUpdates.simps dispatchUpdate_mapErr Cons.IH ..
qed simp

lemma pollLoop_mapErr: "pollLoop E (mapErr f h) cfg tgAPI offset n = pollLoop E h cfg tgAPI offset n"
proof (induction n arbitrary: offset)
  case (Suc n)
  show ?case unfolding pollLoop.simps afterPoll_def processUpdates_mapErr Suc.IH ..
qed simp

lemma startTelegram_mapErr: "startTelegram E (mapErr f h) raw n = startTelegram E h raw n"
  unfolding startTelegram_def pollLoop_mapErr ..

section \<open>Enough fuel\<close>

text \<open>With a context that is done after \<open>N\<close> waits, \<open>N + 1\<close> rounds are enough for both loops.\<close>

definition waitEvents :: "event list \<Rightarrow> nat" where
  "waitEvents evs = length (filter (\<lambda>e. case e of WaitEv d b \<Rightarrow> True | _ \<Rightarrow> False) evs)"

definition contextEnds :: "env \<Rightarrow> nat \<Rightarrow> trace \<Rightarrow> bool" where
  "contextEnds E N tr \<longleftrightarrow> (\<forall>evs d. N \<le> waitEvents evs \<longrightarrow> \<not> timer_first E (tr @ evs) d)"

text \<open>The handler answers from here on, whatever was observed since.\<close>

definition answers :: "handler \<Rightarrow> trace \<Rightarrow> bool" where
  "answers h tr \<longleftrightarrow> (\<forall>p. emits (\<lambda>_. True) (h p)) \<and> (\<forall>p evs. result (h p) (tr @ evs) \<noteq> None)"

lemma waitEvents_simps [simp]:
  "waitEvents [] = 0" "waitEvents (WaitEv d b # evs) = Suc (waitEvents evs)"
  "waitEvents (xs @ ys) = waitEvents xs + waitEvents ys"
  by (simp_all add: waitEvents_def)

lemma contextEnds_step: "contextEnds E (Suc N) tr \<Longrightarrow> contextEnds E N (tr @ WaitEv d b # evs)"
  unfolding contextEnds_def by (auto dest: spec [of _ "WaitEv d b # evs @ evs'" for evs'])

lemma contextEnds_0: "contextEnds E 0 tr \<Longrightarrow> \<not> timer_first E tr d"
  unfolding contextEnds_def by (auto dest: spec [of _ "[]"])

lemma answers_extend: "answers h tr \<Longrightarrow> answers h (tr @ evs)"
  by (simp add: answers_def)

lemma answers_wp: "answers h tr \<Longrightarrow> wp (h p) (\<lambda>r tr'. r \<noteq> None \<and> (\<exists>evs. tr' = tr @ evs)) tr"
proof -
  assume h: "answers h tr"
  then have "emits (\<lambda>_. True) (h p)" "result (h p) (tr @ []) \<noteq> None" unfolding answers_def by blast+
  from emits_wp [OF this(1), of tr] this(2) show ?thesis
    by (auto simp: wp_def result_def split: prod.splits)
qed

lemma answers_dispatch:
  assumes "answers h tr"
  shows "wp (dispatchUpdate E h cfg tgAPI u) (\<lambda>r tr'. r \<noteq> None \<and> (\<exists>evs. tr' = tr @ evs)) tr"
proof -
  have "wp (h p) (\<lambda>r. wp (case r of None \<Rightarrow> ret None
      | Some x \<Rightarrow> (case chat of None \<Rightarrow> ret (Some ())
        | Some c \<Rightarrow> do { s \<leftarrow> sendMessage E tgAPI c (replyText x); ret (Some ()) }))
      (\<lambda>r tr'. r \<noteq> None \<and> (\<exists>evs. tr' = tr @ evs))) tr" for p chat
    by (rule wp_mono [OF answers_wp [OF assms]])
      (auto simp: sendMessage_def httpDo_def wp_simps split: option.split)
  then show ?thesis
    by (simp add: dispatchUpdate_def wp_bind wp_ret wp_if wp_case_option split: option.split)
qed

lemma answers_process:
  "answers h tr \<Longrightarrow>
   wp (processUpdates E h cfg tgAPI offset us) (\<lambda>r tr'. r \<noteq> None \<and> (\<exists>evs. tr' = tr @ evs)) tr"
proof (induction us arbitrary: offset tr)
  case (Cons u us offset tr)
  show ?case
    unfolding processUpdates.simps wp_bind
  proof (rule wp_mono [OF answers_dispatch [OF Cons.prems]])
    fix r :: "unit option" and tr'
    assume "r \<noteq> None \<and> (\<exists>evs. tr' = tr @ evs)"
    then obtain evs where "r = Some ()" "tr' = tr @ evs" by auto
    moreover have "wp (processUpdates E h cfg tgAPI (nextOffset E offset u) us)
        (\<lambda>r tr'. r \<noteq> None \<and> (\<exists>evs. tr' = tr @ evs)) (tr @ evs)" for evs
      by (rule wp_mono [OF Cons.IH [OF answers_extend [OF Cons.prems]]]) auto
    ultimately show "wp (case r of None \<Rightarrow> ret None
        | Some _ \<Rightarrow> processUpdates E h cfg tgAPI (nextOffset E offset u) us)
      (\<lambda>r tr'. r \<noteq> None \<and> (\<exists>evs. tr' = tr @ evs)) tr'" by simp
  qed
qed (simp add: wp_simps)

lemma wp_pollLoop_ends:
  "answers h tr \<Longrightarrow> contextEnds E N tr \<Longrightarrow> wp (pollLoop E h cfg tgAPI offset (Suc N)) (\<lambda>r tr'. r \<noteq> None) tr"
proof (induction N arbitrary: offset tr)
  case 0
  from contextEnds_0 [OF 0(2)] show ?case by (simp add: wp_simps)
next
  case (Suc N)
  have again: "wp (pollLoop E h cfg tgAPI offset' (Suc N)) (\<lambda>r tr'. r \<noteq> None) (tr @ WaitEv d b # evs)"
    for offset' d b evs
    by (rule Suc.IH [OF answers_extend [OF Suc.prems(1)] contextEnds_step [OF Suc.prems(2)]])
  have handled: "wp (processUpdates E h cfg tgAPI offset us) (\<lambda>o'. wp (case o' of None \<Rightarrow> ret None
        | Some offset' \<Rightarrow> pollLoop E h cfg tgAPI offset' (Suc N)) (\<lambda>r tr'. r \<noteq> None)) (tr @ [WaitEv d b, e])"
    for us d b e
    by (rule wp_mono [OF answers_process [OF answers_extend [OF Suc.prems(1)]]])
      (use again [of _ d b "e # evs" for evs] in \<open>auto simp del: pollLoop.simps\<close>)
  show ?case
    using again [of _ _ _ "[e, x, y]" for e x y] handled
    by (subst pollLoop.simps)
      (auto simp: afterPoll_def backOff_def wp_bind wp_ctxAlive wp_getUpdates wp_ret waitTimer_def wp_call
        simp del: pollLoop.simps split: sum.split)
qed

lemma wp_cronLoop_ends:
  "answers h tr \<Longrightarrow> contextEnds E N tr \<Longrightarrow> wp (cronLoop E h interval text (Suc N)) (\<lambda>r tr'. r \<noteq> None) tr"
proof (induction N arbitrary: tr)
  case 0
  from contextEnds_0 [OF 0(2)] show ?case by (simp add: wp_simps waitTimer_def)
next
  case (Suc N)
  have again: "wp (cronLoop E h interval text (Suc N)) (\<lambda>r tr'. r \<noteq> None) (tr @ WaitEv d b # evs)" for d b evs
    by (rule Suc.IH [OF answers_extend [OF Suc.prems(1)] contextEnds_step [OF Suc.prems(2)]])
  have "wp (h p) (\<lambda>r. wp (case r of None \<Rightarrow> ret None | Some _ \<Rightarrow> cronLoop E h interval text (Suc N))
      (\<lambda>r tr'. r \<noteq> None)) (tr @ [WaitEv d b, e])" for p d b e
    by (rule wp_mono [OF answers_wp [OF answers_extend [OF Suc.prems(1)]]])
      (use again [of d b "e # evs" for evs] in \<open>auto simp del: cronLoop.simps\<close>)
  then show ?case
    by (subst cronLoop.simps) (simp add: waitTimer_def timeNow_def wp_bind wp_call wp_ret del: cronLoop.simps)
qed

lemma contextEnds_extend: "contextEnds E N tr \<Longrightarrow> contextEnds E N (tr @ evs)"
  unfolding contextEnds_def by (auto dest: spec [of _ "evs @ evs'" for evs'])

lemma wp_startCron_ends:
  "answers h tr \<Longrightarrow> contextEnds E N tr \<Longrightarrow> wp (startCron E h d text (Suc N)) (\<lambda>r tr'. r \<noteq> None) tr"
  using wp_cronLoop_ends [of h tr E N d "text"]
  by (auto simp: startCron_def wp_bind wp_ret simp del: cronLoop.simps elim: wp_mono)

lemma wp_startTelegram_ends:
  assumes "answers h tr" and "contextEnds E N tr"
  shows "wp (startTelegram E h rawMap (Suc N)) (\<lambda>r tr'. r \<noteq> None) tr"
proof -
  have "wp (pollLoop E h cfg tgAPI 0 (Suc N))
      (\<lambda>r. wp (ret (map_option (\<lambda>_. None :: err option) r)) (\<lambda>r tr'. r \<noteq> None)) (tr @ evs)"
    for cfg tgAPI evs
    by (rule wp_mono [OF wp_pollLoop_ends [OF answers_extend [OF assms(1)] contextEnds_extend [OF assms(2)]]])
      (simp add: wp_ret)
  then show ?thesis
    by (simp add: startTelegram_def getMe_def deleteWebhook_def httpDo_def Let_def wp_bind wp_call wp_ret
        del: pollLoop.simps split: sum.split option.split)
qed

section \<open>Properties\<close>

text \<open>
  C24. What the adapter does, its messages to users included, does not depend on what the handler's errors
  say: with any other errors in their place it makes the same calls and returns the same.
\<close>

theorem telegram_errors_hidden:
  "startTelegram E (\<lambda>p. do { r \<leftarrow> h p; ret (map_option (map_sum f (\<lambda>j. j)) r) }) raw n = startTelegram E h raw n"
  using startTelegram_mapErr [of E f h raw n] by (simp only: mapErr_def [abs_def])

end
