(* ===== verification/Trigger_Sync.thy ===== *)
theory Trigger_Sync
  imports Trigger_Gateway Trigger_Adapters
begin

text \<open>
  \<open>internal/trigger/gateway.go\<close>, the other half: which adapters run.  \<open>syncOnce\<close> starts an adapter for every
  active trigger that has none and stops those whose trigger is no longer active.  The registry of
  running adapters is a list of entries; Go ranges over its map in no particular order, and stopping an
  adapter only affects its own entry.  An entry also keeps what the adapter's handler captured when it
  was built: the trigger, its guards and its driver.  Starting runs the adapter on a goroutine of its own:
  its calls are those of \<open>startAdapter\<close> on the entry.
\<close>

definition syncInterval :: int where "syncInterval = 10 * second"

section \<open>Configurations\<close>

definition rawConfig :: "RawExtension option \<Rightarrow> rawJson option" where
  "rawConfig ext = (case ext of None \<Rightarrow> None | Some x \<Rightarrow> Raw x)"

text \<open>The fields of an object; errors of \<open>json.Unmarshal\<close> are dropped.\<close>

definition configFields :: "RawExtension option \<Rightarrow> (string \<times> json) list" where
  "configFields ext = (case rawConfig ext of Some (GoodJson (JObj kvs)) \<Rightarrow> kvs | _ \<Rightarrow> [])"

record webhookConfig =
  whPath :: string
  whListenAddr :: string

definition triggerName :: "BoilerhouseTrigger \<Rightarrow> string" where
  "triggerName t = Name (triggerMeta t)"

definition parseWebhookConfig :: "BoilerhouseTrigger \<Rightarrow> webhookConfig" where
  "parseWebhookConfig t =
     (let kvs = configFields (triggerConfig (triggerSpec t));
          path = stringField (''/'' @ triggerName t) (fieldValues ''path'' kvs)
      in \<lparr>whPath = (if path = [] then ''/'' @ triggerName t else path),
          whListenAddr = stringField '':8090'' (fieldValues ''listenAddr'' kvs)\<rparr>)"

record cronConfig =
  cronInterval :: string
  cronText :: string

definition parseCronConfig :: "BoilerhouseTrigger \<Rightarrow> cronConfig" where
  "parseCronConfig t =
     (let kvs = configFields (triggerConfig (triggerSpec t))
      in \<lparr>cronInterval = stringField ''1m'' (fieldValues ''interval'' kvs),
          cronText = stringField [] (fieldValues ''payload'' kvs)\<rparr>)"

text \<open>A generic map: JSON null makes it nil.\<close>

definition parseTelegramAdapterConfig :: "BoilerhouseTrigger \<Rightarrow> (string \<times> json) list option" where
  "parseTelegramAdapterConfig t =
     (case rawConfig (triggerConfig (triggerSpec t)) of
        Some (GoodJson JNull) \<Rightarrow> None
      | Some (GoodJson (JObj kvs)) \<Rightarrow> Some kvs
      | _ \<Rightarrow> Some [])"

definition resolveSecret :: "env \<Rightarrow> Gateway \<Rightarrow> string \<Rightarrow> string \<Rightarrow> (err + string) io" where
  "resolveSecret E g name key = do {
     s \<leftarrow> getObj SecretEv (secrets E) (nsName (gwNamespace g) name);
     ret (case s of
            Inl e \<Rightarrow> Inl e
          | Inr secret \<Rightarrow> (case secretData secret key of
              None \<Rightarrow> Inl (errorf (''key '' @ Quote key @ '' not found in secret '' @ Quote name))
            | Some v \<Rightarrow> Inr v))
   }"

section \<open>Building an adapter\<close>

datatype adapter =
    WebhookAdapter string string
  | CronAdapter int string
  | TelegramAdapter "(string \<times> json) list option"

definition buildTelegram :: "env \<Rightarrow> Gateway \<Rightarrow> (string \<times> json) list option \<Rightarrow> (err + adapter) io" where
  "buildTelegram E g rawMap =
     (case parseTelegramConfig E rawMap of
        Inl e \<Rightarrow> ret (Inl e)
      | Inr parsed \<Rightarrow> (case BotTokenSecretRef parsed of
          None \<Rightarrow> ret (Inr (TelegramAdapter rawMap))
        | Some (name, key) \<Rightarrow> do {
            t \<leftarrow> resolveSecret E g name key;
            ret (case t of
                   Inl e \<Rightarrow> Inl (wrapf ''telegram bot token secret'' e)
                 | Inr token \<Rightarrow> Inr (TelegramAdapter (map_option (\<lambda>raw.
                     delField ''botTokenSecretRef'' (setField ''botToken'' (JStr token) raw)) rawMap)))
          }))"

definition buildAdapter :: "env \<Rightarrow> Gateway \<Rightarrow> BoilerhouseTrigger \<Rightarrow> (err + adapter) io" where
  "buildAdapter E g t =
     (let ty = triggerType (triggerSpec t)
      in if ty = ''webhook''
         then ret (Inr (WebhookAdapter (whPath (parseWebhookConfig t)) (whListenAddr (parseWebhookConfig t))))
         else if ty = ''cron''
         then ret (case parse_duration E (cronInterval (parseCronConfig t)) of
                Inl e \<Rightarrow> Inl (wrapf (''invalid cron interval '' @ Quote (cronInterval (parseCronConfig t))) e)
              | Inr d \<Rightarrow> Inr (CronAdapter d (cronText (parseCronConfig t))))
         else if ty = ''telegram'' then buildTelegram E g (parseTelegramAdapterConfig t)
         else ret (Inl (errorf (''unsupported trigger type: '' @ ty))))"

section \<open>Building a driver\<close>

text \<open>A value of \<open>Driver\<close> is one of the types that implement it; \<open>Send\<close> dispatches.\<close>

datatype agentDriver = DefaultDriver | ClaudeCodeDriver | PiDriver | OpenclawDriver string | MisconfiguredDriver string

fun Send :: "env \<Rightarrow> nat \<Rightarrow> agentDriver \<Rightarrow> driver" where
  "Send E n DefaultDriver = sendDefault E"
| "Send E n ClaudeCodeDriver = sendClaudeCode E n"
| "Send E n PiDriver = sendPi E n"
| "Send E n (OpenclawDriver token) = sendOpenclaw E token"
| "Send E n (MisconfiguredDriver reason) = sendMisconfigured reason"

text \<open>\<open>openclawOptions\<close>: the literal token and the reference.\<close>

definition decodeOpenclawOptions :: "RawExtension option \<Rightarrow> err + string \<times> (string \<times> string) option" where
  "decodeOpenclawOptions ext =
     (case rawConfig ext of
        None \<Rightarrow> Inr ([], None)
      | Some (BadJson m) \<Rightarrow> Inl (errorf m)
      | Some (GoodJson JNull) \<Rightarrow> Inr ([], None)
      | Some (GoodJson (JObj kvs)) \<Rightarrow>
          if list_all isStringish (fieldValues ''gatewayToken'' kvs) \<and>
             list_all validRef (fieldValues ''gatewayTokenSecretRef'' kvs)
          then Inr (stringField [] (fieldValues ''gatewayToken'' kvs),
                    refField None (fieldValues ''gatewayTokenSecretRef'' kvs))
          else Inl typeError
      | Some (GoodJson _) \<Rightarrow> Inl typeError)"

definition resolveOpenclawToken :: "env \<Rightarrow> Gateway \<Rightarrow> BoilerhouseTrigger \<Rightarrow> (err + string) io" where
  "resolveOpenclawToken E g t =
     (case decodeOpenclawOptions (DriverOptions (triggerSpec t)) of
        Inl e \<Rightarrow> ret (Inl (wrapf ''openclaw driverOptions parse'' e))
      | Inr (literal, ref) \<Rightarrow> (case ref of
          Some (name, key) \<Rightarrow>
            if literal \<noteq> []
            then ret (Inl (errorf ''openclaw: gatewayToken and gatewayTokenSecretRef are mutually exclusive''))
            else do {
              r \<leftarrow> resolveSecret E g name key;
              ret (case r of Inl e \<Rightarrow> Inl (wrapf ''openclaw gateway token secret'' e) | Inr tok \<Rightarrow> Inr tok)
            }
        | None \<Rightarrow>
            ret (if literal \<noteq> [] then Inr literal
                 else Inl (errorf ''openclaw: gatewayToken or gatewayTokenSecretRef is required''))))"

definition buildDriver :: "env \<Rightarrow> Gateway \<Rightarrow> BoilerhouseTrigger \<Rightarrow> agentDriver io" where
  "buildDriver E g t =
     (let d = triggerDriver (triggerSpec t)
      in if d = [] \<or> d = ''default'' then ret DefaultDriver
         else if d = ''claude-code'' then ret ClaudeCodeDriver
         else if d = ''pi'' then ret PiDriver
         else if d = ''openclaw'' then do {
           r \<leftarrow> resolveOpenclawToken E g t;
           ret (case r of Inl e \<Rightarrow> MisconfiguredDriver (err_msg e) | Inr token \<Rightarrow> OpenclawDriver token)
         }
         else ret (MisconfiguredDriver (''unknown driver '' @ Quote d)))"

section \<open>The registry\<close>

record runningAdapter =
  raAdapter :: adapter
  raTrigger :: BoilerhouseTrigger
  raGuards :: "guard list"
  raDriver :: agentDriver

type_synonym registry = "(string \<times> runningAdapter) list"

text \<open>The closure of \<open>buildHandler\<close>.\<close>

definition handlerOf :: "env \<Rightarrow> Gateway \<Rightarrow> runningAdapter \<Rightarrow> nat \<Rightarrow> handler" where
  "handlerOf E g ra n = handleEvent E g (raGuards ra) (Send E n (raDriver ra)) (triggerSpec (raTrigger ra)) n"

text \<open>\<open>adapter.Start\<close>, for the adapters that run by themselves; a webhook serves requests.\<close>

definition startAdapter :: "env \<Rightarrow> Gateway \<Rightarrow> runningAdapter \<Rightarrow> nat \<Rightarrow> err option option io" where
  "startAdapter E g ra n =
     (case raAdapter ra of
        WebhookAdapter path addr \<Rightarrow> ret (Some None)
      | CronAdapter d text \<Rightarrow> startCron E (handlerOf E g ra n) d text n
      | TelegramAdapter rawMap \<Rightarrow> startTelegram E (handlerOf E g ra n) rawMap n)"

definition isActiveTrigger :: "BoilerhouseTrigger \<Rightarrow> bool" where
  "isActiveTrigger t \<longleftrightarrow> triggerPhase (triggerStatus t) = ''Active''"

fun startActive :: "env \<Rightarrow> Gateway \<Rightarrow> registry \<Rightarrow> BoilerhouseTrigger list \<Rightarrow> registry io" where
  "startActive E g reg [] = ret reg"
| "startActive E g reg (t # ts) =
     (if \<not> isActiveTrigger t \<or> map_of reg (triggerName t) \<noteq> None then startActive E g reg ts
      else do {
        a \<leftarrow> buildAdapter E g t;
        case a of
          Inl e \<Rightarrow> startActive E g reg ts
        | Inr ad \<Rightarrow> do {
            gs \<leftarrow> buildGuards E g (triggerName t) (Guards (triggerSpec t));
            d \<leftarrow> buildDriver E g t;
            startActive E g ((triggerName t, \<lparr>raAdapter = ad, raTrigger = t, raGuards = gs, raDriver = d\<rparr>) # reg) ts
          }
      })"

definition activeNames :: "BoilerhouseTrigger list \<Rightarrow> string list" where
  "activeNames ts = map triggerName (filter isActiveTrigger ts)"

text \<open>
  \<open>adapter.Stop\<close> after the context of the adapter was cancelled: whether it returns, given what was observed so far.
  The webhook adapter calls \<open>Shutdown\<close> without a deadline, which waits for the requests in progress, a slow client's
  included (Http_Shutdown).  The Telegram adapter waits for a channel that only a \<open>Start\<close> that could parse its
  configuration closes, when its loop ends.
\<close>

definition webhookStopReturns :: "env \<Rightarrow> trace \<Rightarrow> string \<Rightarrow> bool" where
  "webhookStopReturns E tr addr = shutdown_returns E tr addr"

definition cronStopReturns :: bool where
  "cronStopReturns = True"

definition telegramStopReturns :: "env \<Rightarrow> (string \<times> json) list option \<Rightarrow> bool" where
  "telegramStopReturns E rawMap = (case parseTelegramConfig E rawMap of Inl _ \<Rightarrow> False | Inr _ \<Rightarrow> True)"

definition stopReturns :: "env \<Rightarrow> trace \<Rightarrow> runningAdapter \<Rightarrow> bool" where
  "stopReturns E tr ra = (case raAdapter ra of
     WebhookAdapter path addr \<Rightarrow> webhookStopReturns E tr addr
   | CronAdapter d text \<Rightarrow> cronStopReturns
   | TelegramAdapter rawMap \<Rightarrow> telegramStopReturns E rawMap)"

lemmas stop_defs = stopReturns_def webhookStopReturns_def cronStopReturns_def telegramStopReturns_def

definition stopInactive :: "env \<Rightarrow> trace \<Rightarrow> string list \<Rightarrow> registry \<Rightarrow> registry option" where
  "stopInactive E tr names reg =
     (if list_all (\<lambda>(n, ra). n \<in> set names \<or> stopReturns E tr ra) reg
      then Some (filter (\<lambda>(n, _). n \<in> set names) reg) else None)"

text \<open>A pass returns an error and the new registry, or it does not return: it holds the lock then.\<close>

definition syncOnce :: "env \<Rightarrow> Gateway \<Rightarrow> registry \<Rightarrow> (err option \<times> registry) option io" where
  "syncOnce E g reg = do {
     l \<leftarrow> listObj TriggerEv (triggers E) (gwNamespace g) [];
     case l of
       Inl e \<Rightarrow> ret (Some (Some (wrapf ''list triggers'' e), reg))
     | Inr ts \<Rightarrow> do {
         reg' \<leftarrow> startActive E g reg ts;
         tr \<leftarrow> history;
         ret (map_option (\<lambda>r. (None, r)) (stopInactive E tr (activeNames ts) reg'))
       }
   }"

text \<open>
  The loop of \<open>Sync\<close>, which ends with \<open>stopAll\<close>; the result is the registry it leaves, and \<open>None\<close> that it has not
  returned within the fuel.
\<close>

definition stopAll :: "env \<Rightarrow> registry \<Rightarrow> registry option io" where
  "stopAll E reg = do {
     tr \<leftarrow> history;
     ret (if list_all (\<lambda>(_, ra). stopReturns E tr ra) reg then Some [] else None)
   }"

fun syncLoop :: "env \<Rightarrow> Gateway \<Rightarrow> registry \<Rightarrow> nat \<Rightarrow> registry option io" where
  "syncLoop E g reg 0 = ret None"
| "syncLoop E g reg (Suc n) = do {
     ticked \<leftarrow> waitTimer E syncInterval;
     if \<not> ticked then stopAll E reg
     else do {
       r \<leftarrow> syncOnce E g reg;
       case r of
         None \<Rightarrow> ret None
       | Some x \<Rightarrow> syncLoop E g (snd x) n
     }
   }"

definition Sync :: "env \<Rightarrow> Gateway \<Rightarrow> nat \<Rightarrow> registry option io" where
  "Sync E g n = do {
     r \<leftarrow> syncOnce E g [];
     case r of
       None \<Rightarrow> ret None
     | Some x \<Rightarrow> syncLoop E g (snd x) n
   }"

section \<open>Lemmas\<close>

text \<open>What an adapter of a trigger is, and the triggers whose adapter needs no Secret and can be built.\<close>

definition adapterFor :: "env \<Rightarrow> BoilerhouseTrigger \<Rightarrow> adapter \<Rightarrow> bool" where
  "adapterFor E t ad =
     (case ad of
        WebhookAdapter path addr \<Rightarrow> triggerType (triggerSpec t) = ''webhook'' \<and>
          path = whPath (parseWebhookConfig t) \<and> addr = whListenAddr (parseWebhookConfig t)
      | CronAdapter d text \<Rightarrow> triggerType (triggerSpec t) = ''cron'' \<and>
          parse_duration E (cronInterval (parseCronConfig t)) = Inr d \<and> text = cronText (parseCronConfig t)
      | TelegramAdapter rawMap \<Rightarrow> triggerType (triggerSpec t) = ''telegram'' \<and>
          (\<exists>cfg. parseTelegramConfig E (parseTelegramAdapterConfig t) = Inr cfg \<and>
             (if BotTokenSecretRef cfg = None then rawMap = parseTelegramAdapterConfig t
              else \<exists>token. rawMap = map_option (\<lambda>raw. delField ''botTokenSecretRef''
                     (setField ''botToken'' (JStr token) raw)) (parseTelegramAdapterConfig t))))"

definition builds :: "env \<Rightarrow> BoilerhouseTrigger \<Rightarrow> bool" where
  "builds E t \<longleftrightarrow> triggerType (triggerSpec t) = ''webhook'' \<or>
     triggerType (triggerSpec t) = ''cron'' \<and> \<not> isl (parse_duration E (cronInterval (parseCronConfig t))) \<or>
     triggerType (triggerSpec t) = ''telegram'' \<and>
       (\<exists>cfg. parseTelegramConfig E (parseTelegramAdapterConfig t) = Inr cfg \<and> BotTokenSecretRef cfg = None)"

lemma wp_result: "wp m (\<lambda>r _. P r) tr \<longleftrightarrow> P (result m tr)"
  by (simp add: wp_def result_def split: prod.splits)

lemma wp_bind_any: "(\<And>a tr'. wp (f a) Q tr') \<Longrightarrow> wp (State_Monad.bind m f) Q tr"
  by (simp add: wp_bind wpI)

lemma wp_buildAdapter:
  "wp (buildAdapter E g t) (\<lambda>a tr'. case a of Inl _ \<Rightarrow> \<not> builds E t | Inr ad \<Rightarrow> adapterFor E t ad) tr"
  by (auto simp: buildAdapter_def buildTelegram_def resolveSecret_def getObj_def adapterFor_def builds_def Let_def
      wp_simps split: sum.split option.split)

lemma map_of_active: "map_of (filter (\<lambda>(n, _). n \<in> set names) reg) n = (if n \<in> set names then map_of reg n else None)"
  by (induction reg) auto

text \<open>A started entry for a name: the first active trigger of the name that could be built.\<close>

definition startedEntry :: "env \<Rightarrow> BoilerhouseTrigger list \<Rightarrow> string \<Rightarrow> runningAdapter option \<Rightarrow> bool" where
  "startedEntry E ts name new =
     (case new of
        Some ra \<Rightarrow> raTrigger ra \<in> set ts \<and> isActiveTrigger (raTrigger ra) \<and> triggerName (raTrigger ra) = name \<and>
          adapterFor E (raTrigger ra) (raAdapter ra)
      | None \<Rightarrow> \<forall>t \<in> set ts. isActiveTrigger t \<longrightarrow> triggerName t = name \<longrightarrow> \<not> builds E t)"

lemma startedEntry_Cons:
  "startedEntry E ts name new \<Longrightarrow> (isActiveTrigger t \<Longrightarrow> triggerName t = name \<Longrightarrow> new = None \<Longrightarrow> \<not> builds E t) \<Longrightarrow>
   startedEntry E (t # ts) name new"
  by (auto simp: startedEntry_def split: option.splits)

text \<open>The entry of one name before and after the started adapters.\<close>

definition startedFrom :: "env \<Rightarrow> BoilerhouseTrigger list \<Rightarrow> string \<Rightarrow> runningAdapter option \<Rightarrow> runningAdapter option
    \<Rightarrow> bool" where
  "startedFrom E ts name old new =
     (case old of Some ra \<Rightarrow> new = Some ra | None \<Rightarrow> startedEntry E ts name new)"

lemma startedFrom_Cons:
  "startedFrom E ts name old new \<Longrightarrow>
   (isActiveTrigger t \<Longrightarrow> triggerName t = name \<Longrightarrow> old = None \<Longrightarrow> \<not> builds E t) \<Longrightarrow> startedFrom E (t # ts) name old new"
  by (auto simp: startedFrom_def intro: startedEntry_Cons split: option.splits)

lemma wp_startActive:
  "wp (startActive E g reg ts) (\<lambda>reg' _. startedFrom E ts name (map_of reg name) (map_of reg' name)) tr"
proof (induction ts arbitrary: reg tr)
  case Nil
  then show ?case by (auto simp: wp_simps startedFrom_def startedEntry_def split: option.splits)
next
  case (Cons t ts reg tr)
  let ?Q = "\<lambda>reg' (_ :: trace). startedFrom E (t # ts) name (map_of reg name) (map_of reg' name)"
  show ?case
  proof (cases "\<not> isActiveTrigger t \<or> map_of reg (triggerName t) \<noteq> None")
    case True
    have "wp (startActive E g reg ts) ?Q tr"
      by (rule wp_mono [OF Cons.IH], erule startedFrom_Cons) (use True in auto)
    moreover from True have "startActive E g reg (t # ts) = startActive E g reg ts" by auto
    ultimately show ?thesis by (simp only:)
  next
    case False
    have skip: "wp (startActive E g reg ts) ?Q tr'" if "\<not> builds E t" for tr'
      by (rule wp_mono [OF Cons.IH], erule startedFrom_Cons) (use that in auto)
    have start: "wp (startActive E g ((triggerName t, ra) # reg) ts) ?Q tr'"
      if "raTrigger ra = t" "adapterFor E t (raAdapter ra)" for ra tr'
    proof (rule wp_mono [OF Cons.IH], cases "triggerName t = name")
      case True
      fix reg' :: registry
      assume "startedFrom E ts name (map_of ((triggerName t, ra) # reg) name) (map_of reg' name)"
      with True False that show "?Q reg' tr'" by (auto simp: startedFrom_def startedEntry_def)
    next
      case False
      fix reg' :: registry
      assume "startedFrom E ts name (map_of ((triggerName t, ra) # reg) name) (map_of reg' name)"
      with False have "startedFrom E ts name (map_of reg name) (map_of reg' name)" by simp
      then show "?Q reg' tr'" by (rule startedFrom_Cons) (use False in simp)
    qed
    have "wp (buildAdapter E g t) (\<lambda>a. wp (case a of
          Inl e \<Rightarrow> startActive E g reg ts
        | Inr ad \<Rightarrow> do {
            gs \<leftarrow> buildGuards E g (triggerName t) (Guards (triggerSpec t));
            d \<leftarrow> buildDriver E g t;
            startActive E g ((triggerName t, \<lparr>raAdapter = ad, raTrigger = t, raGuards = gs, raDriver = d\<rparr>) # reg) ts
          }) ?Q) tr"
      by (rule wp_mono [OF wp_buildAdapter]) (auto split: sum.split intro!: wp_bind_any skip start)
    with False show ?thesis by (simp add: wp_bind)
  qed
qed

text \<open>One pass of the sync loop against the list of triggers.\<close>

definition syncedEntry :: "env \<Rightarrow> BoilerhouseTrigger list \<Rightarrow> string \<Rightarrow> runningAdapter option \<Rightarrow> runningAdapter option
    \<Rightarrow> bool" where
  "syncedEntry E ts name old new =
     (if name \<notin> set (activeNames ts) then new = None else startedFrom E ts name old new)"

lemma wp_startActive_active:
  "wp (startActive E g reg ts) (\<lambda>reg' _. filter (\<lambda>(n, _). n \<notin> set (activeNames ts)) reg' =
     filter (\<lambda>(n, _). n \<notin> set (activeNames ts)) reg) tr"
proof (induction ts arbitrary: reg tr)
  case Nil
  show ?case by (simp add: wp_simps)
next
  case (Cons t ts reg tr)
  let ?in = "\<lambda>ts (n, _ :: runningAdapter). n \<notin> set (activeNames ts)"
  have sub: "filter (?in (t # ts)) r = filter (?in (t # ts)) (filter (?in ts) r)" for r
    by (auto simp: activeNames_def intro!: filter_cong)
  have step: "wp (startActive E g r ts) (\<lambda>reg' _. filter (?in (t # ts)) reg' = filter (?in (t # ts)) r) tr'" for r tr'
    by (rule wp_mono [OF Cons.IH]) (metis sub)
  show ?case
  proof (cases "isActiveTrigger t \<and> map_of reg (triggerName t) = None")
    case True
    then have "filter (?in (t # ts)) ((triggerName t, ra) # reg) = filter (?in (t # ts)) reg" for ra
      by (simp add: activeNames_def)
    with step [of "(triggerName t, ra) # reg" for ra] have
      start: "wp (startActive E g ((triggerName t, ra) # reg) ts)
        (\<lambda>reg' _. filter (?in (t # ts)) reg' = filter (?in (t # ts)) reg) tr'" for ra tr'
      by simp
    have built: "wp (case a of
          Inl e \<Rightarrow> startActive E g reg ts
        | Inr ad \<Rightarrow> do {
            gs \<leftarrow> buildGuards E g (triggerName t) (Guards (triggerSpec t));
            d \<leftarrow> buildDriver E g t;
            startActive E g ((triggerName t, \<lparr>raAdapter = ad, raTrigger = t, raGuards = gs, raDriver = d\<rparr>) # reg) ts
          }) (\<lambda>reg' _. filter (?in (t # ts)) reg' = filter (?in (t # ts)) reg) tr'" for a tr'
      by (cases a) (auto intro!: wp_bind_any step start)
    from True show ?thesis by simp (rule wp_bind_any, rule built)
  next
    case False
    then have "startActive E g reg (t # ts) = startActive E g reg ts" by auto
    with step [of reg tr] show ?thesis by (simp only:)
  qed
qed

text \<open>The adapters whose \<open>Stop\<close> does not return, and the entries a pass would wait for for ever.\<close>

fun neverStops :: "env \<Rightarrow> trace \<Rightarrow> adapter \<Rightarrow> bool" where
  "neverStops E tr (WebhookAdapter path addr) \<longleftrightarrow> \<not> shutdown_returns E tr addr"
| "neverStops E tr (CronAdapter d text) \<longleftrightarrow> False"
| "neverStops E tr (TelegramAdapter rawMap) \<longleftrightarrow> (\<exists>e. parseTelegramConfig E rawMap = Inl e)"

lemma stopReturns_iff: "stopReturns E tr ra \<longleftrightarrow> \<not> neverStops E tr (raAdapter ra)"
  by (cases "raAdapter ra") (auto simp: stop_defs split: sum.split)

definition stuckEntry :: "env \<Rightarrow> trace \<Rightarrow> registry \<Rightarrow> BoilerhouseTrigger list \<Rightarrow> bool" where
  "stuckEntry E tr reg ts \<longleftrightarrow> (\<exists>(n, ra) \<in> set reg. n \<notin> set (activeNames ts) \<and> neverStops E tr (raAdapter ra))"

lemma stopInactive_stuck:
  assumes "filter (\<lambda>(n, _). n \<notin> set (activeNames ts)) reg' = filter (\<lambda>(n, _). n \<notin> set (activeNames ts)) reg"
  shows "stopInactive E tr (activeNames ts) reg' =
    (if stuckEntry E tr reg ts then None else Some (filter (\<lambda>(n, _). n \<in> set (activeNames ts)) reg'))"
proof -
  have ex: "stuckEntry E tr r ts \<longleftrightarrow> (\<exists>x \<in> set (filter (\<lambda>(n, _). n \<notin> set (activeNames ts)) r). \<not> stopReturns E tr (snd x))" for r
    by (auto simp: stuckEntry_def stopReturns_iff)
  have "stuckEntry E tr reg' ts \<longleftrightarrow> stuckEntry E tr reg ts" by (simp only: ex assms)
  moreover have "list_all (\<lambda>(n, ra). n \<in> set (activeNames ts) \<or> stopReturns E tr ra) reg' \<longleftrightarrow> \<not> stuckEntry E tr reg' ts"
    by (auto simp: stuckEntry_def list_all_iff stopReturns_iff)
  ultimately show ?thesis by (simp add: stopInactive_def)
qed

definition passed :: "env \<Rightarrow> trace \<Rightarrow> registry \<Rightarrow> BoilerhouseTrigger list \<Rightarrow> (err option \<times> registry) option \<Rightarrow> string \<Rightarrow> bool" where
  "passed E tr reg ts r name = (case r of
     None \<Rightarrow> stuckEntry E tr reg ts
   | Some x \<Rightarrow> \<not> stuckEntry E tr reg ts \<and> fst x = None \<and> syncedEntry E ts name (map_of reg name) (map_of (snd x) name))"

lemma wp_syncOnce:
  "wp (syncOnce E g reg) (\<lambda>r tr'. case k_list (triggers E) tr (gwNamespace g) [] of
       Inl e \<Rightarrow> r = Some (Some (wrapf ''list triggers'' e), reg)
     | Inr ts \<Rightarrow> passed E tr' reg ts r name) tr"
proof -
  have "wp (startActive E g reg ts) (\<lambda>reg'. wp (history \<bind> (\<lambda>tr. ret (map_option (\<lambda>r. (None :: err option, r))
      (stopInactive E tr (activeNames ts) reg')))) (\<lambda>r tr'. passed E tr' reg ts r name)) tr'" for ts tr'
    by (rule wp_mono [OF wp_conj [OF wp_startActive [of _ _ _ _ name] wp_startActive_active]])
      (auto simp: wp_simps passed_def syncedEntry_def stopInactive_stuck map_of_active)
  then show ?thesis
    by (simp add: syncOnce_def listObj_def wp_bind wp_call wp_ret split: sum.split)
qed

section \<open>Handlers of the gateway post at most\<close>

lemma emits_httpDo_post: "httpMethod q = ''POST'' \<Longrightarrow> emits notGet (httpDo E q)"
  by (simp add: httpDo_def emits_call)

lemma notGet_guardEvent: "guardEvent e \<Longrightarrow> notGet e"
  by (cases e) (auto simp: guardEvent_def notGet_def)

lemma emits_ensureClaim_claims: "emits claimOrWait (waitForClaim E key n)"
  by (induction n) (auto simp: waitTimer_def getObj_def claimOrWait_def intro!: emits_intros)

lemma notGet_claimOrWait: "claimOrWait e \<Longrightarrow> notGet e"
  by (cases e) (auto simp: claimOrWait_def notGet_def)

lemma emits_ensureClaim: "emits notGet (ensureClaim E g t w n)"
  by (auto simp: ensureClaim_def createAndWait_def getObj_def createObj_def deleteObj_def notGet_def Let_def
      intro!: emits_intros emits_mono [OF emits_ensureClaim_claims notGet_claimOrWait]
        emits_mono [OF emits_waitForClaimDeleted notGet_claimOrWait])

lemma emits_readMsg: "emits notGet (readMsg E)"
  by (auto simp: readMsg_def wsRead_def notGet_def intro!: emits_intros)

lemma emits_readOutput: "emits notGet (readOutput E who step sb n)"
  by (induction n arbitrary: sb) (auto intro!: emits_intros emits_readMsg)

lemma emits_waitForReady: "emits notGet (claudeCodeWaitForReady E n)"
  by (induction n) (auto intro!: emits_intros emits_readMsg)

lemma emits_prompt: "emits notGet (prompt E who step n payload)"
  by (auto simp: prompt_def wsWrite_def timeNow_def notGet_def intro!: emits_intros emits_readOutput)

lemma emits_Send: "emits notGet (Send E n d ep t payload)"
  by (cases d) (auto simp: sendDefault_def sendClaudeCode_def sendPi_def sendOpenclaw_def sendMisconfigured_def
      openclawRequest_def wsDial_def wsWrite_def timeNow_def notGet_def [of "WsDialEv u r" for u r]
      notGet_def [of "WsWriteEv j r" for j r] Let_def
      intro!: emits_intros emits_httpDo_post emits_prompt emits_waitForReady)

interpretation gateway: event_handler "handlerOf E g ra n" for E g ra n
  by unfold_locales (auto simp: handlerOf_def handleEvent_def
      intro!: emits_intros emits_ensureClaim emits_Send emits_mono [OF emits_runGuards notGet_guardEvent])

section \<open>Enough fuel\<close>

lemma emits_resolveSecret: "emits (\<lambda>_. True) (resolveSecret E g name key)"
  by (auto simp: resolveSecret_def getObj_def intro!: emits_intros)

lemma emits_syncOnce: "emits (\<lambda>_. True) (syncOnce E g reg)"
proof -
  have a: "emits (\<lambda>_. True) (buildAdapter E g t)" for t
    by (auto simp: buildAdapter_def buildTelegram_def Let_def intro!: emits_intros emits_resolveSecret)
  have gs: "emits (\<lambda>_. True) (buildGuards E g n specs)" for n specs
    by (induction specs) (auto simp: parseAPIGuard_def guardSecret_def getObj_def Let_def intro!: emits_intros)
  have d: "emits (\<lambda>_. True) (buildDriver E g t)" for t
    by (auto simp: buildDriver_def resolveOpenclawToken_def Let_def intro!: emits_intros emits_resolveSecret)
  have "emits (\<lambda>_. True) (startActive E g reg ts)" for ts
    by (induction ts arbitrary: reg) (auto intro!: emits_intros a gs d)
  then show ?thesis by (auto simp: syncOnce_def listObj_def intro!: emits_intros)
qed

text \<open>The whole pipeline of an event: both polls end with the context, and the driver with its read deadline.\<close>

lemma contextEnds_poll: "contextEnds E N tr \<Longrightarrow> pollEnds E tick N tr"
  by (auto simp: contextEnds_def pollEnds_def waitEvents_def waits_def)

lemma wp_Send_ends:
  assumes "readsEnd E N tr"
  shows "wp (Send E (Suc N) d ep t payload) (\<lambda>r tr'. r \<noteq> None) tr"
proof (cases d)
  case ClaudeCodeDriver
  then show ?thesis by (simp only: Send.simps wp_sendClaudeCode_ends [OF assms])
next
  case PiDriver
  then show ?thesis by (simp only: Send.simps wp_sendPi_ends [OF assms])
qed (simp_all add: sendDefault_def sendOpenclaw_def sendMisconfigured_def httpDo_def wp_simps)

lemma wp_handleEvent_ends:
  assumes "contextEnds E N tr" and "readsEnd E N tr"
  shows "wp (handleEvent E g gs (Send E (Suc N) d) spec (Suc N) payload) (\<lambda>r tr'. r \<noteq> None) tr"
proof -
  let ?send = "\<lambda>t c. case c of
        None \<Rightarrow> ret None
      | Some (Inl e) \<Rightarrow> ret (Some (Inl (wrapf ''ensure claim'' e)))
      | Some (Inr endpoint) \<Rightarrow> do {
          r \<leftarrow> Send E (Suc N) d endpoint t payload;
          case r of
            None \<Rightarrow> ret None
          | Some (Inl e) \<Rightarrow> ret (Some (Inl (wrapf ''driver send'' e)))
          | Some (Inr j) \<Rightarrow> ret (Some (Inr j))
        }"
  have driver: "wp (?send t (Some x)) (\<lambda>r tr'. r \<noteq> None) (tr @ evs)" for t x evs
  proof (cases x)
    case (Inr ep)
    have "wp (Send E (Suc N) d ep t payload) (\<lambda>r. wp (case r of
            None \<Rightarrow> ret None
          | Some (Inl e) \<Rightarrow> ret (Some (Inl (wrapf ''driver send'' e)))
          | Some (Inr j) \<Rightarrow> ret (Some (Inr j))) (\<lambda>r tr'. r \<noteq> None)) (tr @ evs)"
      by (rule wp_mono [OF wp_Send_ends [OF readsEnd_extend [OF assms(2)]]])
        (auto simp: wp_ret split: sum.split)
    with Inr show ?thesis by (simp add: wp_bind)
  qed (simp add: wp_ret)
  have claim: "wp (ensureClaim E g t w (Suc N)) (\<lambda>c. wp (?send t c) (\<lambda>r tr'. r \<noteq> None)) (tr @ evs)" for t w evs
  proof (rule wp_mono [OF wp_conj [OF wp_ensureClaim_ends emits_wp [OF emits_ensureClaim]]])
    show "pollEnds E claimPollTick N (tr @ evs)" "pollEnds E deletePollTick N (tr @ evs)"
      by (rule contextEnds_poll [OF contextEnds_extend [OF assms(1)]])+
    fix c :: "(err + string) option" and tr'
    assume "c \<noteq> None \<and> (\<exists>evs'. tr' = (tr @ evs) @ evs' \<and> list_all notGet evs')"
    then obtain x evs' where "c = Some x" "tr' = tr @ evs @ evs'" by auto
    with driver [of t x "evs @ evs'"] show "wp (?send t c) (\<lambda>r tr'. r \<noteq> None) tr'" by simp
  qed
  have "wp (runGuards E gs t payload) (\<lambda>v. wp (case v of
        Some e \<Rightarrow> ret (Some (Inl e))
      | None \<Rightarrow> State_Monad.bind (ensureClaim E g t w (Suc N)) (?send t)) (\<lambda>r tr'. r \<noteq> None)) tr" for t w
    by (rule emits_wpI [OF emits_runGuards]) (auto simp: wp_ret wp_bind claim simp del: not_None_eq split: option.split)
  then show ?thesis
    by (simp add: handleEvent_def wp_bind wp_ret split: sum.split)
qed

lemma handlerOf_answers:
  assumes "contextEnds E N tr" and "readsEnd E N tr"
  shows "answers (handlerOf E g ra (Suc N)) tr"
proof -
  have "emits (\<lambda>_. True) (handlerOf E g ra (Suc N) p)" for p
    by (rule emits_mono [OF gateway.posts_only]) simp
  moreover have "result (handlerOf E g ra (Suc N) p) (tr @ evs) \<noteq> None" for p evs
    using wp_handleEvent_ends [OF contextEnds_extend [OF assms(1)] readsEnd_extend [OF assms(2)]]
    unfolding handlerOf_def by (simp add: wp_result)
  ultimately show ?thesis by (simp add: answers_def)
qed

text \<open>No Secret holds an empty value: then every adapter that was built can be stopped.\<close>

definition secretsFilled :: "env \<Rightarrow> bool" where
  "secretsFilled E \<longleftrightarrow> (\<forall>tr key s k. k_get (secrets E) tr key = Inr s \<longrightarrow> secretData s k \<noteq> Some [])"

text \<open>The requests in progress of every webhook server that is shut down end, so \<open>Shutdown\<close> returns.\<close>

definition hooksDrain :: "env \<Rightarrow> bool" where
  "hooksDrain E \<longleftrightarrow> (\<forall>tr addr. shutdown_returns E tr addr)"

definition stoppable :: "env \<Rightarrow> registry \<Rightarrow> bool" where
  "stoppable E reg \<longleftrightarrow> (\<forall>tr. list_all (\<lambda>(_, ra). stopReturns E tr ra) reg)"

lemma parse_resolved:
  "parseTelegramConfig E (Some (delField ''botTokenSecretRef'' (setField ''botToken'' (JStr token) raw))) =
    (if token = [] then Inl (errorf ''telegram adapter: botToken or botTokenSecretRef is required'')
     else Inr ((telegramOptions E (delField ''botTokenSecretRef'' (setField ''botToken'' (JStr token) raw)))
       \<lparr>BotToken := token\<rparr>))"
  by (simp add: parseTelegramConfig_def objField_def textField_def strField_def)

lemma parse_nonempty: "parseTelegramConfig E rawMap = Inr cfg \<Longrightarrow> rawMap \<noteq> None"
  by (cases rawMap) (simp_all add: parseTelegramConfig_def)

lemma stopReturns_resolved:
  "parseTelegramConfig E rawMap = Inr cfg \<Longrightarrow> raAdapter ra = TelegramAdapter (map_option (\<lambda>raw.
     delField ''botTokenSecretRef'' (setField ''botToken'' (JStr token) raw)) rawMap) \<Longrightarrow>
   stopReturns E tr ra \<longleftrightarrow> token \<noteq> []"
  by (cases rawMap) (auto simp: stop_defs parse_resolved dest: parse_nonempty)

lemma wp_buildAdapter_stops:
  "secretsFilled E \<Longrightarrow> hooksDrain E \<Longrightarrow> wp (buildAdapter E g t)
     (\<lambda>a _. \<forall>ad ra tr'. a = Inr ad \<longrightarrow> raAdapter ra = ad \<longrightarrow> stopReturns E tr' ra) tr"
  by (auto simp: buildAdapter_def buildTelegram_def resolveSecret_def getObj_def Let_def wp_simps
      secretsFilled_def stopReturns_resolved split: sum.split option.split) (auto simp: stop_defs hooksDrain_def)

lemma wp_startActive_stops:
  assumes "secretsFilled E" and "hooksDrain E"
  shows "stoppable E reg \<Longrightarrow> wp (startActive E g reg ts) (\<lambda>reg' _. stoppable E reg') tr"
proof (induction ts arbitrary: reg tr)
  case Nil
  then show ?case by (simp add: wp_simps)
next
  case (Cons t ts reg tr)
  have "wp (buildAdapter E g t) (\<lambda>a. wp (case a of
        Inl e \<Rightarrow> startActive E g reg ts
      | Inr ad \<Rightarrow> do {
          gs \<leftarrow> buildGuards E g (triggerName t) (Guards (triggerSpec t));
          d \<leftarrow> buildDriver E g t;
          startActive E g ((triggerName t, \<lparr>raAdapter = ad, raTrigger = t, raGuards = gs, raDriver = d\<rparr>) # reg) ts
        }) (\<lambda>reg' _. stoppable E reg')) tr"
    by (rule wp_mono [OF wp_buildAdapter_stops [OF assms(1,2)]])
      (use Cons in \<open>auto simp: stoppable_def split: sum.split intro!: wp_bind_any\<close>)
  with Cons show ?case by (simp add: wp_bind)
qed

lemma wp_syncOnce_stops:
  assumes "secretsFilled E" and "hooksDrain E" and "stoppable E reg"
  shows "wp (syncOnce E g reg) (\<lambda>r _. \<exists>x. r = Some x \<and> stoppable E (snd x)) tr"
proof -
  have "wp (startActive E g reg ts) (\<lambda>reg'. wp (history \<bind> (\<lambda>tr. ret (map_option (\<lambda>r. (None :: err option, r))
      (stopInactive E tr (activeNames ts) reg')))) (\<lambda>r _. \<exists>x. r = Some x \<and> stoppable E (snd x))) tr'" for ts tr'
    by (rule wp_mono [OF wp_startActive_stops [OF assms]])
      (auto simp: wp_simps stopInactive_def stoppable_def list_all_iff)
  with assms show ?thesis
    by (simp add: syncOnce_def listObj_def wp_bind wp_call wp_ret split: sum.split)
qed

lemma wp_syncOnce_next:
  assumes "secretsFilled E" and "hooksDrain E" and "stoppable E reg"
    and "\<And>reg' evs. stoppable E reg' \<Longrightarrow> wp (syncLoop E g reg' n) Q (tr @ evs)"
  shows "wp (syncOnce E g reg) (\<lambda>r. wp (case r of None \<Rightarrow> ret None | Some x \<Rightarrow> syncLoop E g (snd x) n) Q) tr"
proof -
  have "wp (syncOnce E g reg) (\<lambda>_ tr'. \<exists>evs. tr' = tr @ evs) tr"
    by (rule emits_wpI [OF emits_syncOnce]) blast
  from wp_conj [OF wp_syncOnce_stops [OF assms(1-3)] this] show ?thesis
    by (rule wp_mono) (use assms(4) in auto)
qed

lemma wp_syncLoop_ends:
  "secretsFilled E \<Longrightarrow> hooksDrain E \<Longrightarrow> contextEnds E N tr \<Longrightarrow> stoppable E reg \<Longrightarrow>
   wp (syncLoop E g reg (Suc N)) (\<lambda>r tr'. r = Some []) tr"
proof (induction N arbitrary: reg tr)
  case 0
  from contextEnds_0 [OF 0(3)] 0(4) show ?case by (simp add: wp_simps waitTimer_def stopAll_def stoppable_def)
next
  case (Suc N reg tr)
  have "wp (syncOnce E g reg) (\<lambda>r. wp (case r of None \<Rightarrow> ret None | Some x \<Rightarrow> syncLoop E g (snd x) (Suc N))
      (\<lambda>r tr'. r = Some [])) (tr @ [WaitEv d b])" for d b
  proof (rule wp_syncOnce_next [OF Suc.prems(1,2,4)])
    fix reg' evs
    assume "stoppable E reg'"
    from Suc.IH [OF Suc.prems(1,2) contextEnds_step [OF Suc.prems(3), of d b evs] this]
    show "wp (syncLoop E g reg' (Suc N)) (\<lambda>r tr'. r = Some []) ((tr @ [WaitEv d b]) @ evs)" by simp
  qed
  with Suc.prems(4) show ?case
    by (subst syncLoop.simps)
      (simp add: waitTimer_def wp_bind wp_call wp_ret wp_history stopAll_def stoppable_def del: syncLoop.simps)
qed

section \<open>Properties\<close>

text \<open>
  C8. A pass of the sync loop: when the triggers cannot be listed, no adapter is started or stopped.  Else it
  returns exactly when every adapter it has to stop returns from \<open>Stop\<close> at that moment: a cron adapter does, a webhook
  adapter when the requests in progress of its server end (\<open>Shutdown\<close> has no deadline), a Telegram adapter when its
  configuration could be parsed (its loop ends when its handler does).  Afterwards no adapter runs for a name without an active trigger, an adapter that ran
  for an active one is left alone, with the guards and the driver it was built with, and an active trigger that had none
  gets one of its own type and configuration, at least when it is a webhook, a cron trigger with a valid
  interval, or a Telegram trigger with a literal token.
\<close>

theorem registry_sync:
  "case k_list (triggers E) tr (gwNamespace g) [] of
     Inl e \<Rightarrow> result (syncOnce E g reg) tr = Some (Some (wrapf ''list triggers'' e), reg)
   | Inr ts \<Rightarrow> (case result (syncOnce E g reg) tr of
       None \<Rightarrow> stuckEntry E (tr @ appended (syncOnce E g reg) tr) reg ts
     | Some (e, reg') \<Rightarrow> \<not> stuckEntry E (tr @ appended (syncOnce E g reg) tr) reg ts \<and> e = None \<and>
         (\<forall>name. syncedEntry E ts name (map_of reg name) (map_of reg' name)))"
proof -
  have "case k_list (triggers E) tr (gwNamespace g) [] of
       Inl e \<Rightarrow> result (syncOnce E g reg) tr = Some (Some (wrapf ''list triggers'' e), reg)
     | Inr ts \<Rightarrow> passed E (tr @ appended (syncOnce E g reg) tr) reg ts (result (syncOnce E g reg) tr) name" for name
    using wp_syncOnce [where E = E and g = g and reg = reg and tr = tr and name = name] emits_extends [OF emits_syncOnce, of E g reg tr]
    by (auto simp: wp_def result_def split: sum.splits prod.splits)
  then show ?thesis by (auto simp: passed_def split: sum.split option.split)
qed

text \<open>
  C21. The gateway's loop ends: once the timers of the context are lost after \<open>N\<close> waits, when no Secret of the
  cluster holds an empty value, and when the requests in progress of every webhook server end, the loop returns with
  every adapter stopped.
\<close>

theorem sync_ends:
  assumes "secretsFilled E" and "hooksDrain E" and "contextEnds E N tr"
  shows "result (Sync E g (Suc N)) tr = Some []"
proof -
  have "wp (Sync E g (Suc N)) (\<lambda>r _. r = Some []) tr"
    unfolding Sync_def wp_bind
    by (rule wp_syncOnce_next [OF assms(1,2)])
      (auto simp: stoppable_def intro!: wp_syncLoop_ends [OF assms(1,2) contextEnds_extend [OF assms(3)]]
        simp del: syncLoop.simps)
  then show ?thesis by (simp add: wp_result)
qed

text \<open>A cluster with one active webhook trigger.\<close>

definition hookTrigger :: BoilerhouseTrigger where
  "hookTrigger = \<lparr>triggerMeta = objectMeta ''hook'' ''ns'', triggerSpec = demoSpec,
     triggerStatus = \<lparr>triggerPhase = ''Active'', triggerDetail = []\<rparr>\<rparr>"

definition hookEnv :: env where
  "hookEnv = offlineEnv\<lparr>triggers := offlineKind\<lparr>k_list := \<lambda>_ _ _. Inr [hookTrigger]\<rparr>,
     timer_first := \<lambda>tr _. waitEvents tr < 2\<rparr>"

theorem sync_ends_witness:
  "result (Sync hookEnv \<lparr>gwNamespace = ''ns''\<rparr> 3) [] = Some []"
proof -
  have "secretsFilled hookEnv" by (simp add: secretsFilled_def hookEnv_def offlineEnv_def offlineKind_def)
  moreover have "hooksDrain hookEnv" by (simp add: hooksDrain_def hookEnv_def offlineEnv_def)
  moreover have "contextEnds hookEnv 2 []" by (simp add: contextEnds_def hookEnv_def)
  ultimately show ?thesis
    using sync_ends [of hookEnv 2 "[]" "\<lparr>gwNamespace = ''ns''\<rparr>"] by (simp add: numeral_3_eq_3)
qed

text \<open>
  The hypothesis on Secrets cannot be dropped: a Telegram trigger whose bot token comes from a Secret gets an
  adapter whatever the Secret holds under the key, but when that is the empty string the adapter cannot be stopped,
  and the pass after the trigger left the phase Active does not return.
\<close>

theorem telegram_empty_secret:
  assumes "triggerType (triggerSpec t) = ''telegram''" and "parseTelegramConfig E (parseTelegramAdapterConfig t) = Inr cfg"
    and "BotTokenSecretRef cfg = Some (name, key)"
    and "k_get (secrets E) tr (nsName (gwNamespace g) name) = Inr secret" and "secretData secret key = Some token"
  shows "\<exists>ad. result (buildAdapter E g t) tr = Inr ad \<and>
    (\<forall>ra gone. raAdapter ra = ad \<longrightarrow> k_list (triggers E) tr' (gwNamespace g) [] = Inr gone \<longrightarrow>
       triggerName t \<notin> set (activeNames gone) \<longrightarrow>
       (result (syncOnce E g [(triggerName t, ra)]) tr' = None \<longleftrightarrow> token = []))"
proof -
  obtain raw where raw: "parseTelegramAdapterConfig t = Some raw"
    using parse_nonempty [OF assms(2)] by blast
  let ?ad = "TelegramAdapter (Some (delField ''botTokenSecretRef'' (setField ''botToken'' (JStr token) raw)))"
  have "result (buildAdapter E g t) tr = Inr ?ad"
    using assms raw by (simp add: buildAdapter_def buildTelegram_def resolveSecret_def getObj_def Let_def result_def)
  moreover have "result (syncOnce E g [(triggerName t, ra)]) tr' = None \<longleftrightarrow> token = []"
    if "raAdapter ra = ?ad" "k_list (triggers E) tr' (gwNamespace g) [] = Inr gone"
      "triggerName t \<notin> set (activeNames gone)" for ra gone
  proof -
    have "\<exists>tr''. passed E tr'' [(triggerName t, ra)] gone (result (syncOnce E g [(triggerName t, ra)]) tr') n" for n
      using wp_syncOnce [where E = E and g = g and reg = "[(triggerName t, ra)]" and tr = tr' and name = n]
        that(2) by (auto simp: wp_def result_def split: prod.splits)
    moreover have "stuckEntry E tr'' [(triggerName t, ra)] gone \<longleftrightarrow> token = []" for tr''
      using that(1,3) by (auto simp: stuckEntry_def parse_resolved)
    ultimately show ?thesis by (cases "result (syncOnce E g [(triggerName t, ra)]) tr'") (simp_all add: passed_def)
  qed
  ultimately show ?thesis by blast
qed

text \<open>A Telegram trigger whose Secret is there and empty.\<close>

definition botTrigger :: BoilerhouseTrigger where
  "botTrigger = hookTrigger\<lparr>triggerSpec := demoSpec\<lparr>triggerType := ''telegram'',
     triggerConfig := Some \<lparr>Raw = Some (GoodJson (JObj [(''botTokenSecretRef'',
       JObj [(''name'', JStr ''bot''), (''key'', JStr ''token'')])]))\<rparr>\<rparr>\<rparr>"

definition botEnv :: env where
  "botEnv = offlineEnv\<lparr>triggers := offlineKind\<lparr>k_list := \<lambda>_ _ _. Inr []\<rparr>,
     secrets := offlineKind\<lparr>k_get := \<lambda>_ _. Inr
       \<lparr>secretMeta = objectMeta ''bot'' ''ns'', secretData = [''token'' \<mapsto> []]\<rparr>\<rparr>\<rparr>"

theorem telegram_empty_secret_witness:
  "\<exists>ad. result (buildAdapter botEnv \<lparr>gwNamespace = ''ns''\<rparr> botTrigger) [] = Inr ad \<and>
     result (syncOnce botEnv \<lparr>gwNamespace = ''ns''\<rparr> [(''hook'',
       \<lparr>raAdapter = ad, raTrigger = botTrigger, raGuards = [], raDriver = DefaultDriver\<rparr>)]) [] = None"
proof -
  let ?g = "\<lparr>gwNamespace = ''ns''\<rparr>" and ?s = "\<lparr>secretMeta = objectMeta ''bot'' ''ns'', secretData = [''token'' \<mapsto> []]\<rparr>"
  have cfg: "parseTelegramAdapterConfig botTrigger = Some [(''botTokenSecretRef'',
      JObj [(''name'', JStr ''bot''), (''key'', JStr ''token'')])]"
    by (simp add: parseTelegramAdapterConfig_def rawConfig_def botTrigger_def)
  obtain c where c: "parseTelegramConfig botEnv (parseTelegramAdapterConfig botTrigger) = Inr c"
      "BotTokenSecretRef c = Some (''bot'', ''token'')"
    by (simp add: cfg parseTelegramConfig_def objField_def textField_def strField_def mapOfEntries_def)
  have k: "k_get (secrets botEnv) [] (nsName (gwNamespace ?g) ''bot'') = Inr ?s"
      "k_list (triggers botEnv) [] (gwNamespace ?g) [] = Inr []"
    by (simp_all add: botEnv_def)
  have t: "triggerType (triggerSpec botTrigger) = ''telegram''" "secretData ?s ''token'' = Some []"
      "triggerName botTrigger = ''hook''"
    by (simp_all add: botTrigger_def hookTrigger_def triggerName_def objectMeta_def)
  obtain ad where ad: "result (buildAdapter botEnv ?g botTrigger) [] = Inr ad"
      "\<And>ra gone. raAdapter ra = ad \<Longrightarrow> k_list (triggers botEnv) [] (gwNamespace ?g) [] = Inr gone \<Longrightarrow>
         triggerName botTrigger \<notin> set (activeNames gone) \<Longrightarrow>
         result (syncOnce botEnv ?g [(triggerName botTrigger, ra)]) [] = None"
    using telegram_empty_secret [OF t(1) c k(1) t(2), of "[]"] by blast
  show ?thesis
    using ad(1) ad(2) [of "\<lparr>raAdapter = ad, raTrigger = botTrigger, raGuards = [], raDriver = DefaultDriver\<rparr>" "[]"] k(2)
    by (auto simp: t(3) activeNames_def)
qed

text \<open>
  C20. An adapter ends with its context, whatever the events, the cluster and the peers answer: when after \<open>N\<close> waits no
  timer wins against the context any more, and the read deadlines let at most \<open>N\<close> reads of a bridge succeed,
  \<open>N + 1\<close> rounds of fuel are enough for the loop of the adapter with the whole handling of every event in it: guards,
  both polls for the claim, and the conversation with the instance.
\<close>

theorem adapter_ends:
  assumes "contextEnds E N tr" and "readsEnd E N tr"
  shows "result (startAdapter E g ra (Suc N)) tr \<noteq> None"
proof -
  note h = handlerOf_answers [OF assms]
  have "wp (startAdapter E g ra (Suc N)) (\<lambda>r _. r \<noteq> None) tr"
    using wp_startCron_ends [OF h assms(1)] wp_startTelegram_ends [OF h assms(1)]
    by (auto simp: startAdapter_def wp_ret simp del: not_None_eq split: adapter.split)
  then show ?thesis by (simp add: wp_result)
qed

text \<open>A cron trigger whose context ends after two waits, in a cluster without answers.\<close>

theorem adapter_ends_witness:
  "result (startAdapter (hookEnv\<lparr>ws_read := \<lambda>_. Inl offline\<rparr>) \<lparr>gwNamespace = ''ns''\<rparr>
     \<lparr>raAdapter = CronAdapter 60 ''tick'', raTrigger = hookTrigger, raGuards = [], raDriver = ClaudeCodeDriver\<rparr> 3) [] \<noteq> None"
proof -
  let ?E = "hookEnv\<lparr>ws_read := \<lambda>_. Inl offline\<rparr>"
  have "contextEnds ?E 2 []" by (simp add: contextEnds_def hookEnv_def)
  moreover have "readsEnd ?E 2 []" by (simp add: readsEnd_def msgOf_def)
  ultimately have "result (startAdapter ?E \<lparr>gwNamespace = ''ns''\<rparr> ra (Suc 2)) [] \<noteq> None" for ra
    by (rule adapter_ends)
  then show ?thesis by (simp only: numeral_3_eq_3 numeral_2_eq_2 not_False_eq_True)
qed

text \<open>
  C14. The offsets of the Telegram poll, for the handler of any trigger: every request the loop makes of
  \<open>getUpdates\<close> carries the offset that the answers received so far lead to.  As long as every id received, as the
  float64 it is decoded into, fits an \<open>int64\<close>, that offset is one past the greatest id (and at least 0): above the id
  of every update received, so an update the loop has seen is never asked for again, also not after an error, and it
  does not overflow.  For an id that does not fit, Go leaves the conversion to the platform and nothing is claimed.
\<close>

theorem telegram_offsets:
  "guarded (pollGuard E cfg tgAPI) [] (appended (pollLoop E (handlerOf E g ra m) cfg tgAPI 0 n) tr)"
  by (rule gateway.pollLoop_offsets)

end
