(* ===== verification/Cluster.thy ===== *)
theory Cluster
  imports Claim_Controller Pool_Controller
begin

text \<open>
  The operator's reconcilers running side by side.  A history is the sequence of calls the API server
  answered, each with the client that made it; a client of the operator made the calls of its reconcile passes,
  one pass after the other, a pass possibly cut short by a crash.  The store of the API server is a parameter,
  constrained by what its documentation promises (\<open>podStore\<close>): an update succeeds only with the resource
  version that is stored, and stale reads are allowed, as the informer caches of the clients make them.
\<close>

section \<open>Updates of pods\<close>

definition podUpdate :: "event \<Rightarrow> Pod option" where
  "podUpdate e = (case e of PodEv (UpdateEv x r) \<Rightarrow> Some x | _ \<Rightarrow> None)"

lemma podUpdate_simps [simp]:
  "podUpdate (PodEv (UpdateEv x r)) = Some x" "podUpdate (PodEv (GetEv k g)) = None"
  "podUpdate (PodEv (ListEv ns l ps)) = None" "podUpdate (PodEv (CreateEv x r)) = None"
  "podUpdate (PodEv (StatusEv x r)) = None" "podUpdate (PodEv (DeleteEv k d)) = None"
  "podUpdate (ClaimEv ce) = None" "podUpdate (WorkloadEv we) = None" "podUpdate (PoolEv le) = None"
  "podUpdate (SecretEv se) = None" "podUpdate (ConfigMapEv me) = None" "podUpdate (PvcEv ve) = None"
  "podUpdate (RandEv n rr) = None" "podUpdate (TimeEv t) = None" "podUpdate (WaitEv i b) = None"
  "podUpdate (ExecEv as si er) = None" "podUpdate (CryptoEv c cr) = None" "podUpdate (SnapEv sn) = None"
  by (simp_all add: podUpdate_def)

text \<open>A status write of a claim, which only the claim reconciler makes.\<close>

definition claimStatusWrite :: "event \<Rightarrow> BoilerhouseClaim option" where
  "claimStatusWrite e = (case e of ClaimEv (StatusEv x r) \<Rightarrow> Some x | _ \<Rightarrow> None)"

definition bystander :: "event \<Rightarrow> bool" where
  "bystander e \<longleftrightarrow> podUpdate e = None \<and> claimStatusWrite e = None"

text \<open>Only these pods are written.\<close>

definition updatesIn :: "Pod set \<Rightarrow> event \<Rightarrow> bool" where
  "updatesIn X e \<longleftrightarrow> set_option (podUpdate e) \<subseteq> X"

abbreviation noPodUpdate :: "event \<Rightarrow> bool" where
  "noPodUpdate \<equiv> updatesIn {}"

lemma updatesIn_none [simp]: "podUpdate e = None \<Longrightarrow> updatesIn X e"
  by (simp add: updatesIn_def)

lemma updatesIn_update [simp]: "updatesIn X (PodEv (UpdateEv x r)) \<longleftrightarrow> x \<in> X"
  by (simp add: updatesIn_def)

lemma noPodUpdate_iff: "noPodUpdate e \<longleftrightarrow> podUpdate e = None"
  by (auto simp: updatesIn_def)

lemma emits_updatesIn: "emits noPodUpdate m \<Longrightarrow> emits (updatesIn X) m"
  by (erule emits_mono) (auto simp: updatesIn_def)

text \<open>A write of the operator: a pool pod it listed, acquired when it was ready, made ready when it was warming.\<close>

definition listed :: "event list \<Rightarrow> Pod \<Rightarrow> bool" where
  "listed pre p \<longleftrightarrow> (\<exists>ns sel ps. PodEv (ListEv ns sel (Inr ps)) \<in> set pre \<and> p \<in> set ps)"

definition listedReady :: "event list \<Rightarrow> Pod \<Rightarrow> bool" where
  "listedReady pre p \<longleftrightarrow>
     (\<exists>ns sel ps. PodEv (ListEv ns sel (Inr ps)) \<in> set pre \<and> p \<in> set ps \<and> (LabelPoolStatus, ''ready'') \<in> set sel)"

definition labelWriteOk :: "event list \<Rightarrow> event \<Rightarrow> bool" where
  "labelWriteOk pre e \<longleftrightarrow> (\<forall>x. podUpdate e = Some x \<longrightarrow>
     (\<exists>p t. listedReady pre p \<and> x = acquiredPod p t) \<or>
     (\<exists>p. listed pre p \<and> poolStatusOf p = ''warming'' \<and> x = markReady p))"

lemma labelWriteOk_none [simp]: "podUpdate e = None \<Longrightarrow> labelWriteOk pre e"
  by (simp add: labelWriteOk_def)

lemma labelWriteOk_quiet: "noPodUpdate e \<Longrightarrow> labelWriteOk pre e"
  by (simp add: noPodUpdate_iff)

lemma ordered_quiet: "emits noPodUpdate m \<Longrightarrow> ordered labelWriteOk m"
  by (erule ordered_emits) (rule labelWriteOk_quiet)

section \<open>What a pass over a claim writes\<close>

lemma storage_noPodUpdate: "storageEvent ns e \<Longrightarrow> noPodUpdate e"
  by (cases e) (auto simp: noPodUpdate_iff podUpdate_def split: kev.splits)

lemma proxy_noPodUpdate: "proxyEvent ns e \<Longrightarrow> noPodUpdate e"
  by (cases e) (auto simp: noPodUpdate_iff podUpdate_def)

lemma emits_claimStatus_quiet: "emits noPodUpdate (updateClaimStatus E c st res)"
  by (auto simp: updateClaimStatus_def statusObj_def intro!: emits_intros)

lemma emits_activate_quiet: "emits noPodUpdate (activateClaim E c pod source)"
  by (auto simp: activateClaim_def timeNow_def Let_def intro!: emits_intros emits_claimStatus_quiet)

lemma emits_token_quiet:
  "emits noPodUpdate (ensureClaimToken E c wl)" "emits noPodUpdate (deleteClaimToken E c)"
  by (auto simp: ensureClaimToken_def deleteClaimToken_def generateToken_def api_defs Let_def intro!: emits_intros)

lemma emits_find_quiet: "emits noPodUpdate (findTenantPod E ns t w)"
  by (auto simp: findTenantPod_def listObj_def intro!: emits_intros)

lemma emits_proxy_quiet: "emits noPodUpdate (workloadProxy E ns wl)"
  by (rule emits_mono [OF emits_workloadProxy]) (rule proxy_noPodUpdate)

lemma emits_coldBoot_quiet: "emits noPodUpdate (coldBoot E R c wl)"
  unfolding coldBoot_def createTenantPod_def createConfigMap_def randomSuffix_def api_defs
  by (auto intro!: emits_intros emits_token_quiet emits_activate_quiet emits_proxy_quiet)

context overlay_storage
begin

lemma emits_snap_quiet:
  assumes "servesPods E"
  shows "emits noPodUpdate (hasSnapshot S t w)" "emits noPodUpdate (injectSnapshot S p t w)"
    "emits noPodUpdate (extractAndStore S p t w dirs)" "emits noPodUpdate (deleteSnapshot S t w)"
  unfolding hasSnapshot_def injectSnapshot_def extractAndStore_def deleteSnapshot_def
  by (intro emits_intros emits_mono [OF emits_has [OF assms]], erule storage_noPodUpdate, simp,
      intro emits_intros emits_mono [OF emits_inject [OF assms]], erule storage_noPodUpdate, simp,
      intro emits_intros emits_mono [OF emits_extract [OF assms]], erule storage_noPodUpdate, simp,
      intro emits_intros emits_mono [OF emits_delete [OF assms]], erule storage_noPodUpdate, simp)

lemma emits_attempts_quiet:
  "servesPods E \<Longrightarrow> emits noPodUpdate (extractAttempts E S p t w dirs ds le)"
  by (induction ds arbitrary: le) (auto simp: waitTimer_def intro!: emits_intros emits_snap_quiet)

lemma emits_claimFromPool_updates:
  assumes "servesPods E" "crSnapshots R = Some S"
  shows "emits (updatesIn {acquiredPod p (claimTenantId (claimSpec c))}) (claimFromPool E R c p wl)"
  using assms unfolding claimFromPool_def
  by (auto simp: updateObj_def Let_def intro!: emits_intros
      emits_updatesIn [OF emits_activate_quiet] emits_updatesIn [OF emits_snap_quiet(1)]
      emits_updatesIn [OF emits_snap_quiet(2)])

lemma ordered_acquirePod:
  assumes "servesPods E" "crSnapshots R = Some S"
  shows "ordered labelWriteOk (acquirePod E R c wl)"
  unfolding acquirePod_def findPoolPod_def listObj_def State_Monad.bind_assoc
proof (rule ordered_call_bind)
  fix tr
  let ?ns = "Namespace (claimMeta c)" and ?w = "claimWorkloadRef (claimSpec c)"
  let ?l = "k_list (pods E) tr ?ns (readySelector ?w)"
  let ?rest = "do { p \<leftarrow> ret (firstItem ?l);
     case p of
       Inl e \<Rightarrow> ret (Inl e)
     | Inr None \<Rightarrow> coldBoot E R c wl
     | Inr (Some poolPod) \<Rightarrow> claimFromPool E R c poolPod wl }"
  show "\<exists>P. emits P ?rest \<and> (\<forall>pre e. PodEv (ListEv ?ns (readySelector ?w) ?l) \<in> set pre \<longrightarrow> P e \<longrightarrow> labelWriteOk pre e)"
  proof (cases "firstItem ?l")
    case (Inl e)
    then show ?thesis by (intro exI [of _ noPodUpdate]) (auto simp: labelWriteOk_quiet intro!: emits_intros)
  next
    case (Inr o')
    show ?thesis
    proof (cases o')
      case None
      with Inr show ?thesis
        by (intro exI [of _ noPodUpdate]) (auto simp: labelWriteOk_quiet intro!: emits_intros emits_coldBoot_quiet)
    next
      case (Some p)
      with Inr obtain ps where ps: "?l = Inr (p # ps)"
        by (auto simp: firstItem_def split: sum.splits list.splits)
      have "labelWriteOk pre e"
        if "PodEv (ListEv ?ns (readySelector ?w) ?l) \<in> set pre"
          "updatesIn {acquiredPod p (claimTenantId (claimSpec c))} e" for pre e
      proof -
        have "(LabelPoolStatus, ''ready'') \<in> set (readySelector ?w)" by (simp add: readySelector_def)
        moreover have "p \<in> set (p # ps)" by simp
        ultimately have "listedReady pre p" using that(1) unfolding listedReady_def ps by blast
        with that(2) show ?thesis by (auto simp: labelWriteOk_def updatesIn_def)
      qed
      with Inr Some emits_claimFromPool_updates [OF assms, of p c wl] show ?thesis
        by (intro exI [of _ "updatesIn {acquiredPod p (claimTenantId (claimSpec c))}"]) (auto intro!: emits_intros)
    qed
  qed
qed simp

lemma ordered_handleNewClaim:
  assumes "servesPods E" "crSnapshots R = Some S"
  shows "ordered labelWriteOk (handleNewClaim E R c)"
proof -
  have "ordered labelWriteOk (findTenantPod E ns t w)" for ns t w
    by (rule ordered_quiet [OF emits_find_quiet])
  moreover have "ordered labelWriteOk (deleteObj PodEv (pods E) k)" for k
    by (rule ordered_quiet) (auto simp: deleteObj_def intro!: emits_intros)
  moreover have "ordered labelWriteOk (getObj WorkloadEv (workloads E) k)"
      "ordered labelWriteOk (updateObj ClaimEv (claims E) c')" for k c'
    by (rule ordered_quiet, auto simp: getObj_def updateObj_def intro!: emits_intros)+
  ultimately show ?thesis
    unfolding handleNewClaim_def placeClaim_def setClaimError_def
    by (auto intro!: ordered_intros ordered_acquirePod [OF assms] ordered_quiet [OF emits_activate_quiet]
        ordered_quiet [OF emits_claimStatus_quiet])
qed

lemma emits_release_quiet:
  assumes "servesPods E" "crSnapshots R = Some S"
  shows "emits noPodUpdate (releaseClaim E R c action)"
  using assms unfolding releaseClaim_def releasePod_def releaseExtract_def destroySnapshot_def finishRelease_def
    markReleaseFailed_def extractWithRetry_def api_defs
  by (auto intro!: emits_intros emits_find_quiet emits_attempts_quiet emits_snap_quiet(4) emits_token_quiet
      emits_claimStatus_quiet)

lemma emits_active_quiet:
  assumes "servesPods E" "crSnapshots R = Some S"
  shows "emits noPodUpdate (handleActive E R c)"
  unfolding handleActive_def backingPodGone_def idleCheck_def api_defs Let_def
  by (auto intro!: emits_intros emits_claimStatus_quiet emits_release_quiet [OF assms])

lemma emits_deletion_quiet:
  assumes "servesPods E" "crSnapshots R = Some S"
  shows "emits noPodUpdate (handleDeletion E R c)"
  using assms unfolding handleDeletion_def removePod_def deletionExtract_def destroySnapshot_def finishDeletion_def
    extractWithRetry_def api_defs
  by (auto intro!: emits_intros emits_find_quiet emits_attempts_quiet emits_snap_quiet(4) emits_token_quiet)

lemma ordered_reconcileClaim:
  assumes "servesPods E" "crSnapshots R = Some S"
  shows "ordered labelWriteOk (reconcileClaim E R req)"
  unfolding reconcileClaim_def
  by (intro ordered_intros ordered_handleNewClaim [OF assms] ordered_quiet [OF emits_active_quiet [OF assms]]
      ordered_quiet [OF emits_deletion_quiet [OF assms]] ordered_quiet)
    (auto simp: getObj_def intro!: emits_intros)

end

section \<open>What a pass over a pool writes\<close>

lemma emits_poolProxy_quiet: "emits noPodUpdate (poolProxy E pool wl)"
  by (auto simp: poolProxy_def intro!: emits_intros emits_mono [OF emits_BuildProxyConfig proxy_noPodUpdate])

lemma emits_createPoolPods_quiet: "emits noPodUpdate (createPoolPods E pool wl proxy n w)"
  by (induction n arbitrary: w)
    (auto simp: createPoolPod_def createPoolConfigMap_def randomSuffix_def api_defs intro!: emits_intros)

lemma emits_fillPool_quiet: "emits noPodUpdate (fillPool E pool wl n w)"
  by (auto simp: fillPool_def Let_def intro!: emits_intros emits_poolProxy_quiet emits_createPoolPods_quiet)

lemma emits_poolStatus_quiet: "emits noPodUpdate (setPoolStatus E pool r w ph d)"
  by (auto simp: setPoolStatus_def statusObj_def intro!: emits_intros)

definition warmed :: "Pod list \<Rightarrow> Pod set" where
  "warmed ps = markReady ` {p \<in> set ps. poolStatusOf p = ''warming''}"

lemma emits_relabelPods_updates: "set qs \<subseteq> set ps \<Longrightarrow> emits (updatesIn (warmed ps)) (relabelPods E qs w n)"
  by (induction qs arbitrary: w n) (auto simp: updateObj_def warmed_def intro!: emits_intros)

lemma ordered_managePool: "ordered labelWriteOk (managePool E pool wl)"
  unfolding managePool_def listPoolPods_def listObj_def State_Monad.bind_assoc
proof (rule ordered_call_bind)
  fix tr
  let ?ns = "Namespace (poolMeta pool)" and ?sel = "workloadSelector (poolWorkloadRef (poolSpec pool))"
  let ?l = "k_list (pods E) tr ?ns ?sel"
  let ?rest = "do {
     l \<leftarrow> (case ?l of Inl e \<Rightarrow> ret (Inl e) | Inr ps \<Rightarrow> ret (Inr (filter isPoolPod ps)));
     case l of
       Inl e \<Rightarrow> ret (Inl (wrapf ''listing pool pods'' e))
     | Inr poolPods \<Rightarrow> do {
         c \<leftarrow> relabelPods E poolPods 0 0;
         case c of
           Inl e \<Rightarrow> ret (Inl e)
         | Inr (warming, rdy) \<Rightarrow> fillAndReport E pool wl (int (length poolPods)) warming rdy
       }
   }"
  show "\<exists>P. emits P ?rest \<and> (\<forall>pre e. PodEv (ListEv ?ns ?sel ?l) \<in> set pre \<longrightarrow> P e \<longrightarrow> labelWriteOk pre e)"
  proof (cases ?l)
    case (Inl e)
    then show ?thesis by (intro exI [of _ noPodUpdate]) (auto simp: labelWriteOk_quiet intro!: emits_intros)
  next
    case (Inr ps)
    have "emits (updatesIn (warmed ps)) ?rest"
      unfolding Inr sum.case State_Monad.bind_left_identity fillAndReport_def
      by (auto intro!: emits_intros emits_relabelPods_updates emits_updatesIn [OF emits_fillPool_quiet]
          emits_updatesIn [OF emits_poolStatus_quiet])
    moreover have "labelWriteOk pre e"
      if "PodEv (ListEv ?ns ?sel ?l) \<in> set pre" "updatesIn (warmed ps) e" for pre e
    proof -
      have "listed pre p" if "p \<in> set ps" for p
        using \<open>PodEv (ListEv ?ns ?sel ?l) \<in> set pre\<close> that unfolding listed_def Inr by blast
      with that(2) show ?thesis unfolding labelWriteOk_def updatesIn_def warmed_def by fastforce
    qed
    ultimately show ?thesis by blast
  qed
qed simp

lemma emits_deletePool_quiet: "emits noPodUpdate (deletePoolPods E ns w)"
  by (auto simp: deletePoolPods_def deletePodOrSkip_def api_defs intro!: emits_intros)

lemma ordered_reconcilePool: "ordered labelWriteOk (reconcilePool E req)"
proof -
  have "ordered labelWriteOk (getObj PoolEv (pools E) k)" "ordered labelWriteOk (updateObj PoolEv (pools E) p)"
      "ordered labelWriteOk (getObj WorkloadEv (workloads E) k)" for k p
    by (rule ordered_quiet, auto simp: getObj_def updateObj_def intro!: emits_intros)+
  then show ?thesis
    unfolding reconcilePool_def
    by (intro ordered_intros ordered_managePool ordered_quiet [OF emits_deletePool_quiet]
        ordered_quiet [OF emits_poolStatus_quiet])
qed

section \<open>Histories\<close>

type_synonym history = "(nat \<times> event) list"

definition callsOf :: "nat \<Rightarrow> history \<Rightarrow> event list" where
  "callsOf a hist = map snd (filter (\<lambda>(b, _). b = a) hist)"

text \<open>
  The calls of a client: passes of the claim and the pool reconciler, each for an environment of its own, since
  others write between its calls, and cut anywhere; and calls that neither update a pod nor write the status of a claim.
\<close>

inductive clientCalls :: "event list \<Rightarrow> bool" where
  start: "clientCalls []"
| claim: "clientCalls evs \<Longrightarrow> servesPods E \<Longrightarrow> crSnapshots R = Some (managerSnapshotter E s) \<Longrightarrow>
    clientCalls (evs @ take n (appended (reconcileClaim E R req) tr))"
| pool: "clientCalls evs \<Longrightarrow> clientCalls (evs @ take n (appended (reconcilePool E req) tr))"
| other: "clientCalls evs \<Longrightarrow> list_all bystander es \<Longrightarrow> clientCalls (evs @ es)"

lemma clientCalls_guarded: "clientCalls evs \<Longrightarrow> guarded labelWriteOk [] evs"
proof (induction rule: clientCalls.induct)
  case (claim evs E R s n req tr)
  then show ?case
    by (simp add: guarded_take ordered_appended [OF manager.ordered_reconcileClaim])
next
  case (pool evs n E req tr)
  then show ?case by (simp add: guarded_take ordered_appended [OF ordered_reconcilePool])
next
  case (other evs es)
  then have "list_all noPodUpdate es" by (simp add: list_all_iff bystander_def)
  with other show ?case by (auto intro: guarded_list_all [OF _ labelWriteOk_quiet])
qed simp

text \<open>
  The pods the API server stores, before the call at each position: an update is accepted with the stored
  version only and stores the labels it was given; a list answers with pods that are, or were, stored and
  match the selector; a version is given once; and labels change only by an update.
\<close>

type_synonym 'o store = "nat \<Rightarrow> NamespacedName \<Rightarrow> 'o option"

definition updatesCurrent :: "history \<Rightarrow> Pod store \<Rightarrow> bool" where
  "updatesCurrent hist stored \<longleftrightarrow> (\<forall>i < length hist. \<forall>a x y. hist ! i = (a, PodEv (UpdateEv x (Inr y))) \<longrightarrow>
     (\<exists>cur. stored i (podKey x) = Some cur \<and> ResourceVersion (podMeta cur) = ResourceVersion (podMeta x)) \<and>
     stored (Suc i) (podKey x) = Some y \<and> Labels (podMeta y) = Labels (podMeta x))"

definition listsStored :: "history \<Rightarrow> Pod store \<Rightarrow> bool" where
  "listsStored hist stored \<longleftrightarrow> (\<forall>i < length hist. \<forall>a ns sel ps p. hist ! i = (a, PodEv (ListEv ns sel (Inr ps))) \<longrightarrow>
     p \<in> set ps \<longrightarrow> matchesLabels sel (podMeta p) \<and> (\<exists>j \<le> i. stored j (podKey p) = Some p))"

definition versionsOnce :: "('o \<Rightarrow> ObjectMeta) \<Rightarrow> 'o store \<Rightarrow> bool" where
  "versionsOnce meta stored \<longleftrightarrow> (\<forall>i j k p q. stored i k = Some p \<longrightarrow> stored j k = Some q \<longrightarrow>
     ResourceVersion (meta p) = ResourceVersion (meta q) \<longrightarrow> p = q)"

definition labelsByUpdate :: "history \<Rightarrow> Pod store \<Rightarrow> bool" where
  "labelsByUpdate hist stored \<longleftrightarrow> (\<forall>i < length hist. \<forall>k p q. stored i k = Some p \<longrightarrow> stored (Suc i) k = Some q \<longrightarrow>
     Labels (podMeta q) = Labels (podMeta p) \<or> (\<exists>a x. hist ! i = (a, PodEv (UpdateEv x (Inr q))) \<and> podKey x = k))"

definition podStore :: "history \<Rightarrow> Pod store \<Rightarrow> bool" where
  "podStore hist stored \<longleftrightarrow> updatesCurrent hist stored \<and> listsStored hist stored \<and> versionsOnce podMeta stored \<and>
     labelsByUpdate hist stored"

lemma callsOf_before:
  assumes "i < length hist" and "hist ! i = (a, e)" and "guarded G [] (callsOf a hist)"
  shows "G (callsOf a (take i hist)) e"
proof -
  have "hist = take i hist @ (a, e) # drop (Suc i) hist"
    using assms(1,2) by (metis id_take_nth_drop)
  then have "callsOf a hist = callsOf a (take i hist @ (a, e) # drop (Suc i) hist)"
    by (rule arg_cong)
  also have "\<dots> = callsOf a (take i hist) @ e # callsOf a (drop (Suc i) hist)"
    by (simp add: callsOf_def)
  finally have "callsOf a hist = callsOf a (take i hist) @ e # callsOf a (drop (Suc i) hist)" .
  with assms(3) show ?thesis by simp
qed

lemma callsOf_index:
  assumes "e \<in> set (callsOf a (take i hist))"
  obtains j where "j < i" "j < length hist" "hist ! j = (a, e)"
proof -
  from assms have "(a, e) \<in> set (take i hist)" by (auto simp: callsOf_def)
  then obtain j where "j < length (take i hist)" "take i hist ! j = (a, e)" by (metis in_set_conv_nth)
  with that [of j] show thesis by simp
qed

lemma matches_ready:
  "matchesLabels sel m \<Longrightarrow> (k, v) \<in> set sel \<Longrightarrow> Labels m k = Some v"
  by (auto simp: matchesLabels_def list_all_iff)

text \<open>An update of the operator is accepted only for a pod stored as ready or warming.\<close>

lemma accepted_update:
  assumes store: "podStore hist stored" and calls: "clientCalls (callsOf a hist)"
    and i: "i < length hist" "hist ! i = (a, PodEv (UpdateEv x (Inr y)))"
  obtains cur where "stored i (podKey x) = Some cur" "poolStatusOf cur \<in> {''ready'', ''warming''}"
proof -
  from store i obtain cur where cur: "stored i (podKey x) = Some cur"
      "ResourceVersion (podMeta cur) = ResourceVersion (podMeta x)"
    unfolding podStore_def updatesCurrent_def by blast
  have read: "p = cur \<and> matchesLabels sel (podMeta p)"
    if e: "PodEv (ListEv ns sel (Inr ps)) \<in> set (callsOf a (take i hist))" "p \<in> set ps"
      and x: "podKey x = podKey p" "ResourceVersion (podMeta x) = ResourceVersion (podMeta p)" for ns sel ps p
  proof -
    from e(1) obtain j where "j < i" "j < length hist" "hist ! j = (a, PodEv (ListEv ns sel (Inr ps)))"
      by (rule callsOf_index)
    with store e(2) obtain m where "matchesLabels sel (podMeta p)" "stored m (podKey p) = Some p"
      unfolding podStore_def listsStored_def by blast
    with store cur x show ?thesis unfolding podStore_def versionsOnce_def by metis
  qed
  have "labelWriteOk (callsOf a (take i hist)) (PodEv (UpdateEv x (Inr y)))"
    by (rule callsOf_before [OF i clientCalls_guarded [OF calls]])
  then consider (acquired) p t where "listedReady (callsOf a (take i hist)) p" "x = acquiredPod p t"
    | (warm) p where "listed (callsOf a (take i hist)) p" "poolStatusOf p = ''warming''" "x = markReady p"
    by (auto simp: labelWriteOk_def)
  then have "poolStatusOf cur \<in> {''ready'', ''warming''}"
  proof cases
    case acquired
    then obtain ns sel ps where "PodEv (ListEv ns sel (Inr ps)) \<in> set (callsOf a (take i hist))" "p \<in> set ps"
        "(LabelPoolStatus, ''ready'') \<in> set sel"
      by (auto simp: listedReady_def)
    with read [of ns sel ps p] acquired(2) show ?thesis
      by (auto simp: acquiredPod_def keyOf_def poolStatusOf_def lookupS_def dest: matches_ready)
  next
    case warm
    then obtain ns sel ps where "PodEv (ListEv ns sel (Inr ps)) \<in> set (callsOf a (take i hist))" "p \<in> set ps"
      by (auto simp: listed_def)
    with read [of ns sel ps p] warm(2,3) show ?thesis
      by (auto simp: markReady_def keyOf_def)
  qed
  with cur(1) that show ?thesis by blast
qed

text \<open>So a pod that is stored as acquired keeps its labels as long as it is stored.\<close>

lemma acquired_kept:
  assumes store: "podStore hist stored" and calls: "\<And>a. clientCalls (callsOf a hist)"
    and s: "stored i k = Some p" "poolStatusOf p = ''acquired''"
    and kept: "\<And>m. i \<le> m \<Longrightarrow> m \<le> j \<Longrightarrow> stored m k \<noteq> None" and "i \<le> j" "j \<le> length hist"
  shows "\<exists>q. stored j k = Some q \<and> Labels (podMeta q) = Labels (podMeta p)"
  using \<open>i \<le> j\<close> kept \<open>j \<le> length hist\<close>
proof (induction j rule: dec_induct)
  case base
  with s show ?case by simp
next
  case (step j)
  then obtain q where q: "stored j k = Some q" "Labels (podMeta q) = Labels (podMeta p)" by auto
  from step.prems(1) [of "Suc j"] step.hyps obtain q' where q': "stored (Suc j) k = Some q'" by auto
  have "Labels (podMeta q') = Labels (podMeta q)"
  proof (rule ccontr)
    assume "Labels (podMeta q') \<noteq> Labels (podMeta q)"
    with store q(1) q' step.prems(2) obtain a x where
      u: "hist ! j = (a, PodEv (UpdateEv x (Inr q')))" "podKey x = k"
      unfolding podStore_def labelsByUpdate_def by (metis Suc_le_lessD)
    from accepted_update [OF store calls _ u(1)] step.prems(2) u(2) q(1)
    have "poolStatusOf q \<in> {''ready'', ''warming''}" by auto
    with q(2) s(2) show False by (simp add: poolStatusOf_def)
  qed
  with q(2) q' show ?case by simp
qed

section \<open>Properties\<close>

text \<open>
  C5. A pool pod is handed to one tenant only, however the passes of claim and pool reconcilers interleave: once the
  API server accepted the update with which a pass acquires it, then for as long as the pod is
  stored its labels are those of that update, so it is the tenant's, and no update of it is accepted again.
\<close>

theorem pool_pod_exclusive:
  assumes "podStore hist stored" and "\<And>a. clientCalls (callsOf a hist)"
    and "i < length hist" and "hist ! i = (a, PodEv (UpdateEv (acquiredPod p t) (Inr y)))"
    and "\<And>m. i < m \<Longrightarrow> m \<le> j \<Longrightarrow> stored m (podKey p) \<noteq> None" and "i < j" "j \<le> length hist"
  shows "(\<exists>q. stored j (podKey p) = Some q \<and> Labels (podMeta q) = Labels (podMeta (acquiredPod p t)) \<and>
      Labels (podMeta q) LabelTenant = Some t) \<and>
    (\<forall>b x z. j < length hist \<longrightarrow> hist ! j = (b, PodEv (UpdateEv x (Inr z))) \<longrightarrow> podKey x \<noteq> podKey p)"
proof -
  have key: "podKey (acquiredPod p t) = podKey p"
    and lab: "Labels (podMeta (acquiredPod p t)) LabelTenant = Some t" "poolStatusOf (acquiredPod p t) = ''acquired''"
    by (simp_all add: acquiredPod_def keyOf_def poolStatusOf_def lookupS_def label_defs)
  from assms(1,3,4) key have y: "stored (Suc i) (podKey p) = Some y" "Labels (podMeta y) = Labels (podMeta (acquiredPod p t))"
    unfolding podStore_def updatesCurrent_def by metis+
  then have "poolStatusOf y = ''acquired''" using lab(2) by (simp add: poolStatusOf_def)
  from acquired_kept [OF assms(1,2) y(1) this, of j] assms(5-7)
  obtain q where q: "stored j (podKey p) = Some q" "Labels (podMeta q) = Labels (podMeta y)" by auto
  have "podKey x \<noteq> podKey p" if "j < length hist" "hist ! j = (b, PodEv (UpdateEv x (Inr z)))" for b x z
  proof
    assume "podKey x = podKey p"
    with accepted_update [OF assms(1,2) that] q(1) have "poolStatusOf q \<in> {''ready'', ''warming''}" by auto
    with q(2) y(2) lab(2) show False by (simp add: poolStatusOf_def)
  qed
  with q y(2) lab(1) show ?thesis by simp
qed

text \<open>
  Two clients race for a pool pod: both list it as ready, the update of client 0 is accepted, that of client 1 is a
  conflict, and both passes are cut after it.
\<close>

definition racePod :: Pod where
  "racePod = demoPod\<lparr>podMeta := (podMeta demoPod)\<lparr>ResourceVersion := ''1'',
     Labels := [LabelWorkload \<mapsto> ''w'', LabelPoolStatus \<mapsto> ''ready'']\<rparr>\<rparr>"

definition wonPod :: Pod where
  "wonPod = (acquiredPod racePod ''t'')\<lparr>podMeta := (podMeta (acquiredPod racePod ''t''))\<lparr>ResourceVersion := ''2''\<rparr>\<rparr>"

definition raceEnv :: "err + Pod \<Rightarrow> env" where
  "raceEnv answer = activatingEnv\<lparr>claims := offlineKind\<lparr>k_get := \<lambda>_ _. Inr pendingClaim\<rparr>,
     pods := offlineKind\<lparr>k_list := \<lambda>_ _ sel. Inr (if (LabelPoolStatus, ''ready'') \<in> set sel then [racePod] else []),
       k_update := \<lambda>_ _. answer\<rparr>\<rparr>"

definition raceReconciler :: "env \<Rightarrow> ClaimReconciler" where
  "raceReconciler E = demoReconciler\<lparr>crSnapshots := Some (managerSnapshotter E \<lparr>smNamespace = ''ns''\<rparr>)\<rparr>"

definition raceCalls :: "err + Pod \<Rightarrow> event list" where
  "raceCalls answer = take 5 (appended (reconcileClaim (raceEnv answer) (raceReconciler (raceEnv answer)) (nsName ''ns'' ''c'')) [])"

lemma run_bind_call: "run_state (State_Monad.bind (call f ev) k) tr = run_state (k (f tr)) (tr @ [ev (f tr)])"
  by simp

lemma claimFromPool_starts:
  assumes "servesPods E" and "crSnapshots R = Some (managerSnapshotter E s)"
  shows "\<exists>evs. appended (claimFromPool E R c p wl) tr =
    PodEv (UpdateEv (acquiredPod p (claimTenantId (claimSpec c)))
      (k_update (pods E) tr (acquiredPod p (claimTenantId (claimSpec c))))) # evs"
proof -
  have "emits (\<lambda>_. True) (claimFromPool E R c p wl)"
    by (rule emits_mono [OF manager.emits_claimFromPool_updates [OF assms]]) simp
  then obtain evs where "snd (run_state (claimFromPool E R c p wl) tr) = tr @ evs"
    unfolding emits_def by blast
  moreover have "\<exists>evs. snd (run_state (claimFromPool E R c p wl) tr) =
      (tr @ [PodEv (UpdateEv (acquiredPod p (claimTenantId (claimSpec c)))
        (k_update (pods E) tr (acquiredPod p (claimTenantId (claimSpec c)))))]) @ evs"
  proof -
    let ?K = "\<lambda>u. case u of
          Inl e \<Rightarrow> ret (Inl (wrapf ''relabeling pool pod'' e))
        | Inr poolPod \<Rightarrow> do {
            h \<leftarrow> hasSnapshot (managerSnapshotter E s) (claimTenantId (claimSpec c)) (claimWorkloadRef (claimSpec c));
            case h of
              Inl e \<Rightarrow> activateClaim E c poolPod ''pool''
            | Inr hasSnap \<Rightarrow>
                if hasSnap then do {
                  i \<leftarrow> injectSnapshot (managerSnapshotter E s) (podName poolPod) (claimTenantId (claimSpec c))
                         (claimWorkloadRef (claimSpec c));
                  case i of
                    Some e \<Rightarrow> activateClaim E c poolPod ''pool''
                  | None \<Rightarrow> activateClaim E c poolPod ''pool+data''
                }
                else activateClaim E c poolPod ''pool''
          }"
    have "emits noPodUpdate (?K u)" for u
      using assms by (auto intro!: emits_intros emits_activate_quiet manager.emits_snap_quiet)
    then have K: "\<exists>evs. snd (run_state (?K u) tr') = tr' @ evs" for u tr'
      unfolding emits_def by blast
    have "claimFromPool E R c p wl =
        State_Monad.bind (updateObj PodEv (pods E) (acquiredPod p (claimTenantId (claimSpec c)))) ?K"
      using assms(2) by (simp add: claimFromPool_def Let_def cong: sum.case_cong)
    then show ?thesis by (simp only: updateObj_def run_bind_call K)
  qed
  ultimately show ?thesis unfolding appended_def by auto
qed

lemma race_serves: "servesPods (raceEnv answer)"
  by (simp add: servesPods_def raceEnv_def offline_defs)

lemma raceCalls:
  "raceCalls answer = [ClaimEv (GetEv (nsName ''ns'' ''c'') (Inr pendingClaim)),
     WorkloadEv (GetEv (nsName ''ns'' ''w'') (Inr (demoWorkload\<lparr>wlStatus := (wlStatus demoWorkload)\<lparr>wlPhase := ''Ready''\<rparr>\<rparr>))),
     PodEv (ListEv ''ns'' (tenantSelector ''t'' ''w'') (Inr [])),
     PodEv (ListEv ''ns'' (readySelector ''w'') (Inr [racePod])),
     PodEv (UpdateEv (acquiredPod racePod ''t'') answer)]" (is "_ = ?c1 # ?c2 # ?c3 # ?c4 # _")
proof -
  let ?E = "raceEnv answer" and ?R = "raceReconciler (raceEnv answer)"
  let ?wl = "demoWorkload\<lparr>wlStatus := (wlStatus demoWorkload)\<lparr>wlPhase := ''Ready''\<rparr>\<rparr>"
  have R: "crSnapshots ?R = Some (managerSnapshotter ?E \<lparr>smNamespace = ''ns''\<rparr>)"
    by (simp add: raceReconciler_def)
  have sel: "(LabelPoolStatus, ''ready'') \<notin> set (tenantSelector t w)" "(LabelPoolStatus, ''ready'') \<in> set (readySelector w)"
      for t w
    by (simp_all add: tenantSelector_def readySelector_def label_defs)
  have "run_state (reconcileClaim ?E ?R (nsName ''ns'' ''c'')) [] =
      run_state (claimFromPool ?E ?R pendingClaim racePod ?wl) ([] @ [?c1, ?c2, ?c3, ?c4])"
    by (simp add: reconcileClaim_def handleNewClaim_def placeClaim_def acquirePod_def findTenantPod_def sel
        findPoolPod_def firstItem_def getObj_def listObj_def raceEnv_def activatingEnv_def
        demoClaim_def pendingClaim_def ContainsFinalizer_def isDeleting_def objectMeta_def zeroMeta_def)
  with manager.emits_claimFromPool_updates [OF race_serves R]
  have "appended (reconcileClaim ?E ?R (nsName ''ns'' ''c'')) [] =
      [?c1, ?c2, ?c3, ?c4] @ appended (claimFromPool ?E ?R pendingClaim racePod ?wl) ([] @ [?c1, ?c2, ?c3, ?c4])"
    by (rule appended_after)
  moreover obtain evs where "appended (claimFromPool ?E ?R pendingClaim racePod ?wl) ([] @ [?c1, ?c2, ?c3, ?c4]) =
      PodEv (UpdateEv (acquiredPod racePod ''t'') answer) # evs"
    using claimFromPool_starts [OF race_serves R, of pendingClaim racePod ?wl]
    by (auto simp: pendingClaim_def demoClaim_def raceEnv_def offline_defs)
  ultimately show ?thesis by (simp add: raceCalls_def)
qed

definition raceHist :: history where
  "raceHist = concat (map (\<lambda>(e, f). [(0, e), (1, f)]) (zip (raceCalls (Inr wonPod)) (raceCalls (Inl offline))))"

definition raceStore :: "Pod store" where
  "raceStore i k = (if k = podKey racePod then Some (if i \<le> 8 then racePod else wonPod) else None)"

lemma raceHist_length: "length raceHist = 10"
  by (simp add: raceHist_def raceCalls)

lemma raceHist_calls: "clientCalls (callsOf a raceHist)"
proof -
  have "callsOf a raceHist = (if a = 0 then raceCalls (Inr wonPod) else if a = 1 then raceCalls (Inl offline) else [])"
    by (simp add: callsOf_def raceHist_def raceCalls)
  moreover have "clientCalls (raceCalls answer)" for answer
    using clientCalls.claim [OF clientCalls.start race_serves, of "raceReconciler (raceEnv answer)" answer _ 5]
    by (simp add: raceCalls_def raceReconciler_def)
  ultimately show ?thesis by (simp add: clientCalls.start)
qed

lemma raceHist_update:
  "i < length raceHist \<Longrightarrow> raceHist ! i = (a, PodEv (UpdateEv x (Inr y))) \<Longrightarrow>
   i = 8 \<and> x = acquiredPod racePod ''t'' \<and> y = wonPod"
  by (simp add: raceHist_def raceCalls nth_Cons' split: if_splits)

lemma raceHist_list:
  "i < length raceHist \<Longrightarrow> raceHist ! i = (a, PodEv (ListEv ns sel (Inr ps))) \<Longrightarrow> p \<in> set ps \<Longrightarrow>
   p = racePod \<and> sel = readySelector ''w''"
  by (auto simp: raceHist_def raceCalls nth_Cons' split: if_splits)

lemma race_won: "raceHist ! 8 = (0, PodEv (UpdateEv (acquiredPod racePod ''t'') (Inr wonPod)))"
  by (simp add: raceHist_def raceCalls)

lemma race_podStore: "podStore raceHist raceStore"
proof -
  have pods: "podKey (acquiredPod racePod t) = podKey racePod" "podKey wonPod = podKey racePod"
      "ResourceVersion (podMeta (acquiredPod racePod t)) = ''1''" "ResourceVersion (podMeta racePod) = ''1''"
      "ResourceVersion (podMeta wonPod) = ''2''" "Labels (podMeta wonPod) = Labels (podMeta (acquiredPod racePod ''t''))" for t
    by (simp_all add: acquiredPod_def wonPod_def racePod_def keyOf_def)
  have "(\<exists>cur. raceStore i (podKey x) = Some cur \<and> ResourceVersion (podMeta cur) = ResourceVersion (podMeta x)) \<and>
      raceStore (Suc i) (podKey x) = Some y \<and> Labels (podMeta y) = Labels (podMeta x)"
    if "i < length raceHist" "raceHist ! i = (a, PodEv (UpdateEv x (Inr y)))" for i a x y
    using raceHist_update [OF that] by (simp add: raceStore_def pods)
  then have "updatesCurrent raceHist raceStore" unfolding updatesCurrent_def by blast
  moreover have "matchesLabels sel (podMeta p) \<and> (\<exists>j \<le> i. raceStore j (podKey p) = Some p)"
    if "i < length raceHist" "raceHist ! i = (a, PodEv (ListEv ns sel (Inr ps)))" "p \<in> set ps" for i a ns sel ps p
    using raceHist_list [OF that]
    by (auto simp: raceStore_def readySelector_def matchesLabels_def racePod_def label_defs intro: exI [of _ "0 :: nat"])
  then have "listsStored raceHist raceStore" unfolding listsStored_def by blast
  moreover have "versionsOnce podMeta raceStore"
    by (auto simp: versionsOnce_def raceStore_def pods split: if_splits)
  moreover have "Labels (podMeta q) = Labels (podMeta p) \<or> (\<exists>a x. raceHist ! i = (a, PodEv (UpdateEv x (Inr q))) \<and> podKey x = k)"
    if "raceStore i k = Some p" "raceStore (Suc i) k = Some q" for i k p q
  proof (cases "i = 8")
    case True
    with that show ?thesis by (simp add: raceStore_def race_won pods split: if_splits)
  next
    case False
    with that show ?thesis by (auto simp: raceStore_def split: if_splits)
  qed
  then have "labelsByUpdate raceHist raceStore" unfolding labelsByUpdate_def by blast
  ultimately show ?thesis by (simp add: podStore_def)
qed

theorem pool_pod_exclusive_witness:
  "Labels (podMeta wonPod) LabelTenant = Some ''t'' \<and>
   \<not> (\<exists>b z. raceHist ! 9 = (b, PodEv (UpdateEv (acquiredPod racePod ''t'') (Inr z))))"
  using pool_pod_exclusive [OF race_podStore raceHist_calls _ race_won, of 9]
  by (auto simp: raceStore_def raceHist_length acquiredPod_def keyOf_def)

end
