(* ===== verification/Cluster_Claims.thy ===== *)
theory Cluster_Claims
  imports Cluster Workload_Controller Trigger_Controller Trigger_Gateway Api_Claims
begin

text \<open>
  The statuses of claims in a shared history (Cluster).  The store of the API server is again constrained by its
  documentation only (\<open>claimStore\<close>; the status is a subresource of claims, so an update leaves it).  The status of a
  stored claim then moves along \<open>statusStep\<close>, whatever the interleaving and however stale the reads of the
  reconcilers; the callers of the API server and the other controllers write none.
\<close>

section \<open>What a pass over a claim writes\<close>

text \<open>A status write of the operator starts from a claim that the client read, version included.\<close>

definition statusWriteOk :: "event list \<Rightarrow> event \<Rightarrow> bool" where
  "statusWriteOk pre e \<longleftrightarrow> (\<forall>x. claimStatusWrite e = Some x \<longrightarrow>
     (\<exists>k c. ClaimEv (GetEv k (Inr c)) \<in> set pre \<and> claimMeta x = claimMeta c \<and>
        statusStep (claimStatus c) (claimStatus x)))"

lemma claimStatusWrite_simps [simp]:
  "claimStatusWrite (ClaimEv (StatusEv x r)) = Some x" "claimStatusWrite (ClaimEv (GetEv k g)) = None"
  "claimStatusWrite (ClaimEv (ListEv ns l cs)) = None" "claimStatusWrite (ClaimEv (CreateEv x r)) = None"
  "claimStatusWrite (ClaimEv (UpdateEv x r)) = None" "claimStatusWrite (ClaimEv (DeleteEv k d)) = None"
  by (simp_all add: claimStatusWrite_def)

lemma claimStatusWrite_notClaim: "notClaim e \<Longrightarrow> claimStatusWrite e = None"
  by (simp add: notClaim_def claimStatusWrite_def split: event.splits)

lemma statusWriteOk_none: "claimStatusWrite e = None \<Longrightarrow> statusWriteOk pre e"
  by (simp add: statusWriteOk_def)

lemma statusWriteOk_write:
  assumes "ClaimEv (GetEv k (Inr c)) \<in> set pre" and "claimWrite c e"
  shows "statusWriteOk pre e"
  unfolding statusWriteOk_def
proof (intro allI impI)
  fix x
  assume "claimStatusWrite e = Some x"
  then obtain r where "e = ClaimEv (StatusEv x r)"
    by (auto simp: claimStatusWrite_def split: event.splits kev.splits)
  with assms show "\<exists>k c. ClaimEv (GetEv k (Inr c)) \<in> set pre \<and> claimMeta x = claimMeta c \<and>
      statusStep (claimStatus c) (claimStatus x)"
    by (auto simp: claimWrite_def)
qed

context overlay_storage
begin

lemma ordered_claim_status:
  assumes "servesPods E" "crSnapshots R = Some S"
  shows "ordered statusWriteOk (reconcileClaim E R req)"
  unfolding reconcileClaim_def getObj_def
proof (rule ordered_call_bind)
  fix tr
  let ?body = "\<lambda>g. case g of
       Inl e \<Rightarrow> if isNotFound e then ret (Inr noResult) else ret (Inl e)
     | Inr claim \<Rightarrow>
         if isDeleting (claimMeta claim) then handleDeletion E R claim
         else if claimPhase (claimStatus claim) = ''Active'' then handleActive E R claim
         else if claimPhase (claimStatus claim) = ''Released'' then ret (Inr noResult)
         else if claimPhase (claimStatus claim) = ''ReleaseFailed'' then ret (Inr noResult)
         else handleNewClaim E R claim"
  let ?g = "k_get (claims E) tr req"
  show "\<exists>P. emits P (?body ?g) \<and> (\<forall>pre e. ClaimEv (GetEv req ?g) \<in> set pre \<longrightarrow> P e \<longrightarrow> statusWriteOk pre e)"
  proof (cases ?g)
    case (Inl e)
    have "emits notClaim (?body (Inl e))" unfolding sum.case by (intro emits_intros)
    then show ?thesis unfolding Inl by (blast intro: statusWriteOk_none claimStatusWrite_notClaim)
  next
    case (Inr c)
    have "emits (claimWrite c) (?body (Inr c))"
      unfolding sum.case by (rule emits_reconcile_body [OF assms])
    then show ?thesis unfolding Inr by (blast intro: statusWriteOk_write)
  qed
qed (simp add: statusWriteOk_none)

end

section \<open>Bystanders\<close>

lemma bystander_simps [simp]:
  "bystander (ClaimEv (GetEv k g))" "bystander (ClaimEv (ListEv ns l cs))" "bystander (ClaimEv (CreateEv x r))"
  "bystander (ClaimEv (UpdateEv x r))" "bystander (ClaimEv (DeleteEv k d))"
  "bystander (PodEv (GetEv k pg))" "bystander (PodEv (ListEv ns l ps))" "bystander (PodEv (CreateEv p pr))"
  "bystander (PodEv (StatusEv p pr))" "bystander (PodEv (DeleteEv k d))"
  "bystander (WorkloadEv we)" "bystander (PoolEv le)" "bystander (TriggerEv te)" "bystander (SecretEv se)"
  "bystander (ConfigMapEv me)" "bystander (TimeEv t)" "bystander (WaitEv i b)" "bystander (RandEv n rr)"
  "bystander (ExecEv as si er)" "bystander (CryptoEv c cr)"
  by (simp_all add: bystander_def podUpdate_def claimStatusWrite_def)

lemma emits_pool_notClaim:
  "emits notClaim (poolProxy E pool wl)" "emits notClaim (createPoolPods E pool wl proxy n w)"
  "emits notClaim (setPoolStatus E pool rc w ph d)" "emits notClaim (relabelPods E qs w r)"
  "emits notClaim (deletePoolPods E ns wn)"
proof -
  show "emits notClaim (poolProxy E pool wl)"
    by (auto simp: poolProxy_def intro!: emits_intros emits_mono [OF emits_BuildProxyConfig proxy_notClaim])
  show "emits notClaim (createPoolPods E pool wl proxy n w)"
    by (induction n arbitrary: w)
      (auto simp: createPoolPod_def createPoolConfigMap_def randomSuffix_def api_defs intro!: emits_intros)
  show "emits notClaim (setPoolStatus E pool rc w ph d)"
    by (auto simp: setPoolStatus_def statusObj_def notClaim_def intro!: emits_intros)
  show "emits notClaim (relabelPods E qs w r)"
    by (induction qs arbitrary: w r) (auto simp: updateObj_def intro!: emits_intros)
  show "emits notClaim (deletePoolPods E ns wn)"
    by (auto simp: deletePoolPods_def deletePodOrSkip_def api_defs intro!: emits_intros)
qed

lemma emits_poolPass_notClaim: "emits notClaim (reconcilePool E req)"
  unfolding reconcilePool_def managePool_def fillAndReport_def fillPool_def listPoolPods_def api_defs
  by (auto simp: Let_def notClaim_def intro!: emits_intros emits_pool_notClaim)

text \<open>The other controllers, the routes of claims and the gateway.\<close>

lemma emits_acquire_bystander: "emits bystander (acquireClaim E s t w resume)"
  by (auto simp: acquireClaim_def createFresh_def clearFinalizers_def api_defs waitTimer_def intro!: emits_intros)

lemma emits_polls_bystander:
  "emits bystander (waitForClaim E key n)" "emits bystander (waitForClaimDeleted E key n)"
  by (induction n) (auto simp: waitTimer_def getObj_def intro!: emits_intros)

lemma emits_gateway_bystander: "emits bystander (ensureClaim E g t w n)"
  by (auto simp: ensureClaim_def createAndWait_def getObj_def createObj_def deleteObj_def Let_def
      intro!: emits_intros emits_polls_bystander)

text \<open>So these are calls of a client in the sense of Cluster.\<close>

lemma clientCalls_bystander:
  "clientCalls evs \<Longrightarrow> emits bystander m \<Longrightarrow> clientCalls (evs @ appended m tr)"
  by (simp add: clientCalls.other emits_appended)

lemma emits_others_bystander:
  "emits bystander (reconcileWorkload E w req)" "emits bystander (reconcileTrigger E req)"
proof -
  have ex: "emits bystander (minikubeEnv E)" "emits bystander (deleteOwnedPods E ns n)" for ns n
    by (rule emits_mono [OF emits_minikubeEnv], auto simp: isExec_def split: event.splits)
      (auto simp: deleteOwnedPods_def deletePodOrSkip_def api_defs intro!: emits_intros)
  have st: "emits bystander (setWorkloadStatus E wl ph d res)" "emits bystander (buildAndReady E w wl)" for wl ph d res
    by (auto simp: setWorkloadStatus_def buildAndReady_def buildImage_def api_defs execCmd_def Let_def intro!: emits_intros ex)
  show "emits bystander (reconcileWorkload E w req)"
    unfolding reconcileWorkload_def api_defs by (auto intro!: emits_intros ex st)
  show "emits bystander (reconcileTrigger E req)"
    unfolding reconcileTrigger_def judgeTrigger_def setTriggerStatus_def api_defs
    by (auto simp: Let_def intro!: emits_intros)
qed

lemma clientCalls_status: "clientCalls evs \<Longrightarrow> guarded statusWriteOk [] evs"
proof (induction rule: clientCalls.induct)
  case (claim evs E R s n req tr)
  then show ?case
    by (simp add: guarded_take ordered_appended [OF manager.ordered_claim_status])
next
  case (pool evs n E req tr)
  have "ordered statusWriteOk (reconcilePool E req)"
    by (rule ordered_emits [OF emits_poolPass_notClaim]) (simp add: statusWriteOk_none claimStatusWrite_notClaim)
  with pool show ?case by (simp add: guarded_take ordered_appended)
next
  case (other evs es)
  then show ?case
    by (auto intro: guarded_list_all [where P = bystander] simp: statusWriteOk_none bystander_def)
qed simp

section \<open>The store of claims\<close>

text \<open>
  A status write is accepted with the stored version only, and stores the status it was given; a Get answers with
  a claim that is, or was, stored under its name; statuses change only by status writes, and a new claim has none.
\<close>

definition statusCurrent :: "history \<Rightarrow> BoilerhouseClaim store \<Rightarrow> bool" where
  "statusCurrent hist stored \<longleftrightarrow> (\<forall>i < length hist. \<forall>a x y. hist ! i = (a, ClaimEv (StatusEv x (Inr y))) \<longrightarrow>
     (\<exists>cur. stored i (keyOf (claimMeta x)) = Some cur \<and>
        ResourceVersion (claimMeta cur) = ResourceVersion (claimMeta x)) \<and>
     claimStatus y = claimStatus x)"

definition getsStored :: "history \<Rightarrow> BoilerhouseClaim store \<Rightarrow> bool" where
  "getsStored hist stored \<longleftrightarrow> (\<forall>i < length hist. \<forall>a k c. hist ! i = (a, ClaimEv (GetEv k (Inr c))) \<longrightarrow>
     keyOf (claimMeta c) = k \<and> (\<exists>j \<le> i. stored j k = Some c))"

definition statusByWrite :: "history \<Rightarrow> BoilerhouseClaim store \<Rightarrow> bool" where
  "statusByWrite hist stored \<longleftrightarrow> (\<forall>k. stored 0 k = None) \<and>
     (\<forall>i < length hist. \<forall>k c. stored (Suc i) k = Some c \<longrightarrow>
       (case stored i k of
          None \<Rightarrow> claimStatus c = emptyClaimStatus
        | Some b \<Rightarrow> claimStatus c = claimStatus b \<or>
            (\<exists>a x. hist ! i = (a, ClaimEv (StatusEv x (Inr c))) \<and> keyOf (claimMeta x) = k)))"

definition claimStore :: "history \<Rightarrow> BoilerhouseClaim store \<Rightarrow> bool" where
  "claimStore hist stored \<longleftrightarrow> statusCurrent hist stored \<and> getsStored hist stored \<and> versionsOnce claimMeta stored \<and>
     statusByWrite hist stored"

text \<open>An accepted status write starts from the claim that is stored.\<close>

lemma accepted_status:
  assumes store: "claimStore hist stored" and calls: "clientCalls (callsOf a hist)"
    and i: "i < length hist" "hist ! i = (a, ClaimEv (StatusEv x (Inr y)))"
    and cur: "stored i (keyOf (claimMeta x)) = Some cur"
  shows "statusStep (claimStatus cur) (claimStatus y)"
proof -
  have "statusWriteOk (callsOf a (take i hist)) (ClaimEv (StatusEv x (Inr y)))"
    by (rule callsOf_before [OF i clientCalls_status [OF calls]])
  then obtain k c where read: "ClaimEv (GetEv k (Inr c)) \<in> set (callsOf a (take i hist))"
      and c: "claimMeta x = claimMeta c" "statusStep (claimStatus c) (claimStatus x)"
    by (auto simp: statusWriteOk_def)
  from read obtain j where "j < i" "j < length hist" "hist ! j = (a, ClaimEv (GetEv k (Inr c)))"
    by (rule callsOf_index)
  with store obtain m where "keyOf (claimMeta c) = k" "stored m k = Some c"
    unfolding claimStore_def getsStored_def by blast
  moreover from store i have "(\<exists>b. stored i (keyOf (claimMeta x)) = Some b \<and>
      ResourceVersion (claimMeta b) = ResourceVersion (claimMeta x))" and y: "claimStatus y = claimStatus x"
    unfolding claimStore_def statusCurrent_def by blast+
  then have "ResourceVersion (claimMeta cur) = ResourceVersion (claimMeta x)" using cur by auto
  ultimately have "c = cur"
    using store cur c(1) unfolding claimStore_def versionsOnce_def by metis
  with c(2) y show ?thesis by simp
qed

lemma stored_status_step:
  assumes "claimStore hist stored" and "\<And>a. clientCalls (callsOf a hist)"
    and "i < length hist" and "stored (Suc i) k = Some c"
  shows "case stored i k of None \<Rightarrow> claimStatus c = emptyClaimStatus
    | Some b \<Rightarrow> claimStatus c = claimStatus b \<or> statusStep (claimStatus b) (claimStatus c)"
proof -
  from assms(1) have "statusByWrite hist stored" by (simp add: claimStore_def)
  with assms(3,4) have by_write: "case stored i k of None \<Rightarrow> claimStatus c = emptyClaimStatus
      | Some b \<Rightarrow> claimStatus c = claimStatus b \<or>
          (\<exists>a x. hist ! i = (a, ClaimEv (StatusEv x (Inr c))) \<and> keyOf (claimMeta x) = k)"
    unfolding statusByWrite_def by blast
  show ?thesis
  proof (cases "stored i k")
    case (Some b)
    from by_write consider "claimStatus c = claimStatus b"
      | a x where "hist ! i = (a, ClaimEv (StatusEv x (Inr c)))" "keyOf (claimMeta x) = k"
      unfolding Some option.case by blast
    then show ?thesis
    proof cases
      case 2
      with accepted_status [OF assms(1,2,3) 2(1)] Some show ?thesis by simp
    qed (simp add: Some)
  qed (use by_write in simp)
qed

lemma stored_claimInv:
  assumes "claimStore hist stored" and "\<And>a. clientCalls (callsOf a hist)"
  shows "i \<le> length hist \<Longrightarrow> stored i k = Some c \<Longrightarrow> claimInv (claimStatus c)"
proof (induction i arbitrary: c)
  case 0
  with assms(1) show ?case by (simp add: claimStore_def statusByWrite_def)
next
  case (Suc i)
  from stored_status_step [OF assms _ Suc.prems(2)] Suc.prems(1)
  have step: "case stored i k of None \<Rightarrow> claimStatus c = emptyClaimStatus
    | Some b \<Rightarrow> claimStatus c = claimStatus b \<or> statusStep (claimStatus b) (claimStatus c)" by simp
  show ?case
  proof (cases "stored i k")
    case (Some b)
    with Suc have "claimInv (claimStatus b)" by simp
    with step Some show ?thesis by (auto intro: claimInv_step)
  qed (use step in \<open>simp add: claimInv_initial\<close>)
qed

section \<open>Properties\<close>

text \<open>
  C6. However the passes of any number of operators interleave with each other and with the API server, the gateway
  and users, and however stale their reads, the status of every stored claim keeps the invariant
  of a claim, starts empty, and moves only along the steps of a pass; a Released or ReleaseFailed claim
  keeps its status as long as it is stored.
\<close>

theorem stored_claims:
  assumes "claimStore hist stored" and "\<And>a. clientCalls (callsOf a hist)"
    and "i < length hist" and "stored (Suc i) k = Some c"
  shows "claimInv (claimStatus c) \<and>
    (case stored i k of None \<Rightarrow> claimStatus c = emptyClaimStatus
     | Some b \<Rightarrow> (if claimPhase (claimStatus b) \<in> {''Released'', ''ReleaseFailed''} then claimStatus c = claimStatus b
         else claimStatus c = claimStatus b \<or> statusStep (claimStatus b) (claimStatus c)))"
  using stored_status_step [OF assms] stored_claimInv [OF assms(1,2) _ assms(4)] assms(3)
  by (auto simp: statusStep_def split: option.splits)

text \<open>
  A claim is created through the API; two operators read it as new, the status of the first is accepted, and that of the
  second is a conflict.
\<close>

definition pendedClaim :: BoilerhouseClaim where
  "pendedClaim = pendingClaim\<lparr>claimMeta := (claimMeta pendingClaim)\<lparr>ResourceVersion := ''2''\<rparr>\<rparr>"

definition passEnv :: "err + BoilerhouseClaim \<Rightarrow> env" where
  "passEnv answer = activatingEnv\<lparr>claims := offlineKind\<lparr>k_get := \<lambda>_ _. Inr demoClaim, k_status := \<lambda>_ _. answer\<rparr>\<rparr>"

definition passCalls :: "err + BoilerhouseClaim \<Rightarrow> event list" where
  "passCalls answer = appended (reconcileClaim (passEnv answer) (raceReconciler (passEnv answer)) (nsName ''ns'' ''claim-t-w'')) []"

lemma pass_serves: "servesPods (passEnv answer)"
  by (simp add: servesPods_def passEnv_def activatingEnv_def demoEnv_def offline_defs)

lemma passCalls:
  "passCalls answer = [ClaimEv (GetEv (nsName ''ns'' ''claim-t-w'') (Inr demoClaim)), ClaimEv (StatusEv pendingClaim answer)]"
  by (cases answer)
    (simp_all add: passCalls_def appended_def reconcileClaim_def handleNewClaim_def updateClaimStatus_def api_defs
      passEnv_def demo_defs ContainsFinalizer_def isDeleting_def objectMeta_def zeroMeta_def emptyClaimStatus_def pendingClaim_def)

definition claimsHist :: history where
  "claimsHist = (1, ClaimEv (CreateEv demoClaim (Inr demoClaim))) #
     concat (map (\<lambda>(e, f). [(0, e), (2, f)]) (zip (passCalls (Inr pendedClaim)) (passCalls (Inl offline))))"

definition claimsStore :: "BoilerhouseClaim store" where
  "claimsStore i k = (if k = nsName ''ns'' ''claim-t-w'' \<and> i \<noteq> 0
     then Some (if i \<le> 3 then demoClaim else pendedClaim) else None)"

lemma claimsHist_calls: "clientCalls (callsOf a claimsHist)"
proof -
  have "callsOf a claimsHist = (if a = 0 then passCalls (Inr pendedClaim) else if a = 2 then passCalls (Inl offline)
      else if a = 1 then [ClaimEv (CreateEv demoClaim (Inr demoClaim))] else [])"
    by (simp add: callsOf_def claimsHist_def passCalls)
  moreover have "clientCalls (passCalls answer)" for answer
  proof -
    have "clientCalls ([] @ take 2 (appended (reconcileClaim (passEnv answer) (raceReconciler (passEnv answer))
        (nsName ''ns'' ''claim-t-w'')) []))"
      by (rule clientCalls.claim [OF clientCalls.start pass_serves]) (simp add: raceReconciler_def)
    then show ?thesis using passCalls [of answer] by (simp add: passCalls_def)
  qed
  moreover have "clientCalls [ClaimEv (CreateEv demoClaim (Inr demoClaim))]"
    using clientCalls.other [OF clientCalls.start, of "[ClaimEv (CreateEv demoClaim (Inr demoClaim))]"] by simp
  ultimately show ?thesis by (simp add: clientCalls.start)
qed

lemma claimsHist_length: "length claimsHist = 5"
  by (simp add: claimsHist_def passCalls)

lemma claimsHist_nth:
  "i < length claimsHist \<Longrightarrow> claimsHist ! i = (a, ClaimEv (StatusEv x (Inr y))) \<Longrightarrow>
     i = 3 \<and> x = pendingClaim \<and> y = pendedClaim"
  "i < length claimsHist \<Longrightarrow> claimsHist ! i = (a, ClaimEv (GetEv k (Inr c))) \<Longrightarrow>
     i \<in> {1, 2} \<and> k = nsName ''ns'' ''claim-t-w'' \<and> c = demoClaim"
  "claimsHist ! 3 = (0, ClaimEv (StatusEv pendingClaim (Inr pendedClaim)))"
  by (auto simp: claimsHist_def passCalls nth_Cons' split: if_splits)

lemma claimsHist_store: "claimStore claimsHist claimsStore"
proof -
  have key: "keyOf (claimMeta pendingClaim) = nsName ''ns'' ''claim-t-w''" "keyOf (claimMeta demoClaim) = nsName ''ns'' ''claim-t-w''"
      "ResourceVersion (claimMeta pendingClaim) = []" "ResourceVersion (claimMeta demoClaim) = []"
      "ResourceVersion (claimMeta pendedClaim) = ''2''" "claimStatus pendedClaim = claimStatus pendingClaim"
      "claimStatus demoClaim = emptyClaimStatus"
    by (simp_all add: pendingClaim_def pendedClaim_def demoClaim_def keyOf_def objectMeta_def zeroMeta_def)
  have "(\<exists>cur. claimsStore i (keyOf (claimMeta x)) = Some cur \<and>
      ResourceVersion (claimMeta cur) = ResourceVersion (claimMeta x)) \<and> claimStatus y = claimStatus x"
    if "i < length claimsHist" "claimsHist ! i = (a, ClaimEv (StatusEv x (Inr y)))" for i a x y
    using claimsHist_nth(1) [OF that] by (simp add: claimsStore_def key)
  then have "statusCurrent claimsHist claimsStore" unfolding statusCurrent_def by blast
  moreover have "keyOf (claimMeta c) = k \<and> (\<exists>j \<le> i. claimsStore j k = Some c)"
    if "i < length claimsHist" "claimsHist ! i = (a, ClaimEv (GetEv k (Inr c)))" for i a k c
  proof -
    from claimsHist_nth(2) [OF that] have "1 \<le> i" "k = nsName ''ns'' ''claim-t-w''" "c = demoClaim" by auto
    moreover have "claimsStore 1 (nsName ''ns'' ''claim-t-w'') = Some demoClaim" by (simp add: claimsStore_def)
    ultimately show ?thesis using key(2) by blast
  qed
  then have "getsStored claimsHist claimsStore" unfolding getsStored_def by blast
  moreover have "versionsOnce claimMeta claimsStore"
    by (auto simp: versionsOnce_def claimsStore_def key split: if_splits)
  moreover have "case claimsStore i k of None \<Rightarrow> claimStatus c = emptyClaimStatus
      | Some b \<Rightarrow> claimStatus c = claimStatus b \<or>
          (\<exists>a x. claimsHist ! i = (a, ClaimEv (StatusEv x (Inr c))) \<and> keyOf (claimMeta x) = k)"
    if "claimsStore (Suc i) k = Some c" for i k c
  proof (cases "i = 3")
    case True
    with that show ?thesis by (simp add: claimsStore_def claimsHist_nth(3) key split: if_splits)
  next
    case False
    with that show ?thesis by (auto simp: claimsStore_def key split: if_splits)
  qed
  then have "statusByWrite claimsHist claimsStore" unfolding statusByWrite_def by (simp add: claimsStore_def)
  ultimately show ?thesis by (simp add: claimStore_def)
qed

theorem stored_claims_witness:
  "claimInv (claimStatus pendedClaim) \<and> statusStep (claimStatus demoClaim) (claimStatus pendedClaim)"
  using stored_claims [OF claimsHist_store claimsHist_calls, of 3 "nsName ''ns'' ''claim-t-w''" pendedClaim]
  by (simp add: claimsHist_length claimsStore_def) (simp add: demoClaim_def pendedClaim_def pendingClaim_def emptyClaimStatus_def)

end
