(* ===== verification/Api_Triggers.thy ===== *)
theory Api_Triggers
  imports Api_Claims
begin

text \<open>
  \<open>internal/api/routes_trigger.go\<close>: the only routes a scoped token reaches.  A caller without a
  context is the zero \<open>AuthContext\<close>, which is an admin (development mode).
\<close>

record triggerRequest =
  trName :: string
  trSpec :: BoilerhouseTriggerSpec

record triggerResponse =
  tpName :: string
  tpSpec :: BoilerhouseTriggerSpec
  tpStatus :: BoilerhouseTriggerStatus
  tpCreatedAt :: string

definition toTriggerResponse :: "env \<Rightarrow> BoilerhouseTrigger \<Rightarrow> triggerResponse" where
  "toTriggerResponse E t = \<lparr>tpName = Name (triggerMeta t), tpSpec = triggerSpec t,
     tpStatus = triggerStatus t, tpCreatedAt = format_rfc3339 E (CreationTimestamp (triggerMeta t))\<rparr>"

text \<open>\<open>ac, _ := AuthFromContext(...)\<close>\<close>

definition callerOf :: "AuthContext option \<Rightarrow> AuthContext" where
  "callerOf ctx = (case ctx of None \<Rightarrow> adminContext | Some ac \<Rightarrow> ac)"

definition ownTenant :: "TriggerTenant option \<Rightarrow> string \<Rightarrow> bool" where
  "ownTenant t tenant \<longleftrightarrow> (case t of None \<Rightarrow> False | Some t \<Rightarrow> Static t = tenant \<and> From t = [])"

definition triggerOwnsScope :: "BoilerhouseTrigger \<Rightarrow> string \<Rightarrow> string \<Rightarrow> bool" where
  "triggerOwnsScope t tenant workload \<longleftrightarrow>
     triggerWorkloadRef (triggerSpec t) = workload \<and> ownTenant (triggerTenant (triggerSpec t)) tenant"

text \<open>Why a scoped caller may not create a trigger, if so.\<close>

definition scopedRefusal :: "AuthContext \<Rightarrow> BoilerhouseTriggerSpec \<Rightarrow> string option" where
  "scopedRefusal ac spec =
     (if acKind ac \<noteq> AuthScoped then None
      else if triggerType spec \<noteq> ''cron'' then Some ''scoped tokens may only create cron triggers''
      else if triggerWorkloadRef spec \<noteq> acWorkload ac
      then Some ''trigger workloadRef must match the token's workload''
      else if \<not> ownTenant (triggerTenant spec) (acTenantID ac)
      then Some ''trigger tenant.static must match the token's tenant and tenant.from must be empty''
      else None)"

definition triggerLabels :: "BoilerhouseTriggerSpec \<Rightarrow> (string \<rightharpoonup> string)" where
  "triggerLabels spec =
     (let l = (case triggerTenant spec of
                 None \<Rightarrow> Map.empty
               | Some t \<Rightarrow> if Static t \<noteq> [] then [tokenLabelTenant \<mapsto> Static t] else Map.empty)
      in if triggerWorkloadRef spec \<noteq> [] then l(tokenLabelWorkload \<mapsto> triggerWorkloadRef spec) else l)"

definition newTrigger :: "Server \<Rightarrow> triggerRequest \<Rightarrow> BoilerhouseTrigger" where
  "newTrigger s req =
     \<lparr>triggerMeta = (objectMeta (trName req) (srvNamespace s))\<lparr>Labels := triggerLabels (trSpec req)\<rparr>,
      triggerSpec = trSpec req, triggerStatus = \<lparr>triggerPhase = [], triggerDetail = []\<rparr>\<rparr>"

definition createTrigger :: "env \<Rightarrow> Server \<Rightarrow> AuthContext option \<Rightarrow> err + triggerRequest
    \<Rightarrow> triggerResponse reply io" where
  "createTrigger E s ctx body =
     (case body of
        Inl e \<Rightarrow> ret (Failed 400 (''invalid JSON: '' @ err_msg e))
      | Inr req \<Rightarrow>
          if trName req = [] then ret (Failed 400 ''name is required'')
          else (case scopedRefusal (callerOf ctx) (trSpec req) of
                  Some m \<Rightarrow> ret (Failed 403 m)
                | None \<Rightarrow> do {
                    c \<leftarrow> createObj TriggerEv (triggers E) (newTrigger s req);
                    ret (case c of
                           Inl e \<Rightarrow> Failed 500 (''failed to create trigger: '' @ err_msg e)
                         | Inr t \<Rightarrow> Done 201 (toTriggerResponse E t))
                  }))"

definition listTriggers :: "env \<Rightarrow> Server \<Rightarrow> AuthContext option \<Rightarrow> triggerResponse list reply io" where
  "listTriggers E s ctx =
     (let ac = callerOf ctx;
          sel = (if acKind ac = AuthScoped
                 then [(tokenLabelTenant, acTenantID ac), (tokenLabelWorkload, acWorkload ac)] else [])
      in do {
        l \<leftarrow> listObj TriggerEv (triggers E) (srvNamespace s) sel;
        ret (case l of
               Inl e \<Rightarrow> Failed 500 (''failed to list triggers: '' @ err_msg e)
             | Inr ts \<Rightarrow> Done 200 (map (toTriggerResponse E) ts))
      })"

definition foreignTrigger :: "AuthContext \<Rightarrow> BoilerhouseTrigger \<Rightarrow> bool" where
  "foreignTrigger ac t \<longleftrightarrow> acKind ac = AuthScoped \<and> \<not> triggerOwnsScope t (acTenantID ac) (acWorkload ac)"

definition getTrigger :: "env \<Rightarrow> Server \<Rightarrow> AuthContext option \<Rightarrow> string \<Rightarrow> triggerResponse reply io" where
  "getTrigger E s ctx tid = do {
     g \<leftarrow> getObj TriggerEv (triggers E) (nsName (srvNamespace s) tid);
     ret (case g of
            Inl e \<Rightarrow> Failed 404 (''trigger not found: '' @ err_msg e)
          | Inr t \<Rightarrow> if foreignTrigger (callerOf ctx) t then Failed 404 ''trigger not found''
                     else Done 200 (toTriggerResponse E t))
   }"

definition removeTrigger :: "env \<Rightarrow> Server \<Rightarrow> string \<Rightarrow> string reply io" where
  "removeTrigger E s tid = do {
     d \<leftarrow> deleteObj TriggerEv (triggers E) (nsName (srvNamespace s) tid);
     ret (case d of
            Some e \<Rightarrow> Failed 404 (''trigger not found: '' @ err_msg e)
          | None \<Rightarrow> Done 200 ''deleted'')
   }"

definition deleteTrigger :: "env \<Rightarrow> Server \<Rightarrow> AuthContext option \<Rightarrow> string \<Rightarrow> string reply io" where
  "deleteTrigger E s ctx tid =
     (if acKind (callerOf ctx) \<noteq> AuthScoped then removeTrigger E s tid
      else do {
        g \<leftarrow> getObj TriggerEv (triggers E) (nsName (srvNamespace s) tid);
        case g of
          Inl e \<Rightarrow> ret (Failed 404 (''trigger not found: '' @ err_msg e))
        | Inr t \<Rightarrow>
            if foreignTrigger (callerOf ctx) t then ret (Failed 404 ''trigger not found'')
            else removeTrigger E s tid
      })"

section \<open>Scoped callers\<close>

text \<open>
  What a scoped caller may do: create a cron trigger of its own workload and tenant, and delete a
  trigger that a Get showed to be of its own workload and tenant.  A specification is the caller's own
  when it names the caller's workload and, statically, the caller's tenant; a prefix may stand in front.
\<close>

definition ownSpec :: "AuthContext \<Rightarrow> BoilerhouseTriggerSpec \<Rightarrow> bool" where
  "ownSpec ac spec \<longleftrightarrow> triggerWorkloadRef spec = acWorkload ac \<and>
     (\<exists>pfx. triggerTenant spec = Some \<lparr>Static = acTenantID ac, From = [], Prefix = pfx\<rparr>)"

definition scopedGuard :: "Server \<Rightarrow> AuthContext \<Rightarrow> event list \<Rightarrow> event \<Rightarrow> bool" where
  "scopedGuard s ac pre e = (case e of
      TriggerEv (CreateEv t r) \<Rightarrow> Namespace (triggerMeta t) = srvNamespace s \<and> Name (triggerMeta t) \<noteq> [] \<and>
        triggerType (triggerSpec t) = ''cron'' \<and> ownSpec ac (triggerSpec t)
    | TriggerEv (DeleteEv k r) \<Rightarrow> (\<exists>t. TriggerEv (GetEv k (Inr t)) \<in> set pre \<and> ownSpec ac (triggerSpec t))
    | TriggerEv (GetEv k r) \<Rightarrow> keyNamespace k = srvNamespace s
    | TriggerEv (ListEv ns sel r) \<Rightarrow> ns = srvNamespace s \<and>
        sel = [(''boilerhouse.dev/tenant'', acTenantID ac), (''boilerhouse.dev/workload'', acWorkload ac)]
    | _ \<Rightarrow> False)"

lemma ownTenant_iff: "ownTenant t tenant \<longleftrightarrow> (\<exists>pfx. t = Some \<lparr>Static = tenant, From = [], Prefix = pfx\<rparr>)"
proof (cases t)
  case (Some st)
  then show ?thesis by (cases st) (auto simp: ownTenant_def)
qed (simp add: ownTenant_def)

lemma triggerOwnsScope_iff: "triggerOwnsScope t (acTenantID ac) (acWorkload ac) \<longleftrightarrow> ownSpec ac (triggerSpec t)"
  by (simp add: triggerOwnsScope_def ownSpec_def ownTenant_iff)

lemma scopedRefusal_None:
  "acKind ac = AuthScoped \<Longrightarrow> scopedRefusal ac spec = None \<longleftrightarrow>
     triggerType spec = ''cron'' \<and> triggerWorkloadRef spec = acWorkload ac \<and>
     ownTenant (triggerTenant spec) (acTenantID ac)"
  by (simp add: scopedRefusal_def)

lemma scopedRefusal_own:
  "acKind ac = AuthScoped \<Longrightarrow> scopedRefusal ac spec = None \<longleftrightarrow> triggerType spec = ''cron'' \<and> ownSpec ac spec"
  by (simp add: scopedRefusal_None ownSpec_def ownTenant_iff)

lemma callerOf_Some [simp]: "callerOf (Some ac) = ac"
  by (simp add: callerOf_def)

section \<open>Properties\<close>

text \<open>
  With a scoped token every trigger handler stays in the token's tenant and workload: it creates only
  cron triggers of that workload with that static tenant and no dynamic one, lists only by those labels,
  and deletes only a trigger that a Get of the same name returned and that belongs to them.
\<close>

theorem scoped_trigger_access:
  assumes "acKind ac = AuthScoped"
  shows "guarded (scopedGuard s ac) [] (appended (createTrigger E s (Some ac) body) tr) \<and>
    guarded (scopedGuard s ac) [] (appended (deleteTrigger E s (Some ac) tid) tr) \<and>
    guarded (scopedGuard s ac) [] (appended (listTriggers E s (Some ac)) tr)"
proof (intro conjI; rule guarded_appendedI)
  show "wp (createTrigger E s (Some ac) body) (\<lambda>_ tr'. guarded (scopedGuard s ac) [] (drop (length tr) tr')) tr"
    using scopedRefusal_own [OF assms]
    by (auto simp: createTrigger_def createObj_def wp_simps newTrigger_def scopedGuard_def
        split: sum.split option.split)
  show "wp (deleteTrigger E s (Some ac) tid) (\<lambda>_ tr'. guarded (scopedGuard s ac) [] (drop (length tr) tr')) tr"
    using assms
    by (auto simp: deleteTrigger_def removeTrigger_def api_defs wp_simps foreignTrigger_def scopedGuard_def
          triggerOwnsScope_iff
        split: sum.split)
  show "wp (listTriggers E s (Some ac)) (\<lambda>_ tr'. guarded (scopedGuard s ac) [] (drop (length tr) tr')) tr"
    using assms by (simp add: listTriggers_def listObj_def wp_simps Let_def scopedGuard_def
        tokenLabelTenant_def tokenLabelWorkload_def)
qed

theorem scoped_trigger_access_witness:
  "guarded (scopedGuard demoServer demoCaller) []
     (appended (deleteTrigger offlineEnv demoServer (Some demoCaller) ''x'') [])"
  using scoped_trigger_access [of demoCaller] by (simp add: demoCaller_def)

text \<open>
  What a scoped caller is shown of a trigger is one of its own workload and tenant; every other
  trigger is answered as not found.
\<close>

theorem scoped_trigger_read:
  assumes "acKind ac = AuthScoped" and "result (getTrigger E s (Some ac) tid) tr = Done code resp"
  shows "code = 200 \<and> tpSpec resp = triggerSpec (projr (k_get (triggers E) tr (nsName (srvNamespace s) tid))) \<and>
    triggerWorkloadRef (tpSpec resp) = acWorkload ac \<and> ownTenant (triggerTenant (tpSpec resp)) (acTenantID ac)"
  using assms
  by (auto simp: getTrigger_def getObj_def result_def foreignTrigger_def triggerOwnsScope_def
      toTriggerResponse_def split: sum.splits if_splits)

definition demoTrigger :: BoilerhouseTrigger where
  "demoTrigger = \<lparr>triggerMeta = objectMeta ''x'' ''ns'',
     triggerSpec = \<lparr>triggerType = ''cron'', triggerWorkloadRef = ''w'',
       triggerTenant = Some \<lparr>Static = ''t'', From = [], Prefix = []\<rparr>, triggerDriver = [],
       DriverOptions = None, Guards = [], triggerConfig = None\<rparr>,
     triggerStatus = \<lparr>triggerPhase = [], triggerDetail = []\<rparr>\<rparr>"

definition triggerEnv :: env where
  "triggerEnv = offlineEnv\<lparr>triggers := offlineKind\<lparr>k_get := \<lambda>_ _. Inr demoTrigger\<rparr>\<rparr>"

theorem scoped_trigger_read_witness:
  "tpSpec (toTriggerResponse triggerEnv demoTrigger) = triggerSpec demoTrigger \<and>
   ownTenant (triggerTenant (tpSpec (toTriggerResponse triggerEnv demoTrigger))) ''t''"
proof -
  have "result (getTrigger triggerEnv demoServer (Some demoCaller) ''x'') [] =
      Done 200 (toTriggerResponse triggerEnv demoTrigger)"
    by (simp add: getTrigger_def getObj_def result_def triggerEnv_def demoTrigger_def foreignTrigger_def
        demoCaller_def triggerOwnsScope_def ownTenant_def)
  from scoped_trigger_read [OF _ this] show ?thesis
    by (simp add: demoCaller_def triggerEnv_def toTriggerResponse_def)
qed

end
