(* ===== verification/Api_Server.thy ===== *)
theory Api_Server
  imports Api_Triggers
begin

text \<open>
  \<open>internal/api/server.go\<close> and the start of \<open>token_store.go\<close>: the server's configuration from the environment of its process,
  and a request on its way through the middlewares, in the order of \<open>buildRouter\<close>: the security
  headers, CORS, authentication, the scope of the route, the handler.  The router finds the route; the
  handlers are those of the other theories, the trigger handlers are put in here.
\<close>

section \<open>Configuration\<close>

text \<open>\<open>os.Getenv\<close>: the empty string for a variable that is not set.\<close>

type_synonym getenv = "string \<Rightarrow> string"

definition corsOriginsOf :: "string \<Rightarrow> string list" where
  "corsOriginsOf v = (if v = [] then [] else filter (\<lambda>o'. o' \<noteq> []) (map TrimSpace (Split v (CHR '',''))))"

definition NewServer :: "getenv \<Rightarrow> string \<Rightarrow> Server" where
  "NewServer getenv namespace = \<lparr>srvNamespace = namespace, apiKey = getenv ''BOILERHOUSE_API_KEY'',
     corsOrigins = corsOriginsOf (getenv ''CORS_ORIGIN'')\<rparr>"

text \<open>
  A new token store has no entries; \<open>Start\<close> fails when the informer is not there, takes no handlers, or does not
  sync before the context ends.
\<close>

definition NewTokenStore :: "err option \<Rightarrow> err option \<Rightarrow> string \<Rightarrow> err + TokenStore" where
  "NewTokenStore cacheErr clientErr namespace =
     (case cacheErr of
        Some e \<Rightarrow> Inl (wrapf ''creating cache'' e)
      | None \<Rightarrow> (case clientErr of
          Some e \<Rightarrow> Inl (wrapf ''creating cached client'' e)
        | None \<Rightarrow> Inr \<lparr>tsNamespace = namespace, tsEntries = Map.empty\<rparr>))"

definition startTokenStore :: "err option \<Rightarrow> err option \<Rightarrow> bool \<Rightarrow> err option" where
  "startTokenStore informerErr handlerErr synced =
     (case informerErr of
        Some e \<Rightarrow> Some (wrapf ''getting informer'' e)
      | None \<Rightarrow> (case handlerErr of
          Some e \<Rightarrow> Some (wrapf ''adding event handler'' e)
        | None \<Rightarrow> if synced then None else Some (errorf ''token cache failed to sync'')))"

section \<open>Requests and responses\<close>

text \<open>What the middlewares read of a request.\<close>

record httpHead =
  hdMethod :: string
  hdOrigin :: string
  hdAuthorization :: string

record 'a response =
  respStatus :: int
  respHeaders :: "(string \<times> string) list"
  respBody :: "'a reply option"

definition securityHeaders :: "(string \<times> string) list" where
  "securityHeaders = [(''X-Content-Type-Options'', ''nosniff''), (''X-Frame-Options'', ''DENY'')]"

definition corsHeaders :: "Server \<Rightarrow> string \<Rightarrow> (string \<times> string) list" where
  "corsHeaders s origin =
     (case corsHeader s origin of
        None \<Rightarrow> []
      | Some o' \<Rightarrow> [(''Access-Control-Allow-Origin'', o'), (''Access-Control-Allow-Credentials'', ''true''),
          (''Access-Control-Allow-Methods'', ''GET, POST, PUT, DELETE, OPTIONS''),
          (''Access-Control-Allow-Headers'', ''Content-Type, Authorization''), (''Vary'', ''Origin'')])"

definition replyStatus :: "'a reply \<Rightarrow> int" where
  "replyStatus r = (case r of Failed c m \<Rightarrow> c | Done c a \<Rightarrow> c)"

definition serveVerdict :: "Server \<Rightarrow> httpHead \<Rightarrow> (AuthContext option \<Rightarrow> 'a reply io) \<Rightarrow> verdict \<times> TokenStore option
    \<Rightarrow> ('a response \<times> TokenStore option) io" where
  "serveVerdict s req handler v =
     (let headers = securityHeaders @ corsHeaders s (hdOrigin req)
      in case v of
           (Reject c m, ts) \<Rightarrow> ret (\<lparr>respStatus = c, respHeaders = headers, respBody = Some (Failed c m)\<rparr>, ts)
         | (Pass ctx, ts) \<Rightarrow> do {
             r \<leftarrow> handler ctx;
             ret (\<lparr>respStatus = replyStatus r, respHeaders = headers, respBody = Some r\<rparr>, ts)
           })"

definition serveRoute :: "env \<Rightarrow> Server \<Rightarrow> TokenStore option \<Rightarrow> protection \<Rightarrow> httpHead
    \<Rightarrow> (AuthContext option \<Rightarrow> 'a reply io) \<Rightarrow> ('a response \<times> TokenStore option) io" where
  "serveRoute E s tokens p req handler =
     (if corsAnswers s (hdMethod req)
      then ret (\<lparr>respStatus = 204, respHeaders = securityHeaders @ corsHeaders s (hdOrigin req), respBody = None\<rparr>, tokens)
      else do {
        v \<leftarrow> admitRoute E s tokens p (hdAuthorization req);
        serveVerdict s req handler v
      })"

section \<open>The trigger routes\<close>

datatype triggerCall = ListTriggers | GetTrigger string | CreateTrigger "err + triggerRequest" | DeleteTrigger string

datatype triggerAnswer = Triggers "triggerResponse list" | OneTrigger triggerResponse | TriggerDeleted

fun mapReply :: "('a \<Rightarrow> 'b) \<Rightarrow> 'a reply \<Rightarrow> 'b reply" where
  "mapReply f (Failed c m) = Failed c m"
| "mapReply f (Done c a) = Done c (f a)"

fun triggerRoute :: "triggerCall \<Rightarrow> protection" where
  "triggerRoute ListTriggers = Scoped AgentTriggersRead"
| "triggerRoute (GetTrigger tid) = Scoped AgentTriggersRead"
| "triggerRoute (CreateTrigger body) = Scoped AgentTriggersWrite"
| "triggerRoute (DeleteTrigger tid) = Scoped AgentTriggersWrite"

fun triggerHandler :: "env \<Rightarrow> Server \<Rightarrow> triggerCall \<Rightarrow> AuthContext option \<Rightarrow> triggerAnswer reply io" where
  "triggerHandler E s ListTriggers ctx = do { r \<leftarrow> listTriggers E s ctx; ret (mapReply Triggers r) }"
| "triggerHandler E s (GetTrigger tid) ctx = do { r \<leftarrow> getTrigger E s ctx tid; ret (mapReply OneTrigger r) }"
| "triggerHandler E s (CreateTrigger body) ctx = do { r \<leftarrow> createTrigger E s ctx body; ret (mapReply OneTrigger r) }"
| "triggerHandler E s (DeleteTrigger tid) ctx = do { r \<leftarrow> deleteTrigger E s ctx tid; ret (mapReply (\<lambda>_. TriggerDeleted) r) }"

definition serveTrigger :: "env \<Rightarrow> Server \<Rightarrow> TokenStore option \<Rightarrow> httpHead \<Rightarrow> triggerCall
    \<Rightarrow> (triggerAnswer response \<times> TokenStore option) io" where
  "serveTrigger E s tokens req c = serveRoute E s tokens (triggerRoute c) req (triggerHandler E s c)"

section \<open>Lemmas\<close>

lemma triggerRoute_scoped: "\<exists>sc. triggerRoute c = Scoped sc"
  by (cases c) simp_all

text \<open>What a scoped caller's request may do: the clock, for the expiry of its token, and its own triggers.\<close>

definition agentGuard :: "Server \<Rightarrow> AuthContext \<Rightarrow> event list \<Rightarrow> event \<Rightarrow> bool" where
  "agentGuard s ac pre e = (case e of TimeEv t \<Rightarrow> True | _ \<Rightarrow> scopedGuard s ac pre e)"

lemma agentGuard_simps [simp]:
  "agentGuard s ac pre (TimeEv t)" "agentGuard s ac pre (TriggerEv te) \<longleftrightarrow> scopedGuard s ac pre (TriggerEv te)"
  by (simp_all add: agentGuard_def)

lemma ordered_createTrigger:
  assumes "acKind ac = AuthScoped"
  shows "ordered (agentGuard s ac) (createTrigger E s (Some ac) body)"
  unfolding createTrigger_def
  by (intro ordered_intros ordered_emits [where P = "\<lambda>e. \<exists>t r. e = TriggerEv (CreateEv t r) \<and> scopedGuard s ac [] e"])
    (auto simp: createObj_def scopedRefusal_own [OF assms] newTrigger_def scopedGuard_def
      split: sum.split option.split intro!: ordered_intros emits_intros)

lemma ordered_deleteTrigger:
  assumes "acKind ac = AuthScoped"
  shows "ordered (agentGuard s ac) (deleteTrigger E s (Some ac) tid)"
proof -
  let ?k = "nsName (srvNamespace s) tid"
  let ?P = "\<lambda>g e. (\<exists>d. e = TriggerEv (DeleteEv ?k d)) \<and>
    (\<exists>t. g = Inr t \<and> ownSpec ac (triggerSpec t))"
  have "emits (?P g) (case g of
          Inl e \<Rightarrow> ret (Failed 404 (''trigger not found: '' @ err_msg e))
        | Inr t \<Rightarrow>
            if foreignTrigger (callerOf (Some ac)) t then ret (Failed 404 ''trigger not found'')
            else removeTrigger E s tid)" for g
    using assms
    by (auto simp: removeTrigger_def deleteObj_def foreignTrigger_def triggerOwnsScope_iff intro!: emits_intros)
  moreover have "agentGuard s ac pre e" if "TriggerEv (GetEv ?k g) \<in> set pre" "?P g e" for pre e g
    using that by (auto simp: scopedGuard_def)
  ultimately have "\<And>tr. \<exists>P. emits P (case k_get (triggers E) tr ?k of
          Inl e \<Rightarrow> ret (Failed 404 (''trigger not found: '' @ err_msg e))
        | Inr t \<Rightarrow>
            if foreignTrigger (callerOf (Some ac)) t then ret (Failed 404 ''trigger not found'')
            else removeTrigger E s tid) \<and>
      (\<forall>pre e. TriggerEv (GetEv ?k (k_get (triggers E) tr ?k)) \<in> set pre \<longrightarrow> P e \<longrightarrow> agentGuard s ac pre e)"
    by blast
  then show ?thesis
    using assms unfolding deleteTrigger_def getObj_def
    by (simp only: callerOf_Some not_True_eq_False if_False simp_thms)
      (rule ordered_call_bind, blast, simp add: scopedGuard_def)
qed

lemma ordered_triggerHandler:
  assumes "acKind ac = AuthScoped"
  shows "ordered (agentGuard s ac) (triggerHandler E s c (Some ac))"
proof -
  have list: "ordered (agentGuard s ac) (listTriggers E s (Some ac))"
    unfolding listTriggers_def Let_def
    by (intro ordered_intros ordered_emits [where P = "agentGuard s ac []"])
      (auto simp: listObj_def assms scopedGuard_def agentGuard_def tokenLabelTenant_def tokenLabelWorkload_def
        intro!: emits_intros split: event.splits kev.splits)
  have get: "ordered (agentGuard s ac) (getTrigger E s (Some ac) tid)" for tid
    unfolding getTrigger_def getObj_def
    by (intro ordered_intros ordered_emits [where P = "\<lambda>e. \<exists>r. e = TriggerEv (GetEv (nsName (srvNamespace s) tid) r)"])
      (auto simp: scopedGuard_def intro!: emits_intros)
  show ?thesis
    by (cases c) (auto intro!: ordered_intros list get ordered_createTrigger [OF assms] ordered_deleteTrigger [OF assms])
qed

text \<open>
  What the caller is told.  A trigger it asks for by name is one that the API server returned under that name and that
  is its own; a list is the one the API server returned for its labels; the answer to a creation is the object that was
  created from its request; and a deletion is confirmed only when the API server confirmed it.
\<close>

definition tells :: "triggerResponse \<Rightarrow> BoilerhouseTrigger \<Rightarrow> bool" where
  "tells p t \<longleftrightarrow> tpName p = Name (triggerMeta t) \<and> tpSpec p = triggerSpec t \<and> tpStatus p = triggerStatus t"

fun agentSees :: "Server \<Rightarrow> AuthContext \<Rightarrow> event list \<Rightarrow> triggerCall \<Rightarrow> triggerAnswer \<Rightarrow> bool" where
  "agentSees s ac evs (GetTrigger tid) (OneTrigger p) \<longleftrightarrow>
     (\<exists>t. TriggerEv (GetEv (nsName (srvNamespace s) tid) (Inr t)) \<in> set evs \<and> ownSpec ac (triggerSpec t) \<and> tells p t)"
| "agentSees s ac evs ListTriggers (Triggers ps) \<longleftrightarrow>
     (\<exists>ts. TriggerEv (ListEv (srvNamespace s) [(''boilerhouse.dev/tenant'', acTenantID ac),
        (''boilerhouse.dev/workload'', acWorkload ac)] (Inr ts)) \<in> set evs \<and> list_all2 tells ps ts)"
| "agentSees s ac evs (CreateTrigger body) (OneTrigger p) \<longleftrightarrow>
     (\<exists>req sent t. body = Inr req \<and> triggerSpec sent = trSpec req \<and> ownSpec ac (trSpec req) \<and>
        TriggerEv (CreateEv sent (Inr t)) \<in> set evs \<and> tells p t)"
| "agentSees s ac evs (DeleteTrigger tid) TriggerDeleted \<longleftrightarrow>
     TriggerEv (DeleteEv (nsName (srvNamespace s) tid) None) \<in> set evs"
| "agentSees s ac evs c answer \<longleftrightarrow> False"

fun agentReply :: "Server \<Rightarrow> AuthContext \<Rightarrow> event list \<Rightarrow> triggerCall \<Rightarrow> triggerAnswer reply \<Rightarrow> bool" where
  "agentReply s ac evs c (Failed code m) \<longleftrightarrow> True"
| "agentReply s ac evs c (Done code answer) \<longleftrightarrow> agentSees s ac evs c answer"

lemma tells_toTriggerResponse [simp]: "tells (toTriggerResponse E t) t"
  by (simp add: tells_def toTriggerResponse_def)

lemma agentSees_later: "agentSees s ac evs c answer \<Longrightarrow> agentSees s ac (evs' @ evs) c answer"
  by (cases "(s, ac, evs, c, answer)" rule: agentSees.cases) (auto 0 4)

lemma agentReply_later: "agentReply s ac evs c r \<Longrightarrow> agentReply s ac (evs' @ evs) c r"
  by (cases r) (auto intro: agentSees_later)

lemma wp_triggerHandler:
  assumes "acKind ac = AuthScoped"
  shows "wp (triggerHandler E s c (Some ac)) (\<lambda>r tr'. \<exists>evs. tr' = tr @ evs \<and> agentReply s ac evs c r) tr"
proof (cases c)
  case ListTriggers
  with assms show ?thesis
    by (auto simp: listTriggers_def listObj_def Let_def wp_simps tokenLabelTenant_def tokenLabelWorkload_def list_all2_map1
        list.rel_refl split: sum.split)
next
  case (GetTrigger tid)
  with assms show ?thesis
    by (auto simp: getTrigger_def getObj_def wp_simps foreignTrigger_def triggerOwnsScope_iff split: sum.split)
next
  case (CreateTrigger body)
  with assms show ?thesis
    by (auto simp: createTrigger_def createObj_def wp_simps scopedRefusal_own newTrigger_def split: sum.split option.split)
next
  case (DeleteTrigger tid)
  with assms show ?thesis
    by (auto simp: deleteTrigger_def removeTrigger_def getObj_def deleteObj_def wp_simps split: sum.split option.split)
qed

text \<open>A token that the index holds: what authentication makes of it.\<close>

lemma wp_admit_indexed:
  assumes "findEntry E ts token = Some e" "acKind (teContext e) = AuthScoped"
    and "apiKey s \<noteq> []" "token \<noteq> []" "token \<noteq> apiKey s" "p \<noteq> Open"
  shows "wp (admitRoute E s (Some ts) p (''Bearer '' @ token)) (\<lambda>(v, ts') tr'. ts' = Some ts \<and>
     (\<exists>evs. tr' = tr @ evs \<and> list_all (\<lambda>e. \<exists>t. e = TimeEv t) evs) \<and>
     (case v of Reject c m \<Rightarrow> c = 401 \<or> c = 403
      | Pass ctx \<Rightarrow> ctx = Some (teContext e) \<and> (\<exists>sc. p = Scoped sc \<and> sc \<in> set (acScopes (teContext e))))) tr"
  using assms
  by (auto simp: admitRoute_def authMiddleware_def Lookup_def findEntry_def tokenExpired_def timeNow_def wp_simps
      trim_bearer requireAdmin_def requireScope_def HasScope_def Let_def split: protection.splits)

lemma wp_admit_indexedI:
  assumes "findEntry E ts token = Some e" "acKind (teContext e) = AuthScoped"
    and "apiKey s \<noteq> []" "token \<noteq> []" "token \<noteq> apiKey s" "p \<noteq> Open"
    and "\<And>evs c m. list_all (\<lambda>e. \<exists>t. e = TimeEv t) evs \<Longrightarrow> c = 401 \<or> c = 403 \<Longrightarrow> Q (Reject c m, Some ts) (tr @ evs)"
    and "\<And>evs sc. list_all (\<lambda>e. \<exists>t. e = TimeEv t) evs \<Longrightarrow> p = Scoped sc \<Longrightarrow> sc \<in> set (acScopes (teContext e)) \<Longrightarrow>
      Q (Pass (Some (teContext e)), Some ts) (tr @ evs)"
  shows "wp (admitRoute E s (Some ts) p (''Bearer '' @ token)) Q tr"
  by (rule wp_mono [OF wp_admit_indexed [OF assms(1-6)]]) (auto intro: assms(7,8) split: verdict.splits)

text \<open>So a request with it runs its handler for that caller, or none.\<close>

lemma ordered_wpI:
  assumes "ordered G m" and "\<And>r evs. (\<And>pre. guarded G pre evs) \<Longrightarrow> Q r (tr @ evs)"
  shows "wp m Q tr"
  using assms unfolding ordered_def wp_def by (metis case_prod_beta)

lemma wp_serve_indexed:
  assumes "findEntry E ts token = Some e" "acKind (teContext e) = AuthScoped"
    and "apiKey s \<noteq> []" "token \<noteq> []" "token \<noteq> apiKey s" "p \<noteq> Open" "hdAuthorization req = ''Bearer '' @ token"
    and handler: "\<And>sc. p = Scoped sc \<Longrightarrow> ordered (agentGuard s (teContext e)) (handler (Some (teContext e)))"
  shows "wp (serveRoute E s (Some ts) p req handler) (\<lambda>r tr'. \<exists>evs. tr' = tr @ evs \<and>
     guarded (agentGuard s (teContext e)) [] evs \<and>
     ((\<exists>sc. p = Scoped sc \<and> sc \<in> set (acScopes (teContext e))) \<or>
      respStatus (fst r) \<in> {204, 401, 403} \<and> list_all (\<lambda>e. \<exists>t. e = TimeEv t) evs)) tr"
proof (cases "corsAnswers s (hdMethod req)")
  case True
  then show ?thesis by (simp add: serveRoute_def wp_ret)
next
  case False
  let ?ac = "teContext e"
  let ?Q = "\<lambda>r tr'. \<exists>evs. tr' = tr @ evs \<and> guarded (agentGuard s ?ac) [] evs \<and>
     ((\<exists>sc. p = Scoped sc \<and> sc \<in> set (acScopes ?ac)) \<or>
      respStatus (fst r) \<in> {204, 401, 403} \<and> list_all (\<lambda>e. \<exists>t. e = TimeEv t) evs)"
  show ?thesis
    unfolding serveRoute_def if_not_P [OF False] wp_bind assms(7)
  proof (rule wp_admit_indexedI [OF assms(1-6)])
    fix evs c m
    assume evs: "list_all (\<lambda>e. \<exists>t. e = TimeEv t) evs" and "c = 401 \<or> c = (403 :: int)"
    moreover have "guarded (agentGuard s ?ac) [] evs" by (rule guarded_list_all [OF evs]) auto
    ultimately show "wp (serveVerdict s req handler (Reject c m, Some ts)) ?Q (tr @ evs)"
      by (auto simp: serveVerdict_def wp_ret)
  next
    fix evs sc
    assume evs: "list_all (\<lambda>e. \<exists>t. e = TimeEv t) evs" and sc: "p = Scoped sc" "sc \<in> set (acScopes ?ac)"
    have "guarded (agentGuard s ?ac) [] evs" by (rule guarded_list_all [OF evs]) auto
    then show "wp (serveVerdict s req handler (Pass (Some ?ac), Some ts)) ?Q (tr @ evs)"
      unfolding serveVerdict_def Let_def prod.case verdict.case wp_bind
      by (intro ordered_wpI [OF handler [OF sc(1)]]) (use sc in \<open>auto simp: wp_ret\<close>)
  qed
qed

text \<open>What holds of its handler's replies holds of what is answered.\<close>

lemma wp_serve_reply:
  assumes "findEntry E ts token = Some e" "acKind (teContext e) = AuthScoped"
    and "apiKey s \<noteq> []" "token \<noteq> []" "token \<noteq> apiKey s" "p \<noteq> Open" "hdAuthorization req = ''Bearer '' @ token"
    and failed: "\<And>c m evs. P (Failed c m) evs" and later: "\<And>r evs evs'. P r evs \<Longrightarrow> P r (evs' @ evs)"
    and handler: "\<And>tr. wp (handler (Some (teContext e))) (\<lambda>r tr'. \<exists>evs. tr' = tr @ evs \<and> P r evs) tr"
  shows "wp (serveRoute E s (Some ts) p req handler) (\<lambda>r tr'. \<exists>evs. tr' = tr @ evs \<and>
     pred_option (\<lambda>b. P b evs) (respBody (fst r))) tr"
proof (cases "corsAnswers s (hdMethod req)")
  case True
  then show ?thesis by (simp add: serveRoute_def wp_ret)
next
  case False
  let ?Q = "\<lambda>r tr'. \<exists>evs. tr' = tr @ evs \<and> pred_option (\<lambda>b. P b evs) (respBody (fst r))"
  show ?thesis
    unfolding serveRoute_def if_not_P [OF False] wp_bind assms(7)
  proof (rule wp_admit_indexedI [OF assms(1-6)])
    fix evs c m
    show "wp (serveVerdict s req handler (Reject c m, Some ts)) ?Q (tr @ evs)"
      by (simp add: serveVerdict_def wp_ret failed)
  next
    fix evs sc
    show "wp (serveVerdict s req handler (Pass (Some (teContext e)), Some ts)) ?Q (tr @ evs)"
      unfolding serveVerdict_def Let_def prod.case verdict.case wp_bind
      by (rule wp_mono [OF handler]) (auto simp: wp_ret later)
  qed
qed

end
