(* ===== verification/Entry_Points.thy ===== *)
theory Entry_Points
  imports Api_Server Claim_Controller Workload_Controller Trigger_Sync
begin

text \<open>
  \<open>cmd/api\<close>, \<open>cmd/operator\<close> and \<open>cmd/trigger\<close>: what each process takes from its environment, the order in
  which it builds its parts, and the step at which it gives up.  The libraries' answers (configuration, client,
  manager, controllers, listener) are arguments; \<open>Exits\<close> is the message logged before \<open>os.Exit(1)\<close>.
\<close>

datatype 'c startup = Exits string | Runs 'c

text \<open>The steps of a start, each with the message for its failure.\<close>

fun firstFailure :: "(err option \<times> string) list \<Rightarrow> string option" where
  "firstFailure [] = None"
| "firstFailure ((Some e, m) # steps) = Some m"
| "firstFailure ((None, m) # steps) = firstFailure steps"

definition starting :: "(err option \<times> string) list \<Rightarrow> 'c \<Rightarrow> 'c startup" where
  "starting steps c = (case firstFailure steps of Some m \<Rightarrow> Exits m | None \<Rightarrow> Runs c)"

definition envOr :: "getenv \<Rightarrow> string \<Rightarrow> string \<Rightarrow> string" where
  "envOr getenv name fallback = (if getenv name = [] then fallback else getenv name)"

definition namespaceOf :: "getenv \<Rightarrow> string" where
  "namespaceOf getenv = envOr getenv ''K8S_NAMESPACE'' ''boilerhouse''"

section \<open>The API server\<close>

record apiLibraries =
  apiKubeconfig :: "err option"
  apiClient :: "err option"
  apiCache :: "err option"
  apiCachedClient :: "err option"
  apiInformer :: "err option"
  apiHandlers :: "err option"
  apiSynced :: bool

record apiProcess =
  apiServer :: Server
  apiTokens :: TokenStore
  apiAddr :: string

definition apiMain :: "getenv \<Rightarrow> apiLibraries \<Rightarrow> apiProcess startup" where
  "apiMain getenv L =
     (let namespace = namespaceOf getenv;
          tokens = NewTokenStore (apiCache L) (apiCachedClient L) namespace
      in starting
           [(apiKubeconfig L, ''failed to get kubeconfig''),
            (apiClient L, ''failed to create k8s client''),
            (case tokens of Inl e \<Rightarrow> Some e | Inr ts \<Rightarrow> None, ''failed to create token store''),
            (startTokenStore (apiInformer L) (apiHandlers L) (apiSynced L), ''failed to start token store'')]
           \<lparr>apiServer = NewServer getenv namespace, apiTokens = projr tokens,
            apiAddr = envOr getenv ''LISTEN_HOST'' ''127.0.0.1'' @ '':'' @ envOr getenv ''PORT'' ''3000''\<rparr>)"

section \<open>The operator\<close>

record managerOptions =
  leaderElection :: bool
  leaderElectionID :: string
  leaderElectionNamespace :: string
  healthProbeBindAddress :: string
  metricsBindAddress :: string

record operatorProcess =
  opManager :: managerOptions
  opWorkloads :: WorkloadReconciler
  opClaims :: ClaimReconciler

definition portAddr :: "getenv \<Rightarrow> string \<Rightarrow> string \<Rightarrow> string" where
  "portAddr getenv name fallback = (if getenv name = [] then fallback else '':'' @ getenv name)"

text \<open>
  \<open>results\<close>: what the manager, its four controllers, the two checks and \<open>Start\<close> return.  The reconciler of claims gets a
  snapshot manager, and no URL of the API: the operator's \<open>main\<close> sets none.
\<close>

definition operatorMain :: "env \<Rightarrow> getenv \<Rightarrow> err option list \<Rightarrow> operatorProcess startup" where
  "operatorMain E getenv results =
     starting (zip results
         [''unable to create manager'', ''unable to create controller'', ''unable to create controller'',
          ''unable to create controller'', ''unable to create controller'', ''unable to set up health check'',
          ''unable to set up ready check'', ''operator exited with error''])
       \<lparr>opManager = \<lparr>leaderElection = getenv ''LEADER_ELECT'' \<noteq> ''false'', leaderElectionID = ''boilerhouse-operator'',
          leaderElectionNamespace = namespaceOf getenv, healthProbeBindAddress = portAddr getenv ''HEALTH_PORT'' '':8081'',
          metricsBindAddress = portAddr getenv ''METRICS_PORT'' '':9464''\<rparr>,
        opWorkloads = \<lparr>WorkloadsDir = getenv ''WORKLOADS_DIR''\<rparr>,
        opClaims = \<lparr>crSnapshots = Some (managerSnapshotter E \<lparr>smNamespace = namespaceOf getenv\<rparr>),
          crNamespace = namespaceOf getenv, crAPIServiceURL = [], ExtractRetryBackoff = []\<rparr>\<rparr>"

section \<open>The trigger gateway\<close>

definition triggerMain :: "getenv \<Rightarrow> err option \<Rightarrow> err option \<Rightarrow> err option \<Rightarrow> err option \<Rightarrow> Gateway startup" where
  "triggerMain getenv coreScheme ownScheme kubeconfig client =
     starting
       [(coreScheme, ''failed to add client-go scheme''), (ownScheme, ''failed to add v1alpha1 scheme''),
        (kubeconfig, ''failed to get kubeconfig''), (client, ''failed to create k8s client'')]
       \<lparr>gwNamespace = namespaceOf getenv\<rparr>"

text \<open>The exit codes at the end: closing the listener, or the context, is no error.\<close>

definition apiExit :: "err option \<Rightarrow> bool \<Rightarrow> int" where
  "apiExit served isServerClosed = (if served \<noteq> None \<and> \<not> isServerClosed then 1 else 0)"

definition gatewayExit :: "err option \<Rightarrow> bool \<Rightarrow> int" where
  "gatewayExit synced isCanceled = (if synced \<noteq> None \<and> \<not> isCanceled then 1 else 0)"

section \<open>Lemmas\<close>

lemma firstFailure_None: "firstFailure steps = None \<longleftrightarrow> list_all (\<lambda>(r, m). r = None) steps"
  by (induction steps rule: firstFailure.induct) simp_all

lemma starting_Runs: "starting steps c = Runs d \<longleftrightarrow> list_all (\<lambda>(r, m). r = None) steps \<and> d = c"
  using firstFailure_None [of steps] by (cases "firstFailure steps") (auto simp: starting_def)

text \<open>The reconciler of claims that the operator runs has the snapshot manager of its namespace.\<close>

lemma operator_snapshots:
  "operatorMain E getenv results = Runs p \<Longrightarrow>
   crSnapshots (opClaims p) = Some (managerSnapshotter E \<lparr>smNamespace = namespaceOf getenv\<rparr>)"
  by (simp add: operatorMain_def starting_Runs)

lemma apiMain_Runs:
  assumes "apiMain getenv L = Runs p"
  shows "apiServer p = NewServer getenv (namespaceOf getenv)"
    "apiTokens p = \<lparr>tsNamespace = namespaceOf getenv, tsEntries = Map.empty\<rparr>"
  using assms
  by (auto simp: apiMain_def starting_Runs NewTokenStore_def Let_def split: option.splits)

lemma apiMain_addr: "apiMain getenv L = Runs p \<Longrightarrow>
   apiAddr p = envOr getenv ''LISTEN_HOST'' ''127.0.0.1'' @ '':'' @ envOr getenv ''PORT'' ''3000''"
  by (auto simp: apiMain_def starting_Runs Let_def)

section \<open>Properties\<close>

text \<open>
  C38. Started with \<open>K8S_NAMESPACE\<close> only, as the manifests under \<open>config/deploy\<close> do, the three processes agree on the
  namespace, but the API listens on the loopback address while the operator gives the pods the URL of its
  Service, and, having no key, it admits every request to every route without a token.
\<close>

theorem deployed_processes:
  assumes "apiMain getenv L = Runs api" and "operatorMain E getenv results = Runs op"
    and "triggerMain getenv e1 e2 e3 e4 = Runs gw"
    and "getenv ''K8S_NAMESPACE'' = ns" "ns \<noteq> []"
    and "getenv ''LISTEN_HOST'' = []" "getenv ''PORT'' = []" "getenv ''BOILERHOUSE_API_KEY'' = []"
  shows "srvNamespace (apiServer api) = ns \<and> tsNamespace (apiTokens api) = ns \<and> crNamespace (opClaims op) = ns \<and>
    leaderElectionNamespace (opManager op) = ns \<and> gwNamespace gw = ns \<and>
    apiAddr api = ''127.0.0.1:3000'' \<and>
    apiServiceURL (opClaims op) = ''http://boilerhouse-api.'' @ ns @ ''.svc:3000'' \<and>
    fst (result (admitRoute E' (apiServer api) (Some (apiTokens api)) p auth) tr) = Pass None"
  using assms apiMain_Runs [OF assms(1)] apiMain_addr [OF assms(1)]
  by (auto simp: operatorMain_def triggerMain_def starting_Runs namespaceOf_def envOr_def NewServer_def
      apiServiceURL_def admitRoute_def authMiddleware_def result_def requireAdmin_def requireScope_def
      split: protection.split)

definition deployedEnv :: getenv where
  "deployedEnv name = (if name = ''K8S_NAMESPACE'' then ''boilerhouse'' else [])"

definition workingLibraries :: apiLibraries where
  "workingLibraries = \<lparr>apiKubeconfig = None, apiClient = None, apiCache = None, apiCachedClient = None,
     apiInformer = None, apiHandlers = None, apiSynced = True\<rparr>"

theorem deployed_processes_witness:
  "\<exists>api op gw. apiMain deployedEnv workingLibraries = Runs api \<and>
     operatorMain offlineEnv deployedEnv (replicate 8 None) = Runs op \<and>
     triggerMain deployedEnv None None None None = Runs gw \<and> gwNamespace gw = ''boilerhouse'' \<and>
     apiAddr api = ''127.0.0.1:3000'' \<and> apiServiceURL (opClaims op) = ''http://boilerhouse-api.boilerhouse.svc:3000'' \<and>
     fst (result (admitRoute offlineEnv (apiServer api) (Some (apiTokens api)) AdminOnly []) []) = Pass None"
proof -
  obtain api where api: "apiMain deployedEnv workingLibraries = Runs api"
    by (auto simp: apiMain_def starting_Runs Let_def NewTokenStore_def startTokenStore_def workingLibraries_def)
  obtain op where op: "operatorMain offlineEnv deployedEnv (replicate 8 None) = Runs op"
    by (auto simp: operatorMain_def starting_Runs numeral_eq_Suc)
  obtain gw where gw: "triggerMain deployedEnv None None None None = Runs gw"
    by (auto simp: triggerMain_def starting_Runs)
  from deployed_processes [OF api op gw, of "''boilerhouse''" offlineEnv AdminOnly "[]" "[]"] api op gw
  show ?thesis by (auto simp: deployedEnv_def)
qed

end
