(* ===== verification/Http_Shutdown.thy ===== *)
theory Http_Shutdown
  imports Entry_Points "HOL-Library.Multiset"
begin

text \<open>
  The HTTP servers of \<open>cmd/api\<close> and of the webhook adapter, with their requests, from the first request to the end:
  a step relation of the goroutine that serves, the one that waits for the context and shuts the server down, and
  the requests.  What is used of \<open>net/http\<close> is what its documentation says: \<open>Shutdown\<close> closes the listener at once,
  \<open>Serve\<close> then returns \<open>ErrServerClosed\<close> without waiting, and \<open>Shutdown\<close> returns when no request is
  in progress or its context has ended.
\<close>

section \<open>A server\<close>

text \<open>\<open>Waiting d\<close>: \<open>Shutdown\<close> has been called and waits, at most until \<open>d\<close>; \<open>Stopped r\<close>: it has returned.\<close>

datatype shutdown = Unasked | Waiting "int option" | Stopped "err option"

text \<open>
  \<open>outcome\<close> is what the serving goroutine returned, for \<open>main\<close> the exit code.  \<open>arrived\<close> is for the statements only:
  every request the server accepted.
\<close>

record 'r httpServer =
  accepting :: bool
  arrived :: "nat list"
  inProgress :: "nat list"
  answered :: "nat list"
  ctxEnded :: bool
  shutdownState :: shutdown
  outcome :: "'r option"
  now :: int

definition listen :: "int \<Rightarrow> 'r httpServer" where
  "listen t = \<lparr>accepting = True, arrived = [], inProgress = [], answered = [], ctxEnded = False,
     shutdownState = Unasked, outcome = None, now = t\<rparr>"

definition errServerClosed :: err where "errServerClosed = errorf ''http: Server closed''"
definition errDeadline :: err where "errDeadline = errorf ''context deadline exceeded''"

text \<open>
  \<open>grace\<close> bounds the context of \<open>Shutdown\<close>, if anything does; \<open>leave\<close> is the code after \<open>Serve\<close>, from its error
  and whether that is \<open>ErrServerClosed\<close>.
\<close>

inductive serverStep :: "int option \<Rightarrow> (err option \<Rightarrow> bool \<Rightarrow> 'r) \<Rightarrow> 'r httpServer \<Rightarrow> 'r httpServer \<Rightarrow> bool"
  for grace leave where
  arrives: "accepting s \<Longrightarrow> serverStep grace leave s (s\<lparr>arrived := r # arrived s, inProgress := r # inProgress s\<rparr>)"
| answers: "r \<in> set (inProgress s) \<Longrightarrow>
    serverStep grace leave s (s\<lparr>inProgress := remove1 r (inProgress s), answered := r # answered s\<rparr>)"
| time: "0 < d \<Longrightarrow> serverStep grace leave s (s\<lparr>now := now s + d\<rparr>)"
| ends: "serverStep grace leave s (s\<lparr>ctxEnded := True\<rparr>)"
| asks: "\<lbrakk>ctxEnded s; shutdownState s = Unasked\<rbrakk> \<Longrightarrow>
    serverStep grace leave s (s\<lparr>accepting := False, shutdownState := Waiting (map_option ((+) (now s)) grace)\<rparr>)"
| drained: "\<lbrakk>shutdownState s = Waiting d; inProgress s = []\<rbrakk> \<Longrightarrow>
    serverStep grace leave s (s\<lparr>shutdownState := Stopped None\<rparr>)"
| expires: "\<lbrakk>shutdownState s = Waiting (Some d); d \<le> now s\<rbrakk> \<Longrightarrow>
    serverStep grace leave s (s\<lparr>shutdownState := Stopped (Some errDeadline)\<rparr>)"
| closed: "\<lbrakk>outcome s = None; shutdownState s \<noteq> Unasked\<rbrakk> \<Longrightarrow>
    serverStep grace leave s (s\<lparr>outcome := Some (leave (Some errServerClosed) True)\<rparr>)"
| breaks: "\<lbrakk>outcome s = None; shutdownState s = Unasked\<rbrakk> \<Longrightarrow>
    serverStep grace leave s (s\<lparr>accepting := False, outcome := Some (leave (Some e) False)\<rparr>)"

inductive_cases serverStepE: "serverStep grace leave s s'"

section \<open>The API process\<close>

definition shutdownGrace :: int where "shutdownGrace = 15 * second"

text \<open>When \<open>main\<close> returns the process is gone, with its other goroutines and its requests.\<close>

definition apiStep :: "int httpServer \<Rightarrow> int httpServer \<Rightarrow> bool" where
  "apiStep s s' \<longleftrightarrow> outcome s = None \<and> serverStep (Some shutdownGrace) apiExit s s'"

section \<open>The webhook adapter\<close>

text \<open>
  \<open>Start\<close> up to its listener.  \<open>Stop\<close> is the \<open>Shutdown\<close> of its server, with a context that never ends; the gateway
  calls it after it cancelled the adapter's context.  The process goes on when \<open>Start\<close> has returned.
\<close>

record webhookServer =
  boundAddr :: string
  webhookServing :: "err option httpServer"

definition startWebhook :: "err + string \<Rightarrow> int \<Rightarrow> err + webhookServer" where
  "startWebhook ln t = (case ln of
     Inl e \<Rightarrow> Inl (wrapf ''webhook adapter listen'' e)
   | Inr addr \<Rightarrow> Inr \<lparr>boundAddr = addr, webhookServing = listen t\<rparr>)"

definition webhookServed :: "err option \<Rightarrow> bool \<Rightarrow> err option" where
  "webhookServed served isServerClosed =
     (case served of None \<Rightarrow> None
      | Some e \<Rightarrow> if isServerClosed then None else Some (wrapf ''webhook adapter serve'' e))"

definition webhookStep :: "err option httpServer \<Rightarrow> err option httpServer \<Rightarrow> bool" where
  "webhookStep = serverStep None webhookServed"

section \<open>What both servers keep\<close>

text \<open>No request is lost or answered twice, and a server that is shutting down takes no new one.\<close>

definition accounted :: "'r httpServer \<Rightarrow> bool" where
  "accounted s \<longleftrightarrow> mset (arrived s) = mset (inProgress s) + mset (answered s) \<and>
     (shutdownState s \<noteq> Unasked \<longrightarrow> \<not> accepting s)"

lemma listen_accounted [simp]: "accounted (listen t)"
  by (simp add: accounted_def listen_def)

lemma serverStep_accounted: "serverStep grace leave s s' \<Longrightarrow> accounted s \<Longrightarrow> accounted s'"
  by (induction rule: serverStep.induct) (auto simp: accounted_def)

lemma serverStep_closed:
  "serverStep grace leave s s' \<Longrightarrow> accounted s \<Longrightarrow> shutdownState s \<noteq> Unasked \<Longrightarrow>
   shutdownState s' \<noteq> Unasked \<and> arrived s' = arrived s"
  by (induction rule: serverStep.induct) (auto simp: accounted_def)

text \<open>The laws of a server that a shutdown ends, and of one whose shutdown waits for as long as it takes.\<close>

locale stoppable_server =
  fixes step :: "'r httpServer \<Rightarrow> 'r httpServer \<Rightarrow> bool"
  assumes step_accounted: "step s s' \<Longrightarrow> accounted s \<Longrightarrow> accounted s'"
    and step_closed: "step s s' \<Longrightarrow> accounted s \<Longrightarrow> shutdownState s \<noteq> Unasked \<Longrightarrow>
      shutdownState s' \<noteq> Unasked \<and> arrived s' = arrived s"
begin

lemma run_accounted: "step\<^sup>*\<^sup>* s s' \<Longrightarrow> accounted s \<Longrightarrow> accounted s'"
  by (induction rule: rtranclp_induct) (auto intro: step_accounted)

lemma run_closed:
  "step\<^sup>*\<^sup>* s s' \<Longrightarrow> accounted s \<Longrightarrow> shutdownState s \<noteq> Unasked \<Longrightarrow>
   shutdownState s' \<noteq> Unasked \<and> arrived s' = arrived s"
proof (induction rule: rtranclp_induct)
  case (step t u)
  then have "accounted t" by (blast intro: run_accounted)
  with step step_closed [of t u] show ?case by simp
qed simp

end

text \<open>\<open>quiet\<close>: once \<open>Shutdown\<close> has returned, it returned no error and no request is in progress.\<close>

definition quiet :: "'r httpServer \<Rightarrow> bool" where
  "quiet s \<longleftrightarrow> (case shutdownState s of Stopped r \<Rightarrow> r = None \<and> inProgress s = [] | Waiting d \<Rightarrow> d = None | Unasked \<Rightarrow> True)"

lemma listen_quiet [simp]: "quiet (listen t)"
  by (simp add: quiet_def listen_def)

locale patient_server = stoppable_server +
  assumes step_quiet: "step s s' \<Longrightarrow> accounted s \<Longrightarrow> quiet s \<Longrightarrow> quiet s'"
begin

lemma run_quiet: "step\<^sup>*\<^sup>* s s' \<Longrightarrow> accounted s \<Longrightarrow> quiet s \<Longrightarrow> quiet s'"
proof (induction rule: rtranclp_induct)
  case (step t u)
  then have "accounted t" by (blast intro: run_accounted)
  with step step_quiet [of t u] show ?case by simp
qed simp

lemma stopped_answered_all:
  assumes "step\<^sup>*\<^sup>* s s'" "accounted s" "quiet s" "shutdownState s' = Stopped r"
  shows "r = None \<and> mset (answered s') = mset (arrived s')"
  using run_accounted [OF assms(1,2)] run_quiet [OF assms(1-3)] assms(4)
  by (simp add: accounted_def quiet_def)

end

interpretation apiServing: stoppable_server apiStep
  by unfold_locales (auto simp: apiStep_def dest: serverStep_accounted serverStep_closed)

lemma webhookStep_quiet: "webhookStep s s' \<Longrightarrow> accounted s \<Longrightarrow> quiet s \<Longrightarrow> quiet s'"
  unfolding webhookStep_def
  by (induction rule: serverStep.induct) (auto simp: quiet_def accounted_def split: shutdown.splits)

interpretation webhookServe: patient_server webhookStep
  by unfold_locales (auto simp: webhookStep_def [symmetric] webhookStep_quiet
      dest: serverStep_accounted [of None webhookServed, folded webhookStep_def]
        serverStep_closed [of None webhookServed, folded webhookStep_def])

section \<open>Runs\<close>

text \<open>Any requests can be in progress, and all of them can be answered.\<close>

lemma arrive_all:
  "accepting s \<Longrightarrow> outcome s = None \<Longrightarrow>
   apiStep\<^sup>*\<^sup>* s (s\<lparr>arrived := rs @ arrived s, inProgress := rs @ inProgress s\<rparr>)"
proof (induction rs)
  case (Cons r rs)
  let ?s = "s\<lparr>arrived := rs @ arrived s, inProgress := rs @ inProgress s\<rparr>"
  have "apiStep ?s (s\<lparr>arrived := (r # rs) @ arrived s, inProgress := (r # rs) @ inProgress s\<rparr>)"
    using Cons.prems arrives [where s = ?s and r = r] by (simp add: apiStep_def)
  with Cons show ?case by (meson rtranclp.rtrancl_into_rtrancl)
qed simp

lemma answer_all:
  "webhookStep\<^sup>*\<^sup>* s (s\<lparr>inProgress := [], answered := rev (inProgress s) @ answered s\<rparr>)"
proof (induction "inProgress s" arbitrary: s)
  case Nil
  then have "s\<lparr>inProgress := [], answered := rev (inProgress s) @ answered s\<rparr> = s" by simp
  then show ?case by simp
next
  case (Cons r rs)
  let ?s = "s\<lparr>inProgress := rs, answered := r # answered s\<rparr>"
  have "webhookStep s ?s"
    using answers [where r = r and s = s] Cons.hyps(2) [symmetric] by (simp add: webhookStep_def)
  with Cons.hyps(1) [of ?s] Cons.hyps(2) [symmetric] show ?case
    by (simp add: converse_rtranclp_into_rtranclp)
qed

text \<open>The exit code tells a shutdown from a failure, and only a signal shuts the process down.\<close>

definition exitOk :: "int httpServer \<Rightarrow> bool" where
  "exitOk s \<longleftrightarrow> (shutdownState s \<noteq> Unasked \<longrightarrow> ctxEnded s) \<and>
     (case outcome s of None \<Rightarrow> True | Some c \<Rightarrow> c = (if shutdownState s = Unasked then 1 else 0))"

lemma apiStep_exitOk: "apiStep s s' \<Longrightarrow> exitOk s \<Longrightarrow> exitOk s'"
  by (auto simp: apiStep_def exitOk_def apiExit_def elim!: serverStepE)

lemma run_exitOk: "apiStep\<^sup>*\<^sup>* (listen t) s \<Longrightarrow> exitOk s"
  by (induction rule: rtranclp_induct) (simp add: exitOk_def listen_def, rule apiStep_exitOk)

lemma api_abandons:
  "\<exists>s. apiStep\<^sup>*\<^sup>* (listen t) s \<and> outcome s = Some 0 \<and> inProgress s = rs \<and> answered s = [] \<and> now s = t"
proof -
  let ?a = "(listen t :: int httpServer)\<lparr>arrived := rs, inProgress := rs\<rparr>"
  let ?b = "?a\<lparr>ctxEnded := True\<rparr>"
  let ?c = "?b\<lparr>accepting := False, shutdownState := Waiting (map_option ((+) (now ?b)) (Some shutdownGrace))\<rparr>"
  let ?d = "?c\<lparr>outcome := Some (apiExit (Some errServerClosed) True)\<rparr>"
  have "apiStep\<^sup>*\<^sup>* (listen t) ?a" using arrive_all [of "listen t" rs] by (simp add: listen_def)
  moreover have "apiStep ?a ?b" unfolding apiStep_def by (rule conjI [OF _ ends]) (simp add: listen_def)
  moreover have "apiStep ?b ?c" unfolding apiStep_def by (rule conjI [OF _ asks]) (simp_all add: listen_def)
  moreover have "apiStep ?c ?d" unfolding apiStep_def by (rule conjI [OF _ closed]) (simp_all add: listen_def)
  ultimately have "apiStep\<^sup>*\<^sup>* (listen t) ?d" by (meson rtranclp.rtrancl_into_rtrancl)
  then show ?thesis by (intro exI [of _ ?d]) (simp add: listen_def apiExit_def)
qed

lemma webhook_can_stop:
  assumes "quiet s" "shutdownState s \<noteq> Unasked"
  shows "\<exists>s'. webhookStep\<^sup>*\<^sup>* s s' \<and> shutdownState s' = Stopped None"
proof (cases "shutdownState s")
  case (Waiting d)
  let ?s = "s\<lparr>inProgress := [], answered := rev (inProgress s) @ answered s\<rparr>"
  have "webhookStep ?s (?s\<lparr>shutdownState := Stopped None\<rparr>)"
    unfolding webhookStep_def by (rule drained [of _ d]) (simp_all add: Waiting)
  with answer_all [of s] show ?thesis
    by (intro exI [of _ "?s\<lparr>shutdownState := Stopped None\<rparr>"]) (simp add: rtranclp.rtrancl_into_rtrancl)
qed (use assms in \<open>auto simp: quiet_def\<close>)

section \<open>Properties\<close>

text \<open>
  C40. Shutting down: while the \<open>Stop\<close> of a webhook adapter waits, no request is accepted any more; it can
  return, and when it does, without an error, every request that ever arrived has been answered, once.  The API process
  exits with 0 only when it was signalled, but without waiting: whatever requests are in progress, it can be gone with all of them
  unanswered, at the moment at which it began to shut down.
\<close>

theorem shutdown_drains:
  assumes "webhookStep\<^sup>*\<^sup>* (listen t) w" "shutdownState w \<noteq> Unasked"
    and "apiStep\<^sup>*\<^sup>* (listen t') a" "outcome a = Some c"
  shows "(\<exists>w'. webhookStep\<^sup>*\<^sup>* w w' \<and> shutdownState w' = Stopped None) \<and>
    (\<forall>w' r. webhookStep\<^sup>*\<^sup>* w w' \<longrightarrow> arrived w' = arrived w \<and>
       (shutdownState w' = Stopped r \<longrightarrow> r = None \<and> mset (answered w') = mset (arrived w))) \<and>
    (c = 0 \<longrightarrow> ctxEnded a) \<and> c \<in> {0, 1} \<and>
    (\<exists>a'. apiStep\<^sup>*\<^sup>* (listen t') a' \<and> outcome a' = Some 0 \<and> inProgress a' = rs \<and> answered a' = [] \<and> now a' = t')"
proof (intro conjI allI impI)
  have w: "accounted w" "quiet w"
    using webhookServe.run_accounted [OF assms(1)] webhookServe.run_quiet [OF assms(1)] by simp_all
  show "\<exists>w'. webhookStep\<^sup>*\<^sup>* w w' \<and> shutdownState w' = Stopped None"
    by (rule webhook_can_stop [OF w(2) assms(2)])
  fix w' r
  assume run: "webhookStep\<^sup>*\<^sup>* w w'"
  from webhookServe.run_closed [OF run w(1) assms(2)] show "arrived w' = arrived w" by simp
  with webhookServe.stopped_answered_all [OF run w]
  show "r = None" "mset (answered w') = mset (arrived w)" if "shutdownState w' = Stopped r"
    using that by simp_all
next
  show "ctxEnded a" if "c = 0" using run_exitOk [OF assms(3)] that assms(4)
    by (simp add: exitOk_def split: if_splits)
  show "c \<in> {0, 1}" using run_exitOk [OF assms(3)] assms(4) by (simp add: exitOk_def split: if_splits)
qed (rule api_abandons)

text \<open>A webhook that is stopped with one request in progress, and an API server whose listener broke.\<close>

definition busyWebhook :: "err option httpServer" where
  "busyWebhook = (listen 0)\<lparr>accepting := False, arrived := [7], inProgress := [7], ctxEnded := True,
     shutdownState := Waiting None\<rparr>"

lemma busyWebhook_reached: "webhookStep\<^sup>*\<^sup>* (listen 0) busyWebhook"
proof -
  let ?a = "(listen 0 :: err option httpServer)\<lparr>arrived := [7], inProgress := [7]\<rparr>"
  have "webhookStep (listen 0) ?a"
    using arrives [where s = "listen 0" and r = 7 and grace = None and leave = webhookServed]
    by (simp add: webhookStep_def listen_def)
  moreover have "webhookStep ?a (?a\<lparr>ctxEnded := True\<rparr>)" unfolding webhookStep_def by (rule ends)
  moreover have "webhookStep (?a\<lparr>ctxEnded := True\<rparr>) busyWebhook"
    using asks [where s = "?a\<lparr>ctxEnded := True\<rparr>" and grace = None and leave = webhookServed]
    by (simp add: webhookStep_def listen_def busyWebhook_def)
  ultimately show ?thesis by (meson rtranclp.rtrancl_into_rtrancl rtranclp.rtrancl_refl)
qed

lemma api_breaks: "apiStep (listen 0) ((listen 0)\<lparr>accepting := False, outcome := Some (apiExit (Some e) False)\<rparr>)"
  unfolding apiStep_def by (rule conjI [OF _ breaks]) (simp_all add: listen_def)

theorem shutdown_drains_witness:
  "(\<exists>w'. webhookStep\<^sup>*\<^sup>* busyWebhook w' \<and> shutdownState w' = Stopped None \<and> mset (answered w') = {#7#}) \<and>
   (\<exists>a'. apiStep\<^sup>*\<^sup>* (listen 0) a' \<and> outcome a' = Some 0 \<and> inProgress a' = [1, 2] \<and> answered a' = [] \<and> now a' = 0)"
proof -
  note drains = shutdown_drains [OF busyWebhook_reached _ r_into_rtranclp [where r = apiStep, OF api_breaks],
      where c = 1 and rs = "[1, 2]"]
  show ?thesis
    using drains by (auto simp: busyWebhook_def apiExit_def)
qed

end
