(* ===== verification/Go_Heap.thy ===== *)
theory Go_Heap
  imports "HOL-Library.State_Monad"
begin

text \<open>
  A store for Go's pointers and slices: an address leads to a cell, \<open>new\<close> and \<open>make\<close> take the next one.  A cell holds
  whatever was allocated there: the value of a pointer's target, or the elements of a slice's array.
  \<open>deep\<close> is the contract of a deep copy, and the lemmas give it for pointers, slices and structs from their parts.
\<close>

section \<open>The store\<close>

type_synonym addr = nat
type_synonym ref = "addr option"

record 'c heap =
  store :: "addr \<Rightarrow> 'c"
  unused :: addr

type_synonym ('c, 'a) heapM = "('c heap, 'a) state"

abbreviation giving :: "'a \<Rightarrow> ('c, 'a) heapM" where
  "giving \<equiv> State_Monad.return"

definition load :: "('c \<Rightarrow> 'a) \<Rightarrow> addr \<Rightarrow> ('c, 'a) heapM" where
  "load un a = State (\<lambda>h. (un (store h a), h))"

definition alloc :: "'c \<Rightarrow> ('c, addr) heapM" where
  "alloc c = State (\<lambda>h. (unused h, h\<lparr>store := (store h)(unused h := c), unused := Suc (unused h)\<rparr>))"

lemma run_load [simp]: "run_state (load un a) h = (un (store h a), h)"
  by (simp add: load_def)

lemma run_alloc [simp]:
  "run_state (alloc c) h = (unused h, h\<lparr>store := (store h)(unused h := c), unused := Suc (unused h)\<rparr>)"
  by (simp add: alloc_def)

text \<open>Two heaps that hold the same at some addresses.\<close>

definition agree :: "addr set \<Rightarrow> 'c heap \<Rightarrow> 'c heap \<Rightarrow> bool" where
  "agree A h h' \<longleftrightarrow> (\<forall>a\<in>A. store h a = store h' a)"

lemma agree_refl [simp]: "agree A h h"
  by (simp add: agree_def)

lemma agree_sym: "agree A h h' \<Longrightarrow> agree A h' h"
  by (simp add: agree_def)

lemma agree_trans: "agree A h h' \<Longrightarrow> agree B h' h'' \<Longrightarrow> C \<subseteq> A \<Longrightarrow> C \<subseteq> B \<Longrightarrow> agree C h h''"
  unfolding agree_def by (metis subsetD)

lemma agree_mono: "agree A h h' \<Longrightarrow> B \<subseteq> A \<Longrightarrow> agree B h h'"
  by (auto simp: agree_def)

lemma agree_Un [simp]: "agree (A \<union> B) h h' \<longleftrightarrow> agree A h h' \<and> agree B h h'"
  by (auto simp: agree_def)

lemma agree_insert [simp]: "agree (insert a A) h h' \<longleftrightarrow> store h a = store h' a \<and> agree A h h'"
  by (auto simp: agree_def)

lemma agree_empty [simp]: "agree {} h h'"
  by (simp add: agree_def)

section \<open>Deep copies\<close>

text \<open>
  \<open>val h x\<close> is the value that \<open>x\<close> stands for, \<open>refs h x\<close> the addresses it is made of; both depend on the cells at those
  addresses only.  A copy of something allocated leaves every old cell as it is, has the same value and is made of new
  cells.
\<close>

definition framed :: "('c heap \<Rightarrow> 'x \<Rightarrow> 'v) \<Rightarrow> ('c heap \<Rightarrow> 'x \<Rightarrow> addr set) \<Rightarrow> bool" where
  "framed val refs \<longleftrightarrow> (\<forall>h h' x. agree (refs h x) h h' \<longrightarrow> val h' x = val h x \<and> refs h' x = refs h x)"

definition copies :: "('c heap \<Rightarrow> 'x \<Rightarrow> 'v) \<Rightarrow> ('c heap \<Rightarrow> 'x \<Rightarrow> addr set) \<Rightarrow> ('x \<Rightarrow> ('c, 'x) heapM) \<Rightarrow> 'x \<Rightarrow> bool" where
  "copies val refs copy x \<longleftrightarrow> (\<forall>h x' h'. refs h x \<subseteq> {..<unused h} \<longrightarrow> run_state (copy x) h = (x', h') \<longrightarrow>
     unused h \<le> unused h' \<and> agree {..<unused h} h h' \<and> val h' x' = val h x \<and> refs h' x' \<subseteq> {unused h..<unused h'})"

definition deep :: "('c heap \<Rightarrow> 'x \<Rightarrow> 'v) \<Rightarrow> ('c heap \<Rightarrow> 'x \<Rightarrow> addr set) \<Rightarrow> ('x \<Rightarrow> ('c, 'x) heapM) \<Rightarrow> bool" where
  "deep val refs copy \<longleftrightarrow> framed val refs \<and> (\<forall>x. copies val refs copy x)"

lemma framedI: "(\<And>h h' x. agree (refs h x) h h' \<Longrightarrow> val h' x = val h x \<and> refs h' x = refs h x) \<Longrightarrow> framed val refs"
  by (simp add: framed_def)

lemma framedD: "framed val refs \<Longrightarrow> agree (refs h x) h h' \<Longrightarrow> val h' x = val h x \<and> refs h' x = refs h x"
  unfolding framed_def by blast

lemma copiesI:
  assumes "\<And>h x' h'. refs h x \<subseteq> {..<unused h} \<Longrightarrow> run_state (copy x) h = (x', h') \<Longrightarrow>
      unused h \<le> unused h' \<and> agree {..<unused h} h h' \<and> val h' x' = val h x \<and> refs h' x' \<subseteq> {unused h..<unused h'}"
  shows "copies val refs copy x"
  unfolding copies_def using assms by blast

lemma copiesD:
  "copies val refs copy x \<Longrightarrow> refs h x \<subseteq> {..<unused h} \<Longrightarrow> run_state (copy x) h = (x', h') \<Longrightarrow>
   unused h \<le> unused h' \<and> agree {..<unused h} h h' \<and> val h' x' = val h x \<and> refs h' x' \<subseteq> {unused h..<unused h'}"
  unfolding copies_def by blast

lemma deep_frame: "deep val refs copy \<Longrightarrow> framed val refs"
  by (simp add: deep_def)

lemma deep_copies: "deep val refs copy \<Longrightarrow> copies val refs copy x"
  by (simp add: deep_def)

lemma deepI: "framed val refs \<Longrightarrow> (\<And>x. copies val refs copy x) \<Longrightarrow> deep val refs copy"
  by (simp add: deep_def)

text \<open>What has no pointers is copied by assignment.\<close>

definition plain :: "'c heap \<Rightarrow> 'x \<Rightarrow> 'x" where
  "plain h x = x"

definition noRefs :: "'c heap \<Rightarrow> 'x \<Rightarrow> addr set" where
  "noRefs h x = {}"

lemma deep_plain: "deep plain noRefs giving"
  by (auto simp: plain_def noRefs_def intro!: deepI framedI copiesI)

subsection \<open>Two fields\<close>

definition copyBoth :: "('x \<Rightarrow> ('c, 'x) heapM) \<Rightarrow> ('y \<Rightarrow> ('c, 'y) heapM) \<Rightarrow> 'x \<times> 'y \<Rightarrow> ('c, 'x \<times> 'y) heapM" where
  "copyBoth c d xy = do { x \<leftarrow> c (fst xy); y \<leftarrow> d (snd xy); giving (x, y) }"

lemma framed_both:
  assumes "framed v r" "framed w s"
  shows "framed (\<lambda>h xy. (v h (fst xy), w h (snd xy))) (\<lambda>h xy. r h (fst xy) \<union> s h (snd xy))"
proof (rule framedI)
  fix h h' :: "'a heap" and xy
  assume "agree (r h (fst xy) \<union> s h (snd xy)) h h'"
  with framedD [OF assms(1), of h "fst xy" h'] framedD [OF assms(2), of h "snd xy" h']
  show "(v h' (fst xy), w h' (snd xy)) = (v h (fst xy), w h (snd xy)) \<and>
      r h' (fst xy) \<union> s h' (snd xy) = r h (fst xy) \<union> s h (snd xy)" by simp
qed

lemma copies_both:
  assumes fv: "framed v r" and fw: "framed w s" and c: "copies v r c (fst xy)" and d: "copies w s d (snd xy)"
  shows "copies (\<lambda>h xy. (v h (fst xy), w h (snd xy))) (\<lambda>h xy. r h (fst xy) \<union> s h (snd xy)) (copyBoth c d) xy"
proof (rule copiesI)
  fix h xy' h'
  assume old: "r h (fst xy) \<union> s h (snd xy) \<subseteq> {..<unused h}" and "run_state (copyBoth c d xy) h = (xy', h')"
  then obtain x h1 y where x: "run_state (c (fst xy)) h = (x, h1)" and y: "run_state (d (snd xy)) h1 = (y, h')"
    and xy': "xy' = (x, y)"
    by (auto simp: copyBoth_def split: prod.splits)
  from old have "r h (fst xy) \<subseteq> {..<unused h}" by simp
  note 1 = copiesD [OF c this x]
  have "s h (snd xy) \<subseteq> {..<unused h}" using old by simp
  with 1 have "agree (s h (snd xy)) h h1" by (blast intro: agree_mono)
  note same = framedD [OF fw this]
  with old 1 have "s h1 (snd xy) \<subseteq> {..<unused h1}" by auto
  note 2 = copiesD [OF d this y]
  have "agree (r h1 x) h1 h'" by (rule agree_mono [of "{..<unused h1}"]) (use 1 2 in auto)
  note kept = framedD [OF fv this]
  have "agree {..<unused h} h h'" by (rule agree_trans [of "{..<unused h}" h h1 "{..<unused h1}"]) (use 1 2 in auto)
  with 1 2 kept same show "unused h \<le> unused h' \<and> agree {..<unused h} h h' \<and>
      (v h' (fst xy'), w h' (snd xy')) = (v h (fst xy), w h (snd xy)) \<and>
      r h' (fst xy') \<union> s h' (snd xy') \<subseteq> {unused h..<unused h'}"
    by (auto simp: xy')
qed

lemma deep_both:
  "deep v r c \<Longrightarrow> deep w s d \<Longrightarrow>
   deep (\<lambda>h xy. (v h (fst xy), w h (snd xy))) (\<lambda>h xy. r h (fst xy) \<union> s h (snd xy)) (copyBoth c d)"
  by (simp add: deep_def framed_both copies_both)

subsection \<open>Structs\<close>

text \<open>\<open>*out = *in\<close>, then the fields with pointers one by one: \<open>sel\<close> reads them, \<open>upd\<close> writes them.\<close>

lemma copies_struct:
  assumes c: "copies v r c (sel s)"
    and copy: "copy s = do { a \<leftarrow> c (sel s); giving (upd s a) }"
    and refs: "\<And>h s. refs h s = r h (sel s)"
    and new: "\<And>h h' a. v h' a = v h (sel s) \<Longrightarrow> val h' (upd s a) = val h s"
    and sel: "\<And>a. sel (upd s a) = a"
  shows "copies val refs copy s"
proof (rule copiesI)
  fix h s' h'
  assume "refs h s \<subseteq> {..<unused h}" and run: "run_state (copy s) h = (s', h')"
  then have old: "r h (sel s) \<subseteq> {..<unused h}" by (simp add: refs)
  from run obtain a where a: "run_state (c (sel s)) h = (a, h')" and s': "s' = upd s a"
    by (auto simp: copy split: prod.splits)
  from copiesD [OF c old a] show "unused h \<le> unused h' \<and> agree {..<unused h} h h' \<and> val h' s' = val h s \<and>
      refs h' s' \<subseteq> {unused h..<unused h'}"
    by (simp add: refs s' sel new)
qed

lemma deep_struct:
  assumes c: "deep v r c"
    and "\<And>s. copy s = do { a \<leftarrow> c (sel s); giving (upd s a) }"
    and refs: "\<And>h s. refs h s = r h (sel s)"
    and frame: "\<And>h h' s. v h' (sel s) = v h (sel s) \<Longrightarrow> val h' s = val h s"
    and "\<And>h h' s a. v h' a = v h (sel s) \<Longrightarrow> val h' (upd s a) = val h s"
    and "\<And>s a. sel (upd s a) = a"
  shows "deep val refs copy"
proof (rule deepI)
  show "framed val refs"
  proof (rule framedI)
    fix h h' s
    assume "agree (refs h s) h h'"
    with framedD [OF deep_frame [OF c], of h "sel s" h'] frame [of h' s h]
    show "val h' s = val h s \<and> refs h' s = refs h s" by (simp add: refs)
  qed
  show "copies val refs copy s" for s
    by (rule copies_struct [where upd = upd, OF deep_copies [OF c] assms(2,3,5,6)])
qed

subsection \<open>Pointers\<close>

definition copyPtr :: "('x \<Rightarrow> 'c) \<Rightarrow> ('c \<Rightarrow> 'x) \<Rightarrow> ('x \<Rightarrow> ('c, 'x) heapM) \<Rightarrow> ref \<Rightarrow> ('c, ref) heapM" where
  "copyPtr mk un copy p = (case p of
     None \<Rightarrow> giving None
   | Some a \<Rightarrow> do { x \<leftarrow> load un a; y \<leftarrow> copy x; b \<leftarrow> alloc (mk y); giving (Some b) })"

definition ptrVal :: "('c \<Rightarrow> 'x) \<Rightarrow> ('c heap \<Rightarrow> 'x \<Rightarrow> 'v) \<Rightarrow> 'c heap \<Rightarrow> ref \<Rightarrow> 'v option" where
  "ptrVal un val h p = map_option (\<lambda>a. val h (un (store h a))) p"

definition ptrRefs :: "('c \<Rightarrow> 'x) \<Rightarrow> ('c heap \<Rightarrow> 'x \<Rightarrow> addr set) \<Rightarrow> 'c heap \<Rightarrow> ref \<Rightarrow> addr set" where
  "ptrRefs un refs h p = (case p of None \<Rightarrow> {} | Some a \<Rightarrow> insert a (refs h (un (store h a))))"

lemma framed_ptr:
  assumes "framed v r"
  shows "framed (ptrVal un v) (ptrRefs un r)"
proof (rule framedI)
  fix h h' :: "'a heap" and p
  assume "agree (ptrRefs un r h p) h h'"
  with framedD [OF assms, of h _ h'] show "ptrVal un v h' p = ptrVal un v h p \<and> ptrRefs un r h' p = ptrRefs un r h p"
    by (cases p) (auto simp: ptrVal_def ptrRefs_def)
qed

lemma copies_ptr:
  assumes f: "framed v r" and c: "\<And>x. copies v r c x" and un: "\<And>x. un (mk x) = x"
  shows "copies (ptrVal un v) (ptrRefs un r) (copyPtr mk un c) p"
proof (cases p)
  case None
  show ?thesis unfolding None by (rule copiesI) (auto simp: copyPtr_def ptrVal_def ptrRefs_def)
next
  case (Some a)
  show ?thesis
    unfolding Some
  proof (rule copiesI)
    fix h h' p'
    assume old: "ptrRefs un r h (Some a) \<subseteq> {..<unused h}" and run: "run_state (copyPtr mk un c (Some a)) h = (p', h')"
    let ?x = "un (store h a)"
    from run obtain y h1 where y: "run_state (c ?x) h = (y, h1)" and p': "p' = Some (unused h1)"
      and h': "h' = h1\<lparr>store := (store h1)(unused h1 := mk y), unused := Suc (unused h1)\<rparr>"
      by (auto simp: copyPtr_def split: prod.splits)
    have "r h ?x \<subseteq> {..<unused h}" using old by (simp add: ptrRefs_def)
    note 1 = copiesD [OF c this y]
    have new: "agree A h1 h'" if "A \<subseteq> {..<unused h1}" for A using that by (auto simp: agree_def h')
    have kept: "agree {..<unused h} h h'"
      by (rule agree_trans [of "{..<unused h}" h h1 "{..<unused h1}"]) (use 1 new in auto)
    have "agree (r h1 y) h1 h'" by (rule new) (use 1 in auto)
    note same = framedD [OF f this]
    have "store h' (unused h1) = mk y" "unused h' = Suc (unused h1)" by (simp_all add: h')
    moreover have "r h1 y \<subseteq> {unused h..<Suc (unused h1)}" using 1 by auto
    ultimately show "unused h \<le> unused h' \<and> agree {..<unused h} h h' \<and>
        ptrVal un v h' p' = ptrVal un v h (Some a) \<and> ptrRefs un r h' p' \<subseteq> {unused h..<unused h'}"
      using 1 kept same by (simp add: p' ptrVal_def ptrRefs_def un)
  qed
qed

text \<open>The law of a kind of cell: what was put in comes out.\<close>

locale cell_kind =
  fixes mk :: "'x \<Rightarrow> 'c" and un :: "'c \<Rightarrow> 'x"
  assumes un_mk: "un (mk x) = x"
begin

lemma deep_ptr: "deep v r c \<Longrightarrow> deep (ptrVal un v) (ptrRefs un r) (copyPtr mk un c)"
  by (simp add: deep_def framed_ptr copies_ptr un_mk)

end

text \<open>A pointer that a library copies with its own \<open>DeepCopy\<close>.\<close>

definition copyOpt :: "('x \<Rightarrow> ('c, 'x) heapM) \<Rightarrow> 'x option \<Rightarrow> ('c, 'x option) heapM" where
  "copyOpt copy p = (case p of None \<Rightarrow> giving None | Some x \<Rightarrow> do { y \<leftarrow> copy x; giving (Some y) })"

definition optVal :: "('c heap \<Rightarrow> 'x \<Rightarrow> 'v) \<Rightarrow> 'c heap \<Rightarrow> 'x option \<Rightarrow> 'v option" where
  "optVal val h p = map_option (val h) p"

definition optRefs :: "('c heap \<Rightarrow> 'x \<Rightarrow> addr set) \<Rightarrow> 'c heap \<Rightarrow> 'x option \<Rightarrow> addr set" where
  "optRefs refs h p = (case p of None \<Rightarrow> {} | Some x \<Rightarrow> refs h x)"

lemma deep_opt:
  assumes "deep v r c"
  shows "deep (optVal v) (optRefs r) (copyOpt c)"
proof (rule deepI)
  show "framed (optVal v) (optRefs r)"
    using deep_frame [OF assms] by (auto simp: framed_def optVal_def optRefs_def split: option.split)
  show "copies (optVal v) (optRefs r) (copyOpt c) p" for p
  proof (cases p)
    case None
    show ?thesis unfolding None by (rule copiesI) (auto simp: copyOpt_def optVal_def optRefs_def)
  next
    case (Some x)
    with deep_copies [OF assms, of x] show ?thesis
      by (fastforce simp: copies_def copyOpt_def optVal_def optRefs_def split: prod.splits)
  qed
qed

subsection \<open>Slices\<close>

fun copyAll :: "('x \<Rightarrow> ('c, 'x) heapM) \<Rightarrow> 'x list \<Rightarrow> ('c, 'x list) heapM" where
  "copyAll copy [] = giving []"
| "copyAll copy (x # xs) = do { y \<leftarrow> copy x; ys \<leftarrow> copyAll copy xs; giving (y # ys) }"

definition listRefs :: "('c heap \<Rightarrow> 'x \<Rightarrow> addr set) \<Rightarrow> 'c heap \<Rightarrow> 'x list \<Rightarrow> addr set" where
  "listRefs refs h xs = (\<Union>x\<in>set xs. refs h x)"

text \<open>A nil slice stays nil; the elements of another go to a new array.\<close>

definition copySlice :: "('x list \<Rightarrow> 'c) \<Rightarrow> ('c \<Rightarrow> 'x list) \<Rightarrow> ('x \<Rightarrow> ('c, 'x) heapM) \<Rightarrow> ref \<Rightarrow> ('c, ref) heapM" where
  "copySlice mk un copy = copyPtr mk un (copyAll copy)"

definition sliceVal :: "('c \<Rightarrow> 'x list) \<Rightarrow> ('c heap \<Rightarrow> 'x \<Rightarrow> 'v) \<Rightarrow> 'c heap \<Rightarrow> ref \<Rightarrow> 'v list" where
  "sliceVal un val h p = (case p of None \<Rightarrow> [] | Some a \<Rightarrow> map (val h) (un (store h a)))"

definition sliceRefs :: "('c \<Rightarrow> 'x list) \<Rightarrow> ('c heap \<Rightarrow> 'x \<Rightarrow> addr set) \<Rightarrow> 'c heap \<Rightarrow> ref \<Rightarrow> addr set" where
  "sliceRefs un refs = ptrRefs un (listRefs refs)"

lemma deep_all:
  assumes c: "deep v r c"
  shows "deep (\<lambda>h. map (v h)) (listRefs r) (copyAll c)"
proof (rule deepI)
  show f: "framed (\<lambda>h. map (v h)) (listRefs r)"
  proof (rule framedI)
    fix h h' :: "'a heap" and xs
    assume "agree (listRefs r h xs) h h'"
    then have "v h' x = v h x \<and> r h' x = r h x" if "x \<in> set xs" for x
      by (rule framedD [OF deep_frame [OF c], OF agree_mono]) (use that in \<open>auto simp: listRefs_def\<close>)
    then show "map (v h') xs = map (v h) xs \<and> listRefs r h' xs = listRefs r h xs"
      by (simp add: listRefs_def)
  qed
  show "copies (\<lambda>h. map (v h)) (listRefs r) (copyAll c) xs" for xs
  proof (induction xs)
    case Nil
    show ?case by (rule copiesI) (auto simp: listRefs_def)
  next
    case (Cons x xs)
    have "copies (\<lambda>h xy. (v h (fst xy), map (v h) (snd xy))) (\<lambda>h xy. r h (fst xy) \<union> listRefs r h (snd xy))
        (copyBoth c (copyAll c)) (x, xs)"
      by (rule copies_both [OF deep_frame [OF c] f]) (simp_all add: deep_copies [OF c] Cons)
    note pair = copiesD [OF this]
    show ?case
    proof (rule copiesI)
      fix h ys h'
      assume old: "listRefs r h (x # xs) \<subseteq> {..<unused h}" and "run_state (copyAll c (x # xs)) h = (ys, h')"
      then obtain y zs where "run_state (copyBoth c (copyAll c) (x, xs)) h = ((y, zs), h')" "ys = y # zs"
        by (auto simp: copyBoth_def split: prod.splits)
      with pair [of h "(y, zs)" h'] old show "unused h \<le> unused h' \<and> agree {..<unused h} h h' \<and>
          map (v h') ys = map (v h) (x # xs) \<and> listRefs r h' ys \<subseteq> {unused h..<unused h'}"
        by (simp add: listRefs_def)
    qed
  qed
qed

lemma sliceVal_ptr: "sliceVal un val h p = (case ptrVal un (\<lambda>h. map (val h)) h p of None \<Rightarrow> [] | Some xs \<Rightarrow> xs)"
  by (simp add: sliceVal_def ptrVal_def split: option.split)

locale array_kind = cell_kind mk un for mk :: "'x list \<Rightarrow> 'c" and un
begin

lemma deep_slice:
  assumes "deep v r c"
  shows "deep (sliceVal un v) (sliceRefs un r) (copySlice mk un c)"
  by (rule deep_struct [OF deep_ptr [OF deep_all [OF assms]], where sel = "\<lambda>p. p" and upd = "\<lambda>_ p. p"])
    (simp_all add: copySlice_def sliceRefs_def sliceVal_ptr)

end

section \<open>Isolation\<close>

text \<open>
  What a deep copy is for: whatever is written into the copy later, the original keeps its value, and whatever is
  written into the original, the copy keeps it.
\<close>

definition isolated :: "('c heap \<Rightarrow> 'x \<Rightarrow> 'v) \<Rightarrow> ('c heap \<Rightarrow> 'x \<Rightarrow> addr set) \<Rightarrow> ('x \<Rightarrow> ('c, 'x) heapM) \<Rightarrow> bool" where
  "isolated val refs copy \<longleftrightarrow> (\<forall>h x x' h'. refs h x \<subseteq> {..<unused h} \<longrightarrow> run_state (copy x) h = (x', h') \<longrightarrow>
     val h' x' = val h x \<and> val h' x = val h x \<and>
     (\<forall>k. agree (- refs h' x') h' k \<longrightarrow> val k x = val h x) \<and>
     (\<forall>k. agree (- refs h' x) h' k \<longrightarrow> val k x' = val h x))"

lemma deep_isolated:
  assumes "deep val refs copy"
  shows "isolated val refs copy"
  unfolding isolated_def
proof (intro allI impI)
  fix h x x' h'
  assume old: "refs h x \<subseteq> {..<unused h}" and run: "run_state (copy x) h = (x', h')"
  note f = framedD [OF deep_frame [OF assms]]
  note 1 = copiesD [OF deep_copies [OF assms] old run]
  have "agree (refs h x) h h'" by (rule agree_mono [of "{..<unused h}"]) (use 1 old in auto)
  note same = f [OF this]
  have "refs h' x \<subseteq> {..<unused h}" "refs h' x' \<subseteq> {unused h..<unused h'}" using 1 old same by simp_all
  then have disjoint: "refs h' x \<subseteq> - refs h' x'" "refs h' x' \<subseteq> - refs h' x" by fastforce+
  have "val k x = val h x" if "agree (- refs h' x') h' k" for k
    using f [OF agree_mono [OF that disjoint(1)]] same by simp
  moreover have "val k x' = val h x" if "agree (- refs h' x) h' k" for k
    using f [OF agree_mono [OF that disjoint(2)]] 1 by simp
  ultimately show "val h' x' = val h x \<and> val h' x = val h x \<and>
     (\<forall>k. agree (- refs h' x') h' k \<longrightarrow> val k x = val h x) \<and>
     (\<forall>k. agree (- refs h' x) h' k \<longrightarrow> val k x' = val h x)"
    using 1 same by blast
qed

end
