(* ===== verification/Deep_Copy.thy ===== *)
theory Deep_Copy
  imports Go_Heap Crd_Types
begin

text \<open>
  \<open>api/v1alpha1/zz_generated.deepcopy.go\<close> on a store.  Everywhere else in this library an object of the
      cluster is a
  value; in Go it is a struct with pointers and slices, which the client's cache and the program share unless it
  is copied.  This theory has the structs with their addresses (a record \<open>...Obj\<close> per type with
      pointers, the
  record of Crd_Types for the others), the value each stands for (\<open>...Val\<close>) and the addresses it is made
      of (\<open>...Refs\<close>), and
  every generated method, statement by statement.  \<open>new(T)\<close> followed by
      \<open>(*in).DeepCopyInto(*out)\<close> is a
  \<open>copyPtr\<close> (which takes the new address after the fields, where \<open>new\<close> takes it before
      them), \<open>make\<close> with
  \<open>copy\<close> or with the loop a \<open>copySlice\<close>.
\<close>

section \<open>Types\<close>

record typeMeta =
  Kind :: string
  APIVersion :: string

record ListMeta =
  listResourceVersion :: string
  Continue :: string
  RemainingItemCount :: "int option"

record claimSpecObj =
  coTenantId :: string
  coWorkloadRef :: string
  coResume :: ref

record claimStatusObj =
  coPhase :: string
  coInstanceId :: string
  coEndpoint :: ref
  coSource :: string
  coClaimedAt :: ref
  coDetail :: string

record poolSpecObj =
  poWorkloadRef :: string
  poSize :: int
  poMaxFillConcurrency :: ref

record guardObj =
  goType :: string
  goConfig :: ref

record triggerSpecObj =
  toType :: string
  toWorkloadRef :: string
  toTenant :: ref
  toDriver :: string
  toDriverOptions :: ref
  toGuards :: ref
  toConfig :: ref

record headerSourceObj =
  hsSecretKeyRef :: ref

record headerObj =
  hoName :: string
  hoValue :: string
  hoValueFrom :: ref

record credentialObj =
  crdDomain :: string
  crdHeaders :: ref

record networkObj =
  noAccess :: string
  noExpose :: ref
  noAllowlist :: ref
  noCredentials :: ref
  noWebsocket :: string

record filesystemObj =
  foOverlayDirs :: ref
  foEncryptOverlays :: ref

record idleObj =
  ioTimeoutSeconds :: int
  ioAction :: string
  ioWatchDirs :: ref

record execObj =
  eoCommand :: ref

record healthObj =
  heIntervalSeconds :: int
  heUnhealthyThreshold :: int
  heHTTPGet :: ref
  heExec :: ref

record entrypointObj =
  enCmd :: string
  enArgs :: ref
  enEnv :: ref
  enWorkdir :: string

record apiAccessObj =
  aoScopes :: ref

record workloadSpecObj =
  woVersion :: string
  woImage :: WorkloadImage
  woResources :: WorkloadResources
  woNetwork :: ref
  woFilesystem :: ref
  woIdle :: ref
  woHealth :: ref
  woEntrypoint :: ref
  woAPIAccess :: ref

record 'l claimObj =
  claimObjType :: typeMeta
  claimObjMeta :: "'l"
  claimObjSpec :: claimSpecObj
  claimObjStatus :: claimStatusObj

record 'l poolObj =
  poolObjType :: typeMeta
  poolObjMeta :: "'l"
  poolObjSpec :: poolSpecObj
  poolObjStatus :: BoilerhousePoolStatus

record 'l triggerObj =
  triggerObjType :: typeMeta
  triggerObjMeta :: "'l"
  triggerObjSpec :: triggerSpecObj
  triggerObjStatus :: BoilerhouseTriggerStatus

record 'l workloadObj =
  workloadObjType :: typeMeta
  workloadObjMeta :: "'l"
  workloadObjSpec :: workloadSpecObj
  workloadObjStatus :: BoilerhouseWorkloadStatus

text \<open>The four list types have the same fields; \<open>listObjItems\<close> is the slice.\<close>

record 'l objList =
  listObjType :: typeMeta
  listObjMeta :: "'l"
  listObjItems :: ref

text \<open>
  What an address can lead to: a cell per type of pointer target and per type of array.  \<open>'l\<close> are the
      structs of the library
  (\<open>ObjectMeta\<close>, \<open>ListMeta\<close>, \<open>RawExtension\<close>), which bring their own cells.
\<close>

datatype scalarCell =
    BoolCell (theBool: "bool")
  | IntCell (theInt: "int")
  | StringsCell (theStrings: "string list")
  | PortsCell (thePorts: "NetworkExposePort list")
  | ClaimEndpointCell (theClaimEndpoint: "ClaimEndpoint")
  | PoolStatusCell (thePoolStatus: "BoilerhousePoolStatus")
  | TriggerStatusCell (theTriggerStatus: "BoilerhouseTriggerStatus")
  | WorkloadStatusCell (theWorkloadStatus: "BoilerhouseWorkloadStatus")
  | HealthHTTPGetCell (theHealthHTTPGet: "HealthHTTPGet")
  | NetworkExposePortCell (theNetworkExposePort: "NetworkExposePort")
  | SecretKeyRefCell (theSecretKeyRef: "SecretKeyRef")
  | TriggerTenantCell (theTriggerTenant: "TriggerTenant")
  | WorkloadImageCell (theWorkloadImage: "WorkloadImage")
  | WorkloadResourcesCell (theWorkloadResources: "WorkloadResources")

datatype specCell =
    GuardsCell (theGuards: "guardObj list")
  | ClaimSpecCell (theClaimSpec: "claimSpecObj")
  | ClaimStatusCell (theClaimStatus: "claimStatusObj")
  | PoolSpecCell (thePoolSpec: "poolSpecObj")
  | TriggerGuardCell (theTriggerGuard: "guardObj")
  | TriggerSpecCell (theTriggerSpec: "triggerSpecObj")

datatype workCell =
    HeadersCell (theHeaders: "headerObj list")
  | CredentialsCell (theCredentials: "credentialObj list")
  | HeaderValueSourceCell (theHeaderValueSource: "headerSourceObj")
  | HeaderEntryCell (theHeaderEntry: "headerObj")
  | NetworkCredentialCell (theNetworkCredential: "credentialObj")
  | WorkloadNetworkCell (theWorkloadNetwork: "networkObj")
  | WorkloadFilesystemCell (theWorkloadFilesystem: "filesystemObj")
  | WorkloadIdleCell (theWorkloadIdle: "idleObj")
  | HealthExecCell (theHealthExec: "execObj")
  | WorkloadHealthCell (theWorkloadHealth: "healthObj")
  | WorkloadEntrypointCell (theWorkloadEntrypoint: "entrypointObj")
  | WorkloadAPIAccessCell (theWorkloadAPIAccess: "apiAccessObj")
  | WorkloadSpecCell (theWorkloadSpec: "workloadSpecObj")

datatype 'l objectCell =
    RawCell (theRaw: "'l")
  | ClaimsCell (theClaims: "'l claimObj list")
  | PoolsCell (thePools: "'l poolObj list")
  | TriggersCell (theTriggers: "'l triggerObj list")
  | WorkloadsCell (theWorkloads: "'l workloadObj list")
  | ClaimCell (theClaim: "'l claimObj")
  | PoolCell (thePool: "'l poolObj")
  | TriggerCell (theTrigger: "'l triggerObj")
  | WorkloadCell (theWorkload: "'l workloadObj")
  | ClaimListCell (theClaimList: "'l objList")
  | PoolListCell (thePoolList: "'l objList")
  | TriggerListCell (theTriggerList: "'l objList")
  | WorkloadListCell (theWorkloadList: "'l objList")
  | LibraryCell (theLibrary: "'l")

datatype 'l cell = Scalar (theScalar: scalarCell) | Spec (theSpec: specCell) | Work (theWork: workCell)
  | Object (theObject: "'l objectCell")

interpretation boolCell: cell_kind "Scalar \<circ> BoolCell" "theBool \<circ> theScalar" by unfold_locales simp
interpretation intCell: cell_kind "Scalar \<circ> IntCell" "theInt \<circ> theScalar" by unfold_locales simp
interpretation stringsCell: array_kind "Scalar \<circ> StringsCell" "theStrings \<circ> theScalar" by unfold_locales
    simp
interpretation rawCell: cell_kind "Object \<circ> RawCell" "theRaw \<circ> theObject" by unfold_locales simp
interpretation guardsCell: array_kind "Spec \<circ> GuardsCell" "theGuards \<circ> theSpec" by unfold_locales simp
interpretation headersCell: array_kind "Work \<circ> HeadersCell" "theHeaders \<circ> theWork" by unfold_locales simp
interpretation portsCell: array_kind "Scalar \<circ> PortsCell" "thePorts \<circ> theScalar" by unfold_locales simp
interpretation credentialsCell: array_kind "Work \<circ> CredentialsCell" "theCredentials \<circ> theWork" by
    unfold_locales simp
interpretation claimsCell: array_kind "Object \<circ> ClaimsCell" "theClaims \<circ> theObject" by unfold_locales simp
interpretation poolsCell: array_kind "Object \<circ> PoolsCell" "thePools \<circ> theObject" by unfold_locales simp
interpretation triggersCell: array_kind "Object \<circ> TriggersCell" "theTriggers \<circ> theObject" by
    unfold_locales simp
interpretation workloadsCell: array_kind "Object \<circ> WorkloadsCell" "theWorkloads \<circ> theObject" by
    unfold_locales simp
interpretation claimEndpointCell: cell_kind "Scalar \<circ> ClaimEndpointCell" "theClaimEndpoint \<circ> theScalar"
    by unfold_locales simp
interpretation poolStatusCell: cell_kind "Scalar \<circ> PoolStatusCell" "thePoolStatus \<circ> theScalar" by
    unfold_locales simp
interpretation triggerStatusCell: cell_kind "Scalar \<circ> TriggerStatusCell" "theTriggerStatus \<circ> theScalar"
    by unfold_locales simp
interpretation workloadStatusCell: cell_kind "Scalar \<circ> WorkloadStatusCell" "theWorkloadStatus \<circ>
    theScalar" by unfold_locales simp
interpretation healthHTTPGetCell: cell_kind "Scalar \<circ> HealthHTTPGetCell" "theHealthHTTPGet \<circ> theScalar"
    by unfold_locales simp
interpretation networkExposePortCell: cell_kind "Scalar \<circ> NetworkExposePortCell" "theNetworkExposePort \<circ>
    theScalar" by unfold_locales simp
interpretation secretKeyRefCell: cell_kind "Scalar \<circ> SecretKeyRefCell" "theSecretKeyRef \<circ> theScalar" by
    unfold_locales simp
interpretation triggerTenantCell: cell_kind "Scalar \<circ> TriggerTenantCell" "theTriggerTenant \<circ> theScalar"
    by unfold_locales simp
interpretation workloadImageCell: cell_kind "Scalar \<circ> WorkloadImageCell" "theWorkloadImage \<circ> theScalar"
    by unfold_locales simp
interpretation workloadResourcesCell: cell_kind "Scalar \<circ> WorkloadResourcesCell" "theWorkloadResources \<circ>
    theScalar" by unfold_locales simp
interpretation claimSpecCell: cell_kind "Spec \<circ> ClaimSpecCell" "theClaimSpec \<circ> theSpec" by unfold_locales
    simp
interpretation claimStatusCell: cell_kind "Spec \<circ> ClaimStatusCell" "theClaimStatus \<circ> theSpec" by
    unfold_locales simp
interpretation poolSpecCell: cell_kind "Spec \<circ> PoolSpecCell" "thePoolSpec \<circ> theSpec" by unfold_locales
    simp
interpretation triggerGuardCell: cell_kind "Spec \<circ> TriggerGuardCell" "theTriggerGuard \<circ> theSpec" by
    unfold_locales simp
interpretation triggerSpecCell: cell_kind "Spec \<circ> TriggerSpecCell" "theTriggerSpec \<circ> theSpec" by
    unfold_locales simp
interpretation headerValueSourceCell: cell_kind "Work \<circ> HeaderValueSourceCell" "theHeaderValueSource \<circ>
    theWork" by unfold_locales simp
interpretation headerEntryCell: cell_kind "Work \<circ> HeaderEntryCell" "theHeaderEntry \<circ> theWork" by
    unfold_locales simp
interpretation networkCredentialCell: cell_kind "Work \<circ> NetworkCredentialCell" "theNetworkCredential \<circ>
    theWork" by unfold_locales simp
interpretation workloadNetworkCell: cell_kind "Work \<circ> WorkloadNetworkCell" "theWorkloadNetwork \<circ> theWork"
    by unfold_locales simp
interpretation workloadFilesystemCell: cell_kind "Work \<circ> WorkloadFilesystemCell" "theWorkloadFilesystem \<circ>
    theWork" by unfold_locales simp
interpretation workloadIdleCell: cell_kind "Work \<circ> WorkloadIdleCell" "theWorkloadIdle \<circ> theWork" by
    unfold_locales simp
interpretation healthExecCell: cell_kind "Work \<circ> HealthExecCell" "theHealthExec \<circ> theWork" by
    unfold_locales simp
interpretation workloadHealthCell: cell_kind "Work \<circ> WorkloadHealthCell" "theWorkloadHealth \<circ> theWork" by
    unfold_locales simp
interpretation workloadEntrypointCell: cell_kind "Work \<circ> WorkloadEntrypointCell" "theWorkloadEntrypoint \<circ>
    theWork" by unfold_locales simp
interpretation workloadAPIAccessCell: cell_kind "Work \<circ> WorkloadAPIAccessCell" "theWorkloadAPIAccess \<circ>
    theWork" by unfold_locales simp
interpretation workloadSpecCell: cell_kind "Work \<circ> WorkloadSpecCell" "theWorkloadSpec \<circ> theWork" by
    unfold_locales simp
interpretation claimCell: cell_kind "Object \<circ> ClaimCell" "theClaim \<circ> theObject" by unfold_locales simp
interpretation poolCell: cell_kind "Object \<circ> PoolCell" "thePool \<circ> theObject" by unfold_locales simp
interpretation triggerCell: cell_kind "Object \<circ> TriggerCell" "theTrigger \<circ> theObject" by unfold_locales
    simp
interpretation workloadCell: cell_kind "Object \<circ> WorkloadCell" "theWorkload \<circ> theObject" by
    unfold_locales simp
interpretation claimListCell: cell_kind "Object \<circ> ClaimListCell" "theClaimList \<circ> theObject" by
    unfold_locales simp
interpretation poolListCell: cell_kind "Object \<circ> PoolListCell" "thePoolList \<circ> theObject" by
    unfold_locales simp
interpretation triggerListCell: cell_kind "Object \<circ> TriggerListCell" "theTriggerList \<circ> theObject" by
    unfold_locales simp
interpretation workloadListCell: cell_kind "Object \<circ> WorkloadListCell" "theWorkloadList \<circ> theObject" by
    unfold_locales simp
interpretation libraryCell: cell_kind "Object \<circ> LibraryCell" "theLibrary \<circ> theObject" by unfold_locales
    simp

section \<open>The library\<close>

text \<open>
  \<open>k8s.io/apimachinery\<close>: the structs of its types, the values they stand for and their deep copies, with
      the contract
  those have by their documentation.
\<close>

record 'l library =
  metaVal :: "'l cell heap \<Rightarrow> 'l \<Rightarrow> ObjectMeta"
  metaRefs :: "'l cell heap \<Rightarrow> 'l \<Rightarrow> addr set"
  metaCopy :: "'l \<Rightarrow> ('l cell, 'l) heapM"
  listMetaVal :: "'l cell heap \<Rightarrow> 'l \<Rightarrow> ListMeta"
  listMetaRefs :: "'l cell heap \<Rightarrow> 'l \<Rightarrow> addr set"
  listMetaCopy :: "'l \<Rightarrow> ('l cell, 'l) heapM"
  rawVal :: "'l cell heap \<Rightarrow> 'l \<Rightarrow> RawExtension"
  rawRefs :: "'l cell heap \<Rightarrow> 'l \<Rightarrow> addr set"
  rawCopy :: "'l \<Rightarrow> ('l cell, 'l) heapM"
  timeVal :: "'l cell heap \<Rightarrow> addr \<Rightarrow> int"
  timeRefs :: "'l cell heap \<Rightarrow> addr \<Rightarrow> addr set"
  timeCopy :: "addr \<Rightarrow> ('l cell, addr) heapM"

definition lawful :: "'l library \<Rightarrow> bool" where
  "lawful L \<longleftrightarrow> deep (metaVal L) (metaRefs L) (metaCopy L) \<and>
     deep (listMetaVal L) (listMetaRefs L) (listMetaCopy L) \<and>
     deep (rawVal L) (rawRefs L) (rawCopy L) \<and> deep (timeVal L) (timeRefs L) (timeCopy L)"

lemma lawful_meta: "lawful L \<Longrightarrow> deep (metaVal L) (metaRefs L) (metaCopy L)"
  and lawful_listMeta: "lawful L \<Longrightarrow> deep (listMetaVal L) (listMetaRefs L) (listMetaCopy L)"
  and lawful_raw: "lawful L \<Longrightarrow> deep (rawVal L) (rawRefs L) (rawCopy L)"
  and lawful_time: "lawful L \<Longrightarrow> deep (timeVal L) (timeRefs L) (timeCopy L)"
  by (simp_all add: lawful_def)

section \<open>Structs without pointers\<close>

definition ClaimEndpoint_DeepCopyInto :: "ClaimEndpoint \<Rightarrow> ('l cell, ClaimEndpoint) heapM" where
  "ClaimEndpoint_DeepCopyInto s = giving s"

definition ClaimEndpoint_DeepCopy :: "ref \<Rightarrow> ('l cell, ref) heapM" where
  "ClaimEndpoint_DeepCopy = copyPtr (Scalar \<circ> ClaimEndpointCell) (theClaimEndpoint \<circ> theScalar)
      ClaimEndpoint_DeepCopyInto"

definition BoilerhousePoolStatus_DeepCopyInto :: "BoilerhousePoolStatus \<Rightarrow> ('l cell,
    BoilerhousePoolStatus) heapM" where
  "BoilerhousePoolStatus_DeepCopyInto s = giving s"

definition BoilerhousePoolStatus_DeepCopy :: "ref \<Rightarrow> ('l cell, ref) heapM" where
  "BoilerhousePoolStatus_DeepCopy = copyPtr (Scalar \<circ> PoolStatusCell) (thePoolStatus \<circ> theScalar)
      BoilerhousePoolStatus_DeepCopyInto"

definition BoilerhouseTriggerStatus_DeepCopyInto :: "BoilerhouseTriggerStatus \<Rightarrow> ('l cell,
    BoilerhouseTriggerStatus) heapM" where
  "BoilerhouseTriggerStatus_DeepCopyInto s = giving s"

definition BoilerhouseTriggerStatus_DeepCopy :: "ref \<Rightarrow> ('l cell, ref) heapM" where
  "BoilerhouseTriggerStatus_DeepCopy = copyPtr (Scalar \<circ> TriggerStatusCell) (theTriggerStatus \<circ>
      theScalar) BoilerhouseTriggerStatus_DeepCopyInto"

definition BoilerhouseWorkloadStatus_DeepCopyInto :: "BoilerhouseWorkloadStatus \<Rightarrow> ('l cell,
    BoilerhouseWorkloadStatus) heapM" where
  "BoilerhouseWorkloadStatus_DeepCopyInto s = giving s"

definition BoilerhouseWorkloadStatus_DeepCopy :: "ref \<Rightarrow> ('l cell, ref) heapM" where
  "BoilerhouseWorkloadStatus_DeepCopy = copyPtr (Scalar \<circ> WorkloadStatusCell) (theWorkloadStatus \<circ>
      theScalar) BoilerhouseWorkloadStatus_DeepCopyInto"

definition HealthHTTPGet_DeepCopyInto :: "HealthHTTPGet \<Rightarrow> ('l cell, HealthHTTPGet) heapM" where
  "HealthHTTPGet_DeepCopyInto s = giving s"

definition HealthHTTPGet_DeepCopy :: "ref \<Rightarrow> ('l cell, ref) heapM" where
  "HealthHTTPGet_DeepCopy = copyPtr (Scalar \<circ> HealthHTTPGetCell) (theHealthHTTPGet \<circ> theScalar)
      HealthHTTPGet_DeepCopyInto"

definition NetworkExposePort_DeepCopyInto :: "NetworkExposePort \<Rightarrow> ('l cell, NetworkExposePort) heapM"
    where
  "NetworkExposePort_DeepCopyInto s = giving s"

definition NetworkExposePort_DeepCopy :: "ref \<Rightarrow> ('l cell, ref) heapM" where
  "NetworkExposePort_DeepCopy = copyPtr (Scalar \<circ> NetworkExposePortCell) (theNetworkExposePort \<circ>
      theScalar) NetworkExposePort_DeepCopyInto"

definition SecretKeyRef_DeepCopyInto :: "SecretKeyRef \<Rightarrow> ('l cell, SecretKeyRef) heapM" where
  "SecretKeyRef_DeepCopyInto s = giving s"

definition SecretKeyRef_DeepCopy :: "ref \<Rightarrow> ('l cell, ref) heapM" where
  "SecretKeyRef_DeepCopy = copyPtr (Scalar \<circ> SecretKeyRefCell) (theSecretKeyRef \<circ> theScalar)
      SecretKeyRef_DeepCopyInto"

definition TriggerTenant_DeepCopyInto :: "TriggerTenant \<Rightarrow> ('l cell, TriggerTenant) heapM" where
  "TriggerTenant_DeepCopyInto s = giving s"

definition TriggerTenant_DeepCopy :: "ref \<Rightarrow> ('l cell, ref) heapM" where
  "TriggerTenant_DeepCopy = copyPtr (Scalar \<circ> TriggerTenantCell) (theTriggerTenant \<circ> theScalar)
      TriggerTenant_DeepCopyInto"

definition WorkloadImage_DeepCopyInto :: "WorkloadImage \<Rightarrow> ('l cell, WorkloadImage) heapM" where
  "WorkloadImage_DeepCopyInto s = giving s"

definition WorkloadImage_DeepCopy :: "ref \<Rightarrow> ('l cell, ref) heapM" where
  "WorkloadImage_DeepCopy = copyPtr (Scalar \<circ> WorkloadImageCell) (theWorkloadImage \<circ> theScalar)
      WorkloadImage_DeepCopyInto"

definition WorkloadResources_DeepCopyInto :: "WorkloadResources \<Rightarrow> ('l cell, WorkloadResources) heapM"
    where
  "WorkloadResources_DeepCopyInto s = giving s"

definition WorkloadResources_DeepCopy :: "ref \<Rightarrow> ('l cell, ref) heapM" where
  "WorkloadResources_DeepCopy = copyPtr (Scalar \<circ> WorkloadResourcesCell) (theWorkloadResources \<circ>
      theScalar) WorkloadResources_DeepCopyInto"

lemma deep_ClaimEndpoint: "deep plain noRefs ClaimEndpoint_DeepCopyInto"
  unfolding ClaimEndpoint_DeepCopyInto_def by (rule deep_plain)

lemma deep_BoilerhousePoolStatus: "deep plain noRefs BoilerhousePoolStatus_DeepCopyInto"
  unfolding BoilerhousePoolStatus_DeepCopyInto_def by (rule deep_plain)

lemma deep_BoilerhouseTriggerStatus: "deep plain noRefs BoilerhouseTriggerStatus_DeepCopyInto"
  unfolding BoilerhouseTriggerStatus_DeepCopyInto_def by (rule deep_plain)

lemma deep_BoilerhouseWorkloadStatus: "deep plain noRefs BoilerhouseWorkloadStatus_DeepCopyInto"
  unfolding BoilerhouseWorkloadStatus_DeepCopyInto_def by (rule deep_plain)

lemma deep_HealthHTTPGet: "deep plain noRefs HealthHTTPGet_DeepCopyInto"
  unfolding HealthHTTPGet_DeepCopyInto_def by (rule deep_plain)

lemma deep_NetworkExposePort: "deep plain noRefs NetworkExposePort_DeepCopyInto"
  unfolding NetworkExposePort_DeepCopyInto_def by (rule deep_plain)

lemma deep_SecretKeyRef: "deep plain noRefs SecretKeyRef_DeepCopyInto"
  unfolding SecretKeyRef_DeepCopyInto_def by (rule deep_plain)

lemma deep_TriggerTenant: "deep plain noRefs TriggerTenant_DeepCopyInto"
  unfolding TriggerTenant_DeepCopyInto_def by (rule deep_plain)

lemma deep_WorkloadImage: "deep plain noRefs WorkloadImage_DeepCopyInto"
  unfolding WorkloadImage_DeepCopyInto_def by (rule deep_plain)

lemma deep_WorkloadResources: "deep plain noRefs WorkloadResources_DeepCopyInto"
  unfolding WorkloadResources_DeepCopyInto_def by (rule deep_plain)

section \<open>Structs with pointers\<close>

definition claimSpecVal :: "'l cell heap \<Rightarrow> claimSpecObj \<Rightarrow> BoilerhouseClaimSpec" where
  "claimSpecVal h s = \<lparr>claimTenantId = coTenantId s,
     claimWorkloadRef = coWorkloadRef s,
     claimResume = ptrVal (theBool \<circ> theScalar) plain h (coResume s)\<rparr>"

definition claimSpecRefs :: "'l cell heap \<Rightarrow> claimSpecObj \<Rightarrow> addr set" where
  "claimSpecRefs h s = ptrRefs (theBool \<circ> theScalar) noRefs h (coResume s)"

definition BoilerhouseClaimSpec_DeepCopyInto :: "claimSpecObj \<Rightarrow> ('l cell, claimSpecObj) heapM" where
  "BoilerhouseClaimSpec_DeepCopyInto s = do {
     a \<leftarrow> copyPtr (Scalar \<circ> BoolCell) (theBool \<circ> theScalar) giving (coResume s);
     giving (s\<lparr>coResume := a\<rparr>)
   }"

definition BoilerhouseClaimSpec_DeepCopy :: "ref \<Rightarrow> ('l cell, ref) heapM" where
  "BoilerhouseClaimSpec_DeepCopy = copyPtr (Spec \<circ> ClaimSpecCell) (theClaimSpec \<circ> theSpec)
      BoilerhouseClaimSpec_DeepCopyInto"

lemma deep_BoilerhouseClaimSpec:
  shows "deep claimSpecVal claimSpecRefs BoilerhouseClaimSpec_DeepCopyInto"
  by (rule deep_struct [OF boolCell.deep_ptr [OF deep_plain],
      where sel = "\<lambda>s. coResume s" and upd = "\<lambda>s a. s\<lparr>coResume := a\<rparr>"])
    (simp_all add: claimSpecVal_def claimSpecRefs_def BoilerhouseClaimSpec_DeepCopyInto_def copyBoth_def Un_assoc
        case_prod_beta)

definition claimStatusVal :: "'l library \<Rightarrow> 'l cell heap \<Rightarrow> claimStatusObj \<Rightarrow>
    BoilerhouseClaimStatus" where
  "claimStatusVal L h s = \<lparr>claimPhase = coPhase s,
     InstanceId = coInstanceId s,
     Endpoint = ptrVal (theClaimEndpoint \<circ> theScalar) plain h (coEndpoint s),
     Source = coSource s,
     ClaimedAt = optVal (timeVal L) h (coClaimedAt s),
     claimDetail = coDetail s\<rparr>"

definition claimStatusRefs :: "'l library \<Rightarrow> 'l cell heap \<Rightarrow> claimStatusObj \<Rightarrow> addr
    set" where
  "claimStatusRefs L h s = ptrRefs (theClaimEndpoint \<circ> theScalar) noRefs h (coEndpoint s) \<union>
     optRefs (timeRefs L) h (coClaimedAt s)"

definition BoilerhouseClaimStatus_DeepCopyInto :: "'l library \<Rightarrow> claimStatusObj \<Rightarrow> ('l cell,
    claimStatusObj) heapM" where
  "BoilerhouseClaimStatus_DeepCopyInto L s = do {
     a \<leftarrow> copyPtr (Scalar \<circ> ClaimEndpointCell) (theClaimEndpoint \<circ> theScalar) giving
         (coEndpoint s);
     b \<leftarrow> copyOpt (timeCopy L) (coClaimedAt s);
     giving (s\<lparr>coEndpoint := a, coClaimedAt := b\<rparr>)
   }"

definition BoilerhouseClaimStatus_DeepCopy :: "'l library \<Rightarrow> ref \<Rightarrow> ('l cell, ref) heapM" where
  "BoilerhouseClaimStatus_DeepCopy L = copyPtr (Spec \<circ> ClaimStatusCell) (theClaimStatus \<circ> theSpec)
      (BoilerhouseClaimStatus_DeepCopyInto L)"

lemma deep_BoilerhouseClaimStatus:
  assumes "lawful L"
  shows "deep (claimStatusVal L) (claimStatusRefs L) (BoilerhouseClaimStatus_DeepCopyInto L)"
  by (rule deep_struct [OF deep_both [OF claimEndpointCell.deep_ptr [OF deep_plain] deep_opt [OF lawful_time [OF
      assms]]],
      where sel = "\<lambda>s. (coEndpoint s, coClaimedAt s)" and upd = "\<lambda>s (a, b). s\<lparr>coEndpoint := a,
          coClaimedAt := b\<rparr>"])
    (simp_all add: claimStatusVal_def claimStatusRefs_def BoilerhouseClaimStatus_DeepCopyInto_def copyBoth_def
        Un_assoc case_prod_beta)

definition claimVal :: "'l library \<Rightarrow> 'l cell heap \<Rightarrow> 'l claimObj \<Rightarrow> typeMeta
    \<times> BoilerhouseClaim" where
  "claimVal L h s = (claimObjType s, \<lparr>claimMeta = metaVal L h (claimObjMeta s),
     claimSpec = claimSpecVal h (claimObjSpec s),
     claimStatus = claimStatusVal L h (claimObjStatus s)\<rparr>)"

definition claimRefs :: "'l library \<Rightarrow> 'l cell heap \<Rightarrow> 'l claimObj \<Rightarrow> addr set" where
  "claimRefs L h s = metaRefs L h (claimObjMeta s) \<union>
     claimSpecRefs h (claimObjSpec s) \<union>
     claimStatusRefs L h (claimObjStatus s)"

definition BoilerhouseClaim_DeepCopyInto :: "'l library \<Rightarrow> 'l claimObj \<Rightarrow> ('l cell, 'l
    claimObj) heapM" where
  "BoilerhouseClaim_DeepCopyInto L s = do {
     a \<leftarrow> metaCopy L (claimObjMeta s);
     b \<leftarrow> BoilerhouseClaimSpec_DeepCopyInto (claimObjSpec s);
     c \<leftarrow> BoilerhouseClaimStatus_DeepCopyInto L (claimObjStatus s);
     giving (s\<lparr>claimObjMeta := a, claimObjSpec := b, claimObjStatus := c\<rparr>)
   }"

definition BoilerhouseClaim_DeepCopy :: "'l library \<Rightarrow> ref \<Rightarrow> ('l cell, ref) heapM" where
  "BoilerhouseClaim_DeepCopy L = copyPtr (Object \<circ> ClaimCell) (theClaim \<circ> theObject)
      (BoilerhouseClaim_DeepCopyInto L)"

lemma deep_BoilerhouseClaim:
  assumes "lawful L"
  shows "deep (claimVal L) (claimRefs L) (BoilerhouseClaim_DeepCopyInto L)"
  by (rule deep_struct [OF deep_both [OF lawful_meta [OF assms] deep_both [OF deep_BoilerhouseClaimSpec
      deep_BoilerhouseClaimStatus [OF assms]]],
      where sel = "\<lambda>s. (claimObjMeta s, claimObjSpec s, claimObjStatus s)" and upd = "\<lambda>s (a, b, c).
          s\<lparr>claimObjMeta := a, claimObjSpec := b, claimObjStatus := c\<rparr>"])
    (simp_all add: claimVal_def claimRefs_def BoilerhouseClaim_DeepCopyInto_def copyBoth_def Un_assoc case_prod_beta)

definition poolSpecVal :: "'l cell heap \<Rightarrow> poolSpecObj \<Rightarrow> BoilerhousePoolSpec" where
  "poolSpecVal h s = \<lparr>poolWorkloadRef = poWorkloadRef s,
     poolSize = poSize s,
     MaxFillConcurrency = ptrVal (theInt \<circ> theScalar) plain h (poMaxFillConcurrency s)\<rparr>"

definition poolSpecRefs :: "'l cell heap \<Rightarrow> poolSpecObj \<Rightarrow> addr set" where
  "poolSpecRefs h s = ptrRefs (theInt \<circ> theScalar) noRefs h (poMaxFillConcurrency s)"

definition BoilerhousePoolSpec_DeepCopyInto :: "poolSpecObj \<Rightarrow> ('l cell, poolSpecObj) heapM" where
  "BoilerhousePoolSpec_DeepCopyInto s = do {
     a \<leftarrow> copyPtr (Scalar \<circ> IntCell) (theInt \<circ> theScalar) giving (poMaxFillConcurrency s);
     giving (s\<lparr>poMaxFillConcurrency := a\<rparr>)
   }"

definition BoilerhousePoolSpec_DeepCopy :: "ref \<Rightarrow> ('l cell, ref) heapM" where
  "BoilerhousePoolSpec_DeepCopy = copyPtr (Spec \<circ> PoolSpecCell) (thePoolSpec \<circ> theSpec)
      BoilerhousePoolSpec_DeepCopyInto"

lemma deep_BoilerhousePoolSpec:
  shows "deep poolSpecVal poolSpecRefs BoilerhousePoolSpec_DeepCopyInto"
  by (rule deep_struct [OF intCell.deep_ptr [OF deep_plain],
      where sel = "\<lambda>s. poMaxFillConcurrency s" and upd = "\<lambda>s a. s\<lparr>poMaxFillConcurrency :=
          a\<rparr>"])
    (simp_all add: poolSpecVal_def poolSpecRefs_def BoilerhousePoolSpec_DeepCopyInto_def copyBoth_def Un_assoc
        case_prod_beta)

definition poolVal :: "'l library \<Rightarrow> 'l cell heap \<Rightarrow> 'l poolObj \<Rightarrow> typeMeta \<times>
    BoilerhousePool" where
  "poolVal L h s = (poolObjType s, \<lparr>poolMeta = metaVal L h (poolObjMeta s),
     poolSpec = poolSpecVal h (poolObjSpec s),
     poolStatus = poolObjStatus s\<rparr>)"

definition poolRefs :: "'l library \<Rightarrow> 'l cell heap \<Rightarrow> 'l poolObj \<Rightarrow> addr set" where
  "poolRefs L h s = metaRefs L h (poolObjMeta s) \<union>
     poolSpecRefs h (poolObjSpec s)"

definition BoilerhousePool_DeepCopyInto :: "'l library \<Rightarrow> 'l poolObj \<Rightarrow> ('l cell, 'l poolObj)
    heapM" where
  "BoilerhousePool_DeepCopyInto L s = do {
     a \<leftarrow> metaCopy L (poolObjMeta s);
     b \<leftarrow> BoilerhousePoolSpec_DeepCopyInto (poolObjSpec s);
     giving (s\<lparr>poolObjMeta := a, poolObjSpec := b\<rparr>)
   }"

definition BoilerhousePool_DeepCopy :: "'l library \<Rightarrow> ref \<Rightarrow> ('l cell, ref) heapM" where
  "BoilerhousePool_DeepCopy L = copyPtr (Object \<circ> PoolCell) (thePool \<circ> theObject)
      (BoilerhousePool_DeepCopyInto L)"

lemma deep_BoilerhousePool:
  assumes "lawful L"
  shows "deep (poolVal L) (poolRefs L) (BoilerhousePool_DeepCopyInto L)"
  by (rule deep_struct [OF deep_both [OF lawful_meta [OF assms] deep_BoilerhousePoolSpec],
      where sel = "\<lambda>s. (poolObjMeta s, poolObjSpec s)" and upd = "\<lambda>s (a, b). s\<lparr>poolObjMeta :=
          a, poolObjSpec := b\<rparr>"])
    (simp_all add: poolVal_def poolRefs_def BoilerhousePool_DeepCopyInto_def copyBoth_def Un_assoc case_prod_beta)

definition triggerGuardVal :: "'l library \<Rightarrow> 'l cell heap \<Rightarrow> guardObj \<Rightarrow>
    TriggerGuard" where
  "triggerGuardVal L h s = \<lparr>guardType = goType s,
     guardConfig = ptrVal (theRaw \<circ> theObject) (rawVal L) h (goConfig s)\<rparr>"

definition triggerGuardRefs :: "'l library \<Rightarrow> 'l cell heap \<Rightarrow> guardObj \<Rightarrow> addr set"
    where
  "triggerGuardRefs L h s = ptrRefs (theRaw \<circ> theObject) (rawRefs L) h (goConfig s)"

definition TriggerGuard_DeepCopyInto :: "'l library \<Rightarrow> guardObj \<Rightarrow> ('l cell, guardObj) heapM"
    where
  "TriggerGuard_DeepCopyInto L s = do {
     a \<leftarrow> copyPtr (Object \<circ> RawCell) (theRaw \<circ> theObject) (rawCopy L) (goConfig s);
     giving (s\<lparr>goConfig := a\<rparr>)
   }"

definition TriggerGuard_DeepCopy :: "'l library \<Rightarrow> ref \<Rightarrow> ('l cell, ref) heapM" where
  "TriggerGuard_DeepCopy L = copyPtr (Spec \<circ> TriggerGuardCell) (theTriggerGuard \<circ> theSpec)
      (TriggerGuard_DeepCopyInto L)"

lemma deep_TriggerGuard:
  assumes "lawful L"
  shows "deep (triggerGuardVal L) (triggerGuardRefs L) (TriggerGuard_DeepCopyInto L)"
  by (rule deep_struct [OF rawCell.deep_ptr [OF lawful_raw [OF assms]],
      where sel = "\<lambda>s. goConfig s" and upd = "\<lambda>s a. s\<lparr>goConfig := a\<rparr>"])
    (simp_all add: triggerGuardVal_def triggerGuardRefs_def TriggerGuard_DeepCopyInto_def copyBoth_def Un_assoc
        case_prod_beta)

definition triggerSpecVal :: "'l library \<Rightarrow> 'l cell heap \<Rightarrow> triggerSpecObj \<Rightarrow>
    BoilerhouseTriggerSpec" where
  "triggerSpecVal L h s = \<lparr>triggerType = toType s,
     triggerWorkloadRef = toWorkloadRef s,
     triggerTenant = ptrVal (theTriggerTenant \<circ> theScalar) plain h (toTenant s),
     triggerDriver = toDriver s,
     DriverOptions = ptrVal (theRaw \<circ> theObject) (rawVal L) h (toDriverOptions s),
     Guards = sliceVal (theGuards \<circ> theSpec) (triggerGuardVal L) h (toGuards s),
     triggerConfig = ptrVal (theRaw \<circ> theObject) (rawVal L) h (toConfig s)\<rparr>"

definition triggerSpecRefs :: "'l library \<Rightarrow> 'l cell heap \<Rightarrow> triggerSpecObj \<Rightarrow> addr
    set" where
  "triggerSpecRefs L h s = ptrRefs (theTriggerTenant \<circ> theScalar) noRefs h (toTenant s) \<union>
     ptrRefs (theRaw \<circ> theObject) (rawRefs L) h (toDriverOptions s) \<union>
     sliceRefs (theGuards \<circ> theSpec) (triggerGuardRefs L) h (toGuards s) \<union>
     ptrRefs (theRaw \<circ> theObject) (rawRefs L) h (toConfig s)"

definition BoilerhouseTriggerSpec_DeepCopyInto :: "'l library \<Rightarrow> triggerSpecObj \<Rightarrow> ('l cell,
    triggerSpecObj) heapM" where
  "BoilerhouseTriggerSpec_DeepCopyInto L s = do {
     a \<leftarrow> copyPtr (Scalar \<circ> TriggerTenantCell) (theTriggerTenant \<circ> theScalar) giving (toTenant
         s);
     b \<leftarrow> copyPtr (Object \<circ> RawCell) (theRaw \<circ> theObject) (rawCopy L) (toDriverOptions s);
     c \<leftarrow> copySlice (Spec \<circ> GuardsCell) (theGuards \<circ> theSpec) (TriggerGuard_DeepCopyInto L)
         (toGuards s);
     d \<leftarrow> copyPtr (Object \<circ> RawCell) (theRaw \<circ> theObject) (rawCopy L) (toConfig s);
     giving (s\<lparr>toTenant := a, toDriverOptions := b, toGuards := c, toConfig := d\<rparr>)
   }"

definition BoilerhouseTriggerSpec_DeepCopy :: "'l library \<Rightarrow> ref \<Rightarrow> ('l cell, ref) heapM" where
  "BoilerhouseTriggerSpec_DeepCopy L = copyPtr (Spec \<circ> TriggerSpecCell) (theTriggerSpec \<circ> theSpec)
      (BoilerhouseTriggerSpec_DeepCopyInto L)"

lemma deep_BoilerhouseTriggerSpec:
  assumes "lawful L"
  shows "deep (triggerSpecVal L) (triggerSpecRefs L) (BoilerhouseTriggerSpec_DeepCopyInto L)"
  by (rule deep_struct [OF deep_both [OF triggerTenantCell.deep_ptr [OF deep_plain] deep_both [OF rawCell.deep_ptr
      [OF lawful_raw [OF assms]] deep_both [OF guardsCell.deep_slice [OF deep_TriggerGuard [OF assms]]
          rawCell.deep_ptr [OF lawful_raw [OF assms]]]]],
      where sel = "\<lambda>s. (toTenant s, toDriverOptions s, toGuards s, toConfig s)" and upd = "\<lambda>s (a, b,
          c, d). s\<lparr>toTenant := a, toDriverOptions := b, toGuards := c, toConfig := d\<rparr>"])
    (simp_all add: triggerSpecVal_def triggerSpecRefs_def BoilerhouseTriggerSpec_DeepCopyInto_def copyBoth_def
        Un_assoc case_prod_beta)

definition triggerVal :: "'l library \<Rightarrow> 'l cell heap \<Rightarrow> 'l triggerObj \<Rightarrow> typeMeta
    \<times> BoilerhouseTrigger" where
  "triggerVal L h s = (triggerObjType s, \<lparr>triggerMeta = metaVal L h (triggerObjMeta s),
     triggerSpec = triggerSpecVal L h (triggerObjSpec s),
     triggerStatus = triggerObjStatus s\<rparr>)"

definition triggerRefs :: "'l library \<Rightarrow> 'l cell heap \<Rightarrow> 'l triggerObj \<Rightarrow> addr set"
    where
  "triggerRefs L h s = metaRefs L h (triggerObjMeta s) \<union>
     triggerSpecRefs L h (triggerObjSpec s)"

definition BoilerhouseTrigger_DeepCopyInto :: "'l library \<Rightarrow> 'l triggerObj \<Rightarrow> ('l cell, 'l
    triggerObj) heapM" where
  "BoilerhouseTrigger_DeepCopyInto L s = do {
     a \<leftarrow> metaCopy L (triggerObjMeta s);
     b \<leftarrow> BoilerhouseTriggerSpec_DeepCopyInto L (triggerObjSpec s);
     giving (s\<lparr>triggerObjMeta := a, triggerObjSpec := b\<rparr>)
   }"

definition BoilerhouseTrigger_DeepCopy :: "'l library \<Rightarrow> ref \<Rightarrow> ('l cell, ref) heapM" where
  "BoilerhouseTrigger_DeepCopy L = copyPtr (Object \<circ> TriggerCell) (theTrigger \<circ> theObject)
      (BoilerhouseTrigger_DeepCopyInto L)"

lemma deep_BoilerhouseTrigger:
  assumes "lawful L"
  shows "deep (triggerVal L) (triggerRefs L) (BoilerhouseTrigger_DeepCopyInto L)"
  by (rule deep_struct [OF deep_both [OF lawful_meta [OF assms] deep_BoilerhouseTriggerSpec [OF assms]],
      where sel = "\<lambda>s. (triggerObjMeta s, triggerObjSpec s)" and upd = "\<lambda>s (a, b).
          s\<lparr>triggerObjMeta := a, triggerObjSpec := b\<rparr>"])
    (simp_all add: triggerVal_def triggerRefs_def BoilerhouseTrigger_DeepCopyInto_def copyBoth_def Un_assoc
        case_prod_beta)

definition headerValueSourceVal :: "'l cell heap \<Rightarrow> headerSourceObj \<Rightarrow> HeaderValueSource" where
  "headerValueSourceVal h s = \<lparr>headerSecretKeyRef = ptrVal (theSecretKeyRef \<circ> theScalar) plain h
      (hsSecretKeyRef s)\<rparr>"

definition headerValueSourceRefs :: "'l cell heap \<Rightarrow> headerSourceObj \<Rightarrow> addr set" where
  "headerValueSourceRefs h s = ptrRefs (theSecretKeyRef \<circ> theScalar) noRefs h (hsSecretKeyRef s)"

definition HeaderValueSource_DeepCopyInto :: "headerSourceObj \<Rightarrow> ('l cell, headerSourceObj) heapM" where
  "HeaderValueSource_DeepCopyInto s = do {
     a \<leftarrow> copyPtr (Scalar \<circ> SecretKeyRefCell) (theSecretKeyRef \<circ> theScalar) giving
         (hsSecretKeyRef s);
     giving (s\<lparr>hsSecretKeyRef := a\<rparr>)
   }"

definition HeaderValueSource_DeepCopy :: "ref \<Rightarrow> ('l cell, ref) heapM" where
  "HeaderValueSource_DeepCopy = copyPtr (Work \<circ> HeaderValueSourceCell) (theHeaderValueSource \<circ> theWork)
      HeaderValueSource_DeepCopyInto"

lemma deep_HeaderValueSource:
  shows "deep headerValueSourceVal headerValueSourceRefs HeaderValueSource_DeepCopyInto"
  by (rule deep_struct [OF secretKeyRefCell.deep_ptr [OF deep_plain],
      where sel = "\<lambda>s. hsSecretKeyRef s" and upd = "\<lambda>s a. s\<lparr>hsSecretKeyRef := a\<rparr>"])
    (simp_all add: headerValueSourceVal_def headerValueSourceRefs_def HeaderValueSource_DeepCopyInto_def copyBoth_def
        Un_assoc case_prod_beta)

definition headerEntryVal :: "'l cell heap \<Rightarrow> headerObj \<Rightarrow> HeaderEntry" where
  "headerEntryVal h s = \<lparr>headerName = hoName s,
     headerValue = hoValue s,
     headerValueFrom = ptrVal (theHeaderValueSource \<circ> theWork) headerValueSourceVal h (hoValueFrom s)\<rparr>"

definition headerEntryRefs :: "'l cell heap \<Rightarrow> headerObj \<Rightarrow> addr set" where
  "headerEntryRefs h s = ptrRefs (theHeaderValueSource \<circ> theWork) headerValueSourceRefs h (hoValueFrom s)"

definition HeaderEntry_DeepCopyInto :: "headerObj \<Rightarrow> ('l cell, headerObj) heapM" where
  "HeaderEntry_DeepCopyInto s = do {
     a \<leftarrow> copyPtr (Work \<circ> HeaderValueSourceCell) (theHeaderValueSource \<circ> theWork)
         HeaderValueSource_DeepCopyInto (hoValueFrom s);
     giving (s\<lparr>hoValueFrom := a\<rparr>)
   }"

definition HeaderEntry_DeepCopy :: "ref \<Rightarrow> ('l cell, ref) heapM" where
  "HeaderEntry_DeepCopy = copyPtr (Work \<circ> HeaderEntryCell) (theHeaderEntry \<circ> theWork)
      HeaderEntry_DeepCopyInto"

lemma deep_HeaderEntry:
  shows "deep headerEntryVal headerEntryRefs HeaderEntry_DeepCopyInto"
  by (rule deep_struct [OF headerValueSourceCell.deep_ptr [OF deep_HeaderValueSource],
      where sel = "\<lambda>s. hoValueFrom s" and upd = "\<lambda>s a. s\<lparr>hoValueFrom := a\<rparr>"])
    (simp_all add: headerEntryVal_def headerEntryRefs_def HeaderEntry_DeepCopyInto_def copyBoth_def Un_assoc
        case_prod_beta)

definition networkCredentialVal :: "'l cell heap \<Rightarrow> credentialObj \<Rightarrow> NetworkCredential" where
  "networkCredentialVal h s = \<lparr>credDomain = crdDomain s,
     credHeaders = sliceVal (theHeaders \<circ> theWork) headerEntryVal h (crdHeaders s)\<rparr>"

definition networkCredentialRefs :: "'l cell heap \<Rightarrow> credentialObj \<Rightarrow> addr set" where
  "networkCredentialRefs h s = sliceRefs (theHeaders \<circ> theWork) headerEntryRefs h (crdHeaders s)"

definition NetworkCredential_DeepCopyInto :: "credentialObj \<Rightarrow> ('l cell, credentialObj) heapM" where
  "NetworkCredential_DeepCopyInto s = do {
     a \<leftarrow> copySlice (Work \<circ> HeadersCell) (theHeaders \<circ> theWork) HeaderEntry_DeepCopyInto
         (crdHeaders s);
     giving (s\<lparr>crdHeaders := a\<rparr>)
   }"

definition NetworkCredential_DeepCopy :: "ref \<Rightarrow> ('l cell, ref) heapM" where
  "NetworkCredential_DeepCopy = copyPtr (Work \<circ> NetworkCredentialCell) (theNetworkCredential \<circ> theWork)
      NetworkCredential_DeepCopyInto"

lemma deep_NetworkCredential:
  shows "deep networkCredentialVal networkCredentialRefs NetworkCredential_DeepCopyInto"
  by (rule deep_struct [OF headersCell.deep_slice [OF deep_HeaderEntry],
      where sel = "\<lambda>s. crdHeaders s" and upd = "\<lambda>s a. s\<lparr>crdHeaders := a\<rparr>"])
    (simp_all add: networkCredentialVal_def networkCredentialRefs_def NetworkCredential_DeepCopyInto_def copyBoth_def
        Un_assoc case_prod_beta)

definition workloadNetworkVal :: "'l cell heap \<Rightarrow> networkObj \<Rightarrow> WorkloadNetwork" where
  "workloadNetworkVal h s = \<lparr>Access = noAccess s,
     Expose = sliceVal (thePorts \<circ> theScalar) plain h (noExpose s),
     Allowlist = sliceVal (theStrings \<circ> theScalar) plain h (noAllowlist s),
     Credentials = sliceVal (theCredentials \<circ> theWork) networkCredentialVal h (noCredentials s),
     Websocket = noWebsocket s\<rparr>"

definition workloadNetworkRefs :: "'l cell heap \<Rightarrow> networkObj \<Rightarrow> addr set" where
  "workloadNetworkRefs h s = sliceRefs (thePorts \<circ> theScalar) noRefs h (noExpose s) \<union>
     sliceRefs (theStrings \<circ> theScalar) noRefs h (noAllowlist s) \<union>
     sliceRefs (theCredentials \<circ> theWork) networkCredentialRefs h (noCredentials s)"

definition WorkloadNetwork_DeepCopyInto :: "networkObj \<Rightarrow> ('l cell, networkObj) heapM" where
  "WorkloadNetwork_DeepCopyInto s = do {
     a \<leftarrow> copySlice (Scalar \<circ> PortsCell) (thePorts \<circ> theScalar) giving (noExpose s);
     b \<leftarrow> copySlice (Scalar \<circ> StringsCell) (theStrings \<circ> theScalar) giving (noAllowlist s);
     c \<leftarrow> copySlice (Work \<circ> CredentialsCell) (theCredentials \<circ> theWork)
         NetworkCredential_DeepCopyInto (noCredentials s);
     giving (s\<lparr>noExpose := a, noAllowlist := b, noCredentials := c\<rparr>)
   }"

definition WorkloadNetwork_DeepCopy :: "ref \<Rightarrow> ('l cell, ref) heapM" where
  "WorkloadNetwork_DeepCopy = copyPtr (Work \<circ> WorkloadNetworkCell) (theWorkloadNetwork \<circ> theWork)
      WorkloadNetwork_DeepCopyInto"

lemma deep_WorkloadNetwork:
  shows "deep workloadNetworkVal workloadNetworkRefs WorkloadNetwork_DeepCopyInto"
  by (rule deep_struct [OF deep_both [OF portsCell.deep_slice [OF deep_plain] deep_both [OF stringsCell.deep_slice
      [OF deep_plain] credentialsCell.deep_slice [OF deep_NetworkCredential]]],
      where sel = "\<lambda>s. (noExpose s, noAllowlist s, noCredentials s)" and upd = "\<lambda>s (a, b, c).
          s\<lparr>noExpose := a, noAllowlist := b, noCredentials := c\<rparr>"])
    (simp_all add: workloadNetworkVal_def workloadNetworkRefs_def WorkloadNetwork_DeepCopyInto_def copyBoth_def
        Un_assoc case_prod_beta)

definition workloadFilesystemVal :: "'l cell heap \<Rightarrow> filesystemObj \<Rightarrow> WorkloadFilesystem" where
  "workloadFilesystemVal h s = \<lparr>OverlayDirs = sliceVal (theStrings \<circ> theScalar) plain h (foOverlayDirs
      s),
     EncryptOverlays = ptrVal (theBool \<circ> theScalar) plain h (foEncryptOverlays s)\<rparr>"

definition workloadFilesystemRefs :: "'l cell heap \<Rightarrow> filesystemObj \<Rightarrow> addr set" where
  "workloadFilesystemRefs h s = sliceRefs (theStrings \<circ> theScalar) noRefs h (foOverlayDirs s) \<union>
     ptrRefs (theBool \<circ> theScalar) noRefs h (foEncryptOverlays s)"

definition WorkloadFilesystem_DeepCopyInto :: "filesystemObj \<Rightarrow> ('l cell, filesystemObj) heapM" where
  "WorkloadFilesystem_DeepCopyInto s = do {
     a \<leftarrow> copySlice (Scalar \<circ> StringsCell) (theStrings \<circ> theScalar) giving (foOverlayDirs s);
     b \<leftarrow> copyPtr (Scalar \<circ> BoolCell) (theBool \<circ> theScalar) giving (foEncryptOverlays s);
     giving (s\<lparr>foOverlayDirs := a, foEncryptOverlays := b\<rparr>)
   }"

definition WorkloadFilesystem_DeepCopy :: "ref \<Rightarrow> ('l cell, ref) heapM" where
  "WorkloadFilesystem_DeepCopy = copyPtr (Work \<circ> WorkloadFilesystemCell) (theWorkloadFilesystem \<circ>
      theWork) WorkloadFilesystem_DeepCopyInto"

lemma deep_WorkloadFilesystem:
  shows "deep workloadFilesystemVal workloadFilesystemRefs WorkloadFilesystem_DeepCopyInto"
  by (rule deep_struct [OF deep_both [OF stringsCell.deep_slice [OF deep_plain] boolCell.deep_ptr [OF deep_plain]],
      where sel = "\<lambda>s. (foOverlayDirs s, foEncryptOverlays s)" and upd = "\<lambda>s (a, b).
          s\<lparr>foOverlayDirs := a, foEncryptOverlays := b\<rparr>"])
    (simp_all add: workloadFilesystemVal_def workloadFilesystemRefs_def WorkloadFilesystem_DeepCopyInto_def
        copyBoth_def Un_assoc case_prod_beta)

definition workloadIdleVal :: "'l cell heap \<Rightarrow> idleObj \<Rightarrow> WorkloadIdle" where
  "workloadIdleVal h s = \<lparr>TimeoutSeconds = ioTimeoutSeconds s,
     idleAction = ioAction s,
     WatchDirs = sliceVal (theStrings \<circ> theScalar) plain h (ioWatchDirs s)\<rparr>"

definition workloadIdleRefs :: "'l cell heap \<Rightarrow> idleObj \<Rightarrow> addr set" where
  "workloadIdleRefs h s = sliceRefs (theStrings \<circ> theScalar) noRefs h (ioWatchDirs s)"

definition WorkloadIdle_DeepCopyInto :: "idleObj \<Rightarrow> ('l cell, idleObj) heapM" where
  "WorkloadIdle_DeepCopyInto s = do {
     a \<leftarrow> copySlice (Scalar \<circ> StringsCell) (theStrings \<circ> theScalar) giving (ioWatchDirs s);
     giving (s\<lparr>ioWatchDirs := a\<rparr>)
   }"

definition WorkloadIdle_DeepCopy :: "ref \<Rightarrow> ('l cell, ref) heapM" where
  "WorkloadIdle_DeepCopy = copyPtr (Work \<circ> WorkloadIdleCell) (theWorkloadIdle \<circ> theWork)
      WorkloadIdle_DeepCopyInto"

lemma deep_WorkloadIdle:
  shows "deep workloadIdleVal workloadIdleRefs WorkloadIdle_DeepCopyInto"
  by (rule deep_struct [OF stringsCell.deep_slice [OF deep_plain],
      where sel = "\<lambda>s. ioWatchDirs s" and upd = "\<lambda>s a. s\<lparr>ioWatchDirs := a\<rparr>"])
    (simp_all add: workloadIdleVal_def workloadIdleRefs_def WorkloadIdle_DeepCopyInto_def copyBoth_def Un_assoc
        case_prod_beta)

definition healthExecVal :: "'l cell heap \<Rightarrow> execObj \<Rightarrow> HealthExec" where
  "healthExecVal h s = \<lparr>healthCommand = sliceVal (theStrings \<circ> theScalar) plain h (eoCommand s)\<rparr>"

definition healthExecRefs :: "'l cell heap \<Rightarrow> execObj \<Rightarrow> addr set" where
  "healthExecRefs h s = sliceRefs (theStrings \<circ> theScalar) noRefs h (eoCommand s)"

definition HealthExec_DeepCopyInto :: "execObj \<Rightarrow> ('l cell, execObj) heapM" where
  "HealthExec_DeepCopyInto s = do {
     a \<leftarrow> copySlice (Scalar \<circ> StringsCell) (theStrings \<circ> theScalar) giving (eoCommand s);
     giving (s\<lparr>eoCommand := a\<rparr>)
   }"

definition HealthExec_DeepCopy :: "ref \<Rightarrow> ('l cell, ref) heapM" where
  "HealthExec_DeepCopy = copyPtr (Work \<circ> HealthExecCell) (theHealthExec \<circ> theWork)
      HealthExec_DeepCopyInto"

lemma deep_HealthExec:
  shows "deep healthExecVal healthExecRefs HealthExec_DeepCopyInto"
  by (rule deep_struct [OF stringsCell.deep_slice [OF deep_plain],
      where sel = "\<lambda>s. eoCommand s" and upd = "\<lambda>s a. s\<lparr>eoCommand := a\<rparr>"])
    (simp_all add: healthExecVal_def healthExecRefs_def HealthExec_DeepCopyInto_def copyBoth_def Un_assoc
        case_prod_beta)

definition workloadHealthVal :: "'l cell heap \<Rightarrow> healthObj \<Rightarrow> WorkloadHealth" where
  "workloadHealthVal h s = \<lparr>IntervalSeconds = heIntervalSeconds s,
     UnhealthyThreshold = heUnhealthyThreshold s,
     healthHTTPGet = ptrVal (theHealthHTTPGet \<circ> theScalar) plain h (heHTTPGet s),
     healthExec = ptrVal (theHealthExec \<circ> theWork) healthExecVal h (heExec s)\<rparr>"

definition workloadHealthRefs :: "'l cell heap \<Rightarrow> healthObj \<Rightarrow> addr set" where
  "workloadHealthRefs h s = ptrRefs (theHealthHTTPGet \<circ> theScalar) noRefs h (heHTTPGet s) \<union>
     ptrRefs (theHealthExec \<circ> theWork) healthExecRefs h (heExec s)"

definition WorkloadHealth_DeepCopyInto :: "healthObj \<Rightarrow> ('l cell, healthObj) heapM" where
  "WorkloadHealth_DeepCopyInto s = do {
     a \<leftarrow> copyPtr (Scalar \<circ> HealthHTTPGetCell) (theHealthHTTPGet \<circ> theScalar) giving (heHTTPGet
         s);
     b \<leftarrow> copyPtr (Work \<circ> HealthExecCell) (theHealthExec \<circ> theWork) HealthExec_DeepCopyInto
         (heExec s);
     giving (s\<lparr>heHTTPGet := a, heExec := b\<rparr>)
   }"

definition WorkloadHealth_DeepCopy :: "ref \<Rightarrow> ('l cell, ref) heapM" where
  "WorkloadHealth_DeepCopy = copyPtr (Work \<circ> WorkloadHealthCell) (theWorkloadHealth \<circ> theWork)
      WorkloadHealth_DeepCopyInto"

lemma deep_WorkloadHealth:
  shows "deep workloadHealthVal workloadHealthRefs WorkloadHealth_DeepCopyInto"
  by (rule deep_struct [OF deep_both [OF healthHTTPGetCell.deep_ptr [OF deep_plain] healthExecCell.deep_ptr [OF
      deep_HealthExec]],
      where sel = "\<lambda>s. (heHTTPGet s, heExec s)" and upd = "\<lambda>s (a, b). s\<lparr>heHTTPGet := a, heExec
          := b\<rparr>"])
    (simp_all add: workloadHealthVal_def workloadHealthRefs_def WorkloadHealth_DeepCopyInto_def copyBoth_def Un_assoc
        case_prod_beta)

definition workloadEntrypointVal :: "'l library \<Rightarrow> 'l cell heap \<Rightarrow> entrypointObj \<Rightarrow>
    WorkloadEntrypoint" where
  "workloadEntrypointVal L h s = \<lparr>entryCmd = enCmd s,
     entryArgs = sliceVal (theStrings \<circ> theScalar) plain h (enArgs s),
     entryEnv = ptrVal (theRaw \<circ> theObject) (rawVal L) h (enEnv s),
     entryWorkdir = enWorkdir s\<rparr>"

definition workloadEntrypointRefs :: "'l library \<Rightarrow> 'l cell heap \<Rightarrow> entrypointObj \<Rightarrow>
    addr set" where
  "workloadEntrypointRefs L h s = sliceRefs (theStrings \<circ> theScalar) noRefs h (enArgs s) \<union>
     ptrRefs (theRaw \<circ> theObject) (rawRefs L) h (enEnv s)"

definition WorkloadEntrypoint_DeepCopyInto :: "'l library \<Rightarrow> entrypointObj \<Rightarrow> ('l cell,
    entrypointObj) heapM" where
  "WorkloadEntrypoint_DeepCopyInto L s = do {
     a \<leftarrow> copySlice (Scalar \<circ> StringsCell) (theStrings \<circ> theScalar) giving (enArgs s);
     b \<leftarrow> copyPtr (Object \<circ> RawCell) (theRaw \<circ> theObject) (rawCopy L) (enEnv s);
     giving (s\<lparr>enArgs := a, enEnv := b\<rparr>)
   }"

definition WorkloadEntrypoint_DeepCopy :: "'l library \<Rightarrow> ref \<Rightarrow> ('l cell, ref) heapM" where
  "WorkloadEntrypoint_DeepCopy L = copyPtr (Work \<circ> WorkloadEntrypointCell) (theWorkloadEntrypoint \<circ>
      theWork) (WorkloadEntrypoint_DeepCopyInto L)"

lemma deep_WorkloadEntrypoint:
  assumes "lawful L"
  shows "deep (workloadEntrypointVal L) (workloadEntrypointRefs L) (WorkloadEntrypoint_DeepCopyInto L)"
  by (rule deep_struct [OF deep_both [OF stringsCell.deep_slice [OF deep_plain] rawCell.deep_ptr [OF lawful_raw [OF
      assms]]],
      where sel = "\<lambda>s. (enArgs s, enEnv s)" and upd = "\<lambda>s (a, b). s\<lparr>enArgs := a, enEnv :=
          b\<rparr>"])
    (simp_all add: workloadEntrypointVal_def workloadEntrypointRefs_def WorkloadEntrypoint_DeepCopyInto_def
        copyBoth_def Un_assoc case_prod_beta)

definition workloadAPIAccessVal :: "'l cell heap \<Rightarrow> apiAccessObj \<Rightarrow> WorkloadAPIAccess" where
  "workloadAPIAccessVal h s = \<lparr>apiScopes = sliceVal (theStrings \<circ> theScalar) plain h (aoScopes
      s)\<rparr>"

definition workloadAPIAccessRefs :: "'l cell heap \<Rightarrow> apiAccessObj \<Rightarrow> addr set" where
  "workloadAPIAccessRefs h s = sliceRefs (theStrings \<circ> theScalar) noRefs h (aoScopes s)"

definition WorkloadAPIAccess_DeepCopyInto :: "apiAccessObj \<Rightarrow> ('l cell, apiAccessObj) heapM" where
  "WorkloadAPIAccess_DeepCopyInto s = do {
     a \<leftarrow> copySlice (Scalar \<circ> StringsCell) (theStrings \<circ> theScalar) giving (aoScopes s);
     giving (s\<lparr>aoScopes := a\<rparr>)
   }"

definition WorkloadAPIAccess_DeepCopy :: "ref \<Rightarrow> ('l cell, ref) heapM" where
  "WorkloadAPIAccess_DeepCopy = copyPtr (Work \<circ> WorkloadAPIAccessCell) (theWorkloadAPIAccess \<circ> theWork)
      WorkloadAPIAccess_DeepCopyInto"

lemma deep_WorkloadAPIAccess:
  shows "deep workloadAPIAccessVal workloadAPIAccessRefs WorkloadAPIAccess_DeepCopyInto"
  by (rule deep_struct [OF stringsCell.deep_slice [OF deep_plain],
      where sel = "\<lambda>s. aoScopes s" and upd = "\<lambda>s a. s\<lparr>aoScopes := a\<rparr>"])
    (simp_all add: workloadAPIAccessVal_def workloadAPIAccessRefs_def WorkloadAPIAccess_DeepCopyInto_def copyBoth_def
        Un_assoc case_prod_beta)

definition workloadSpecVal :: "'l library \<Rightarrow> 'l cell heap \<Rightarrow> workloadSpecObj \<Rightarrow>
    BoilerhouseWorkloadSpec" where
  "workloadSpecVal L h s = \<lparr>wlVersion = woVersion s,
     wlImage = woImage s,
     wlResources = woResources s,
     wlNetwork = ptrVal (theWorkloadNetwork \<circ> theWork) workloadNetworkVal h (woNetwork s),
     wlFilesystem = ptrVal (theWorkloadFilesystem \<circ> theWork) workloadFilesystemVal h (woFilesystem s),
     wlIdle = ptrVal (theWorkloadIdle \<circ> theWork) workloadIdleVal h (woIdle s),
     wlHealth = ptrVal (theWorkloadHealth \<circ> theWork) workloadHealthVal h (woHealth s),
     wlEntrypoint = ptrVal (theWorkloadEntrypoint \<circ> theWork) (workloadEntrypointVal L) h (woEntrypoint s),
     wlAPIAccess = ptrVal (theWorkloadAPIAccess \<circ> theWork) workloadAPIAccessVal h (woAPIAccess s)\<rparr>"

definition workloadSpecRefs :: "'l library \<Rightarrow> 'l cell heap \<Rightarrow> workloadSpecObj \<Rightarrow>
    addr set" where
  "workloadSpecRefs L h s = ptrRefs (theWorkloadNetwork \<circ> theWork) workloadNetworkRefs h (woNetwork s) \<union>
     ptrRefs (theWorkloadFilesystem \<circ> theWork) workloadFilesystemRefs h (woFilesystem s) \<union>
     ptrRefs (theWorkloadIdle \<circ> theWork) workloadIdleRefs h (woIdle s) \<union>
     ptrRefs (theWorkloadHealth \<circ> theWork) workloadHealthRefs h (woHealth s) \<union>
     ptrRefs (theWorkloadEntrypoint \<circ> theWork) (workloadEntrypointRefs L) h (woEntrypoint s) \<union>
     ptrRefs (theWorkloadAPIAccess \<circ> theWork) workloadAPIAccessRefs h (woAPIAccess s)"

definition BoilerhouseWorkloadSpec_DeepCopyInto :: "'l library \<Rightarrow> workloadSpecObj \<Rightarrow> ('l cell,
    workloadSpecObj) heapM" where
  "BoilerhouseWorkloadSpec_DeepCopyInto L s = do {
     a \<leftarrow> copyPtr (Work \<circ> WorkloadNetworkCell) (theWorkloadNetwork \<circ> theWork)
         WorkloadNetwork_DeepCopyInto (woNetwork s);
     b \<leftarrow> copyPtr (Work \<circ> WorkloadFilesystemCell) (theWorkloadFilesystem \<circ> theWork)
         WorkloadFilesystem_DeepCopyInto (woFilesystem s);
     c \<leftarrow> copyPtr (Work \<circ> WorkloadIdleCell) (theWorkloadIdle \<circ> theWork)
         WorkloadIdle_DeepCopyInto (woIdle s);
     d \<leftarrow> copyPtr (Work \<circ> WorkloadHealthCell) (theWorkloadHealth \<circ> theWork)
         WorkloadHealth_DeepCopyInto (woHealth s);
     e \<leftarrow> copyPtr (Work \<circ> WorkloadEntrypointCell) (theWorkloadEntrypoint \<circ> theWork)
         (WorkloadEntrypoint_DeepCopyInto L) (woEntrypoint s);
     f \<leftarrow> copyPtr (Work \<circ> WorkloadAPIAccessCell) (theWorkloadAPIAccess \<circ> theWork)
         WorkloadAPIAccess_DeepCopyInto (woAPIAccess s);
     giving (s\<lparr>woNetwork := a, woFilesystem := b, woIdle := c, woHealth := d, woEntrypoint := e, woAPIAccess
         := f\<rparr>)
   }"

definition BoilerhouseWorkloadSpec_DeepCopy :: "'l library \<Rightarrow> ref \<Rightarrow> ('l cell, ref) heapM" where
  "BoilerhouseWorkloadSpec_DeepCopy L = copyPtr (Work \<circ> WorkloadSpecCell) (theWorkloadSpec \<circ> theWork)
      (BoilerhouseWorkloadSpec_DeepCopyInto L)"

lemma deep_BoilerhouseWorkloadSpec:
  assumes "lawful L"
  shows "deep (workloadSpecVal L) (workloadSpecRefs L) (BoilerhouseWorkloadSpec_DeepCopyInto L)"
  by (rule deep_struct [OF deep_both [OF workloadNetworkCell.deep_ptr [OF deep_WorkloadNetwork] deep_both [OF
      workloadFilesystemCell.deep_ptr [OF deep_WorkloadFilesystem] deep_both [OF workloadIdleCell.deep_ptr [OF
          deep_WorkloadIdle] deep_both [OF workloadHealthCell.deep_ptr [OF deep_WorkloadHealth] deep_both [OF
          workloadEntrypointCell.deep_ptr [OF deep_WorkloadEntrypoint [OF assms]] workloadAPIAccessCell.deep_ptr [OF
          deep_WorkloadAPIAccess]]]]]],
      where sel = "\<lambda>s. (woNetwork s, woFilesystem s, woIdle s, woHealth s, woEntrypoint s, woAPIAccess s)"
          and upd = "\<lambda>s (a, b, c, d, e, f). s\<lparr>woNetwork := a, woFilesystem := b, woIdle := c, woHealth
              := d, woEntrypoint := e, woAPIAccess := f\<rparr>"])
    (simp_all add: workloadSpecVal_def workloadSpecRefs_def BoilerhouseWorkloadSpec_DeepCopyInto_def copyBoth_def
        Un_assoc case_prod_beta)

definition workloadVal :: "'l library \<Rightarrow> 'l cell heap \<Rightarrow> 'l workloadObj \<Rightarrow> typeMeta
    \<times> BoilerhouseWorkload" where
  "workloadVal L h s = (workloadObjType s, \<lparr>wlMeta = metaVal L h (workloadObjMeta s),
     wlSpec = workloadSpecVal L h (workloadObjSpec s),
     wlStatus = workloadObjStatus s\<rparr>)"

definition workloadRefs :: "'l library \<Rightarrow> 'l cell heap \<Rightarrow> 'l workloadObj \<Rightarrow> addr
    set" where
  "workloadRefs L h s = metaRefs L h (workloadObjMeta s) \<union>
     workloadSpecRefs L h (workloadObjSpec s)"

definition BoilerhouseWorkload_DeepCopyInto :: "'l library \<Rightarrow> 'l workloadObj \<Rightarrow> ('l cell, 'l
    workloadObj) heapM" where
  "BoilerhouseWorkload_DeepCopyInto L s = do {
     a \<leftarrow> metaCopy L (workloadObjMeta s);
     b \<leftarrow> BoilerhouseWorkloadSpec_DeepCopyInto L (workloadObjSpec s);
     giving (s\<lparr>workloadObjMeta := a, workloadObjSpec := b\<rparr>)
   }"

definition BoilerhouseWorkload_DeepCopy :: "'l library \<Rightarrow> ref \<Rightarrow> ('l cell, ref) heapM" where
  "BoilerhouseWorkload_DeepCopy L = copyPtr (Object \<circ> WorkloadCell) (theWorkload \<circ> theObject)
      (BoilerhouseWorkload_DeepCopyInto L)"

lemma deep_BoilerhouseWorkload:
  assumes "lawful L"
  shows "deep (workloadVal L) (workloadRefs L) (BoilerhouseWorkload_DeepCopyInto L)"
  by (rule deep_struct [OF deep_both [OF lawful_meta [OF assms] deep_BoilerhouseWorkloadSpec [OF assms]],
      where sel = "\<lambda>s. (workloadObjMeta s, workloadObjSpec s)" and upd = "\<lambda>s (a, b).
          s\<lparr>workloadObjMeta := a, workloadObjSpec := b\<rparr>"])
    (simp_all add: workloadVal_def workloadRefs_def BoilerhouseWorkload_DeepCopyInto_def copyBoth_def Un_assoc
        case_prod_beta)

section \<open>Lists\<close>

definition claimListVal :: "'l library \<Rightarrow> 'l cell heap \<Rightarrow> 'l objList \<Rightarrow> typeMeta
    \<times> ListMeta \<times> (typeMeta \<times> BoilerhouseClaim) list" where
  "claimListVal L h s = (listObjType s, listMetaVal L h (listObjMeta s), sliceVal (theClaims \<circ> theObject)
      (claimVal L) h (listObjItems s))"

definition claimListRefs :: "'l library \<Rightarrow> 'l cell heap \<Rightarrow> 'l objList \<Rightarrow> addr set"
    where
  "claimListRefs L h s = listMetaRefs L h (listObjMeta s) \<union> sliceRefs (theClaims \<circ> theObject) (claimRefs
      L) h (listObjItems s)"

definition BoilerhouseClaimList_DeepCopyInto :: "'l library \<Rightarrow> 'l objList \<Rightarrow> ('l cell, 'l
    objList) heapM" where
  "BoilerhouseClaimList_DeepCopyInto L s = do {
     a \<leftarrow> listMetaCopy L (listObjMeta s);
     b \<leftarrow> copySlice (Object \<circ> ClaimsCell) (theClaims \<circ> theObject)
         (BoilerhouseClaim_DeepCopyInto L) (listObjItems s);
     giving (s\<lparr>listObjMeta := a, listObjItems := b\<rparr>)
   }"

definition BoilerhouseClaimList_DeepCopy :: "'l library \<Rightarrow> ref \<Rightarrow> ('l cell, ref) heapM" where
  "BoilerhouseClaimList_DeepCopy L = copyPtr (Object \<circ> ClaimListCell) (theClaimList \<circ> theObject)
      (BoilerhouseClaimList_DeepCopyInto L)"

lemma deep_BoilerhouseClaimList:
  assumes "lawful L"
  shows "deep (claimListVal L) (claimListRefs L) (BoilerhouseClaimList_DeepCopyInto L)"
  by (rule deep_struct [OF deep_both [OF lawful_listMeta [OF assms] claimsCell.deep_slice [OF deep_BoilerhouseClaim
      [OF assms]]],
      where sel = "\<lambda>s. (listObjMeta s, listObjItems s)" and upd = "\<lambda>s (a, b). s\<lparr>listObjMeta :=
          a, listObjItems := b\<rparr>"])
    (simp_all add: claimListVal_def claimListRefs_def BoilerhouseClaimList_DeepCopyInto_def copyBoth_def
        case_prod_beta)

definition poolListVal :: "'l library \<Rightarrow> 'l cell heap \<Rightarrow> 'l objList \<Rightarrow> typeMeta
    \<times> ListMeta \<times> (typeMeta \<times> BoilerhousePool) list" where
  "poolListVal L h s = (listObjType s, listMetaVal L h (listObjMeta s), sliceVal (thePools \<circ> theObject)
      (poolVal L) h (listObjItems s))"

definition poolListRefs :: "'l library \<Rightarrow> 'l cell heap \<Rightarrow> 'l objList \<Rightarrow> addr set"
    where
  "poolListRefs L h s = listMetaRefs L h (listObjMeta s) \<union> sliceRefs (thePools \<circ> theObject) (poolRefs L)
      h (listObjItems s)"

definition BoilerhousePoolList_DeepCopyInto :: "'l library \<Rightarrow> 'l objList \<Rightarrow> ('l cell, 'l
    objList) heapM" where
  "BoilerhousePoolList_DeepCopyInto L s = do {
     a \<leftarrow> listMetaCopy L (listObjMeta s);
     b \<leftarrow> copySlice (Object \<circ> PoolsCell) (thePools \<circ> theObject) (BoilerhousePool_DeepCopyInto
         L) (listObjItems s);
     giving (s\<lparr>listObjMeta := a, listObjItems := b\<rparr>)
   }"

definition BoilerhousePoolList_DeepCopy :: "'l library \<Rightarrow> ref \<Rightarrow> ('l cell, ref) heapM" where
  "BoilerhousePoolList_DeepCopy L = copyPtr (Object \<circ> PoolListCell) (thePoolList \<circ> theObject)
      (BoilerhousePoolList_DeepCopyInto L)"

lemma deep_BoilerhousePoolList:
  assumes "lawful L"
  shows "deep (poolListVal L) (poolListRefs L) (BoilerhousePoolList_DeepCopyInto L)"
  by (rule deep_struct [OF deep_both [OF lawful_listMeta [OF assms] poolsCell.deep_slice [OF deep_BoilerhousePool [OF
      assms]]],
      where sel = "\<lambda>s. (listObjMeta s, listObjItems s)" and upd = "\<lambda>s (a, b). s\<lparr>listObjMeta :=
          a, listObjItems := b\<rparr>"])
    (simp_all add: poolListVal_def poolListRefs_def BoilerhousePoolList_DeepCopyInto_def copyBoth_def case_prod_beta)

definition triggerListVal :: "'l library \<Rightarrow> 'l cell heap \<Rightarrow> 'l objList \<Rightarrow> typeMeta
    \<times> ListMeta \<times> (typeMeta \<times> BoilerhouseTrigger) list" where
  "triggerListVal L h s = (listObjType s, listMetaVal L h (listObjMeta s), sliceVal (theTriggers \<circ> theObject)
      (triggerVal L) h (listObjItems s))"

definition triggerListRefs :: "'l library \<Rightarrow> 'l cell heap \<Rightarrow> 'l objList \<Rightarrow> addr set"
    where
  "triggerListRefs L h s = listMetaRefs L h (listObjMeta s) \<union> sliceRefs (theTriggers \<circ> theObject)
      (triggerRefs L) h (listObjItems s)"

definition BoilerhouseTriggerList_DeepCopyInto :: "'l library \<Rightarrow> 'l objList \<Rightarrow> ('l cell, 'l
    objList) heapM" where
  "BoilerhouseTriggerList_DeepCopyInto L s = do {
     a \<leftarrow> listMetaCopy L (listObjMeta s);
     b \<leftarrow> copySlice (Object \<circ> TriggersCell) (theTriggers \<circ> theObject)
         (BoilerhouseTrigger_DeepCopyInto L) (listObjItems s);
     giving (s\<lparr>listObjMeta := a, listObjItems := b\<rparr>)
   }"

definition BoilerhouseTriggerList_DeepCopy :: "'l library \<Rightarrow> ref \<Rightarrow> ('l cell, ref) heapM" where
  "BoilerhouseTriggerList_DeepCopy L = copyPtr (Object \<circ> TriggerListCell) (theTriggerList \<circ> theObject)
      (BoilerhouseTriggerList_DeepCopyInto L)"

lemma deep_BoilerhouseTriggerList:
  assumes "lawful L"
  shows "deep (triggerListVal L) (triggerListRefs L) (BoilerhouseTriggerList_DeepCopyInto L)"
  by (rule deep_struct [OF deep_both [OF lawful_listMeta [OF assms] triggersCell.deep_slice [OF
      deep_BoilerhouseTrigger [OF assms]]],
      where sel = "\<lambda>s. (listObjMeta s, listObjItems s)" and upd = "\<lambda>s (a, b). s\<lparr>listObjMeta :=
          a, listObjItems := b\<rparr>"])
    (simp_all add: triggerListVal_def triggerListRefs_def BoilerhouseTriggerList_DeepCopyInto_def copyBoth_def
        case_prod_beta)

definition workloadListVal :: "'l library \<Rightarrow> 'l cell heap \<Rightarrow> 'l objList \<Rightarrow> typeMeta
    \<times> ListMeta \<times> (typeMeta \<times> BoilerhouseWorkload) list" where
  "workloadListVal L h s = (listObjType s, listMetaVal L h (listObjMeta s), sliceVal (theWorkloads \<circ> theObject)
      (workloadVal L) h (listObjItems s))"

definition workloadListRefs :: "'l library \<Rightarrow> 'l cell heap \<Rightarrow> 'l objList \<Rightarrow> addr
    set" where
  "workloadListRefs L h s = listMetaRefs L h (listObjMeta s) \<union> sliceRefs (theWorkloads \<circ> theObject)
      (workloadRefs L) h (listObjItems s)"

definition BoilerhouseWorkloadList_DeepCopyInto :: "'l library \<Rightarrow> 'l objList \<Rightarrow> ('l cell, 'l
    objList) heapM" where
  "BoilerhouseWorkloadList_DeepCopyInto L s = do {
     a \<leftarrow> listMetaCopy L (listObjMeta s);
     b \<leftarrow> copySlice (Object \<circ> WorkloadsCell) (theWorkloads \<circ> theObject)
         (BoilerhouseWorkload_DeepCopyInto L) (listObjItems s);
     giving (s\<lparr>listObjMeta := a, listObjItems := b\<rparr>)
   }"

definition BoilerhouseWorkloadList_DeepCopy :: "'l library \<Rightarrow> ref \<Rightarrow> ('l cell, ref) heapM" where
  "BoilerhouseWorkloadList_DeepCopy L = copyPtr (Object \<circ> WorkloadListCell) (theWorkloadList \<circ> theObject)
      (BoilerhouseWorkloadList_DeepCopyInto L)"

lemma deep_BoilerhouseWorkloadList:
  assumes "lawful L"
  shows "deep (workloadListVal L) (workloadListRefs L) (BoilerhouseWorkloadList_DeepCopyInto L)"
  by (rule deep_struct [OF deep_both [OF lawful_listMeta [OF assms] workloadsCell.deep_slice [OF
      deep_BoilerhouseWorkload [OF assms]]],
      where sel = "\<lambda>s. (listObjMeta s, listObjItems s)" and upd = "\<lambda>s (a, b). s\<lparr>listObjMeta :=
          a, listObjItems := b\<rparr>"])
    (simp_all add: workloadListVal_def workloadListRefs_def BoilerhouseWorkloadList_DeepCopyInto_def copyBoth_def
        case_prod_beta)

section \<open>\<open>runtime.Object\<close>\<close>

text \<open>A nil pointer becomes the nil interface, not an interface that holds a nil pointer.\<close>

datatype runtimeObject =
    ClaimObject addr
  | ClaimListObject addr
  | PoolObject addr
  | PoolListObject addr
  | TriggerObject addr
  | TriggerListObject addr
  | WorkloadObject addr
  | WorkloadListObject addr

definition BoilerhouseClaim_DeepCopyObject :: "'l library \<Rightarrow> ref \<Rightarrow> ('l cell, runtimeObject
    option) heapM" where
  "BoilerhouseClaim_DeepCopyObject L p = do { c \<leftarrow> BoilerhouseClaim_DeepCopy L p; giving (map_option
      ClaimObject c) }"

definition BoilerhouseClaimList_DeepCopyObject :: "'l library \<Rightarrow> ref \<Rightarrow> ('l cell, runtimeObject
    option) heapM" where
  "BoilerhouseClaimList_DeepCopyObject L p = do { c \<leftarrow> BoilerhouseClaimList_DeepCopy L p; giving
      (map_option ClaimListObject c) }"

definition BoilerhousePool_DeepCopyObject :: "'l library \<Rightarrow> ref \<Rightarrow> ('l cell, runtimeObject
    option) heapM" where
  "BoilerhousePool_DeepCopyObject L p = do { c \<leftarrow> BoilerhousePool_DeepCopy L p; giving (map_option
      PoolObject c) }"

definition BoilerhousePoolList_DeepCopyObject :: "'l library \<Rightarrow> ref \<Rightarrow> ('l cell, runtimeObject
    option) heapM" where
  "BoilerhousePoolList_DeepCopyObject L p = do { c \<leftarrow> BoilerhousePoolList_DeepCopy L p; giving (map_option
      PoolListObject c) }"

definition BoilerhouseTrigger_DeepCopyObject :: "'l library \<Rightarrow> ref \<Rightarrow> ('l cell, runtimeObject
    option) heapM" where
  "BoilerhouseTrigger_DeepCopyObject L p = do { c \<leftarrow> BoilerhouseTrigger_DeepCopy L p; giving (map_option
      TriggerObject c) }"

definition BoilerhouseTriggerList_DeepCopyObject :: "'l library \<Rightarrow> ref \<Rightarrow> ('l cell,
    runtimeObject option) heapM" where
  "BoilerhouseTriggerList_DeepCopyObject L p = do { c \<leftarrow> BoilerhouseTriggerList_DeepCopy L p; giving
      (map_option TriggerListObject c) }"

definition BoilerhouseWorkload_DeepCopyObject :: "'l library \<Rightarrow> ref \<Rightarrow> ('l cell, runtimeObject
    option) heapM" where
  "BoilerhouseWorkload_DeepCopyObject L p = do { c \<leftarrow> BoilerhouseWorkload_DeepCopy L p; giving (map_option
      WorkloadObject c) }"

definition BoilerhouseWorkloadList_DeepCopyObject :: "'l library \<Rightarrow> ref \<Rightarrow> ('l cell,
    runtimeObject option) heapM" where
  "BoilerhouseWorkloadList_DeepCopyObject L p = do { c \<leftarrow> BoilerhouseWorkloadList_DeepCopy L p; giving
      (map_option WorkloadListObject c) }"

section \<open>What the copies are for\<close>

text \<open>
  C23. Deep copies are isolated.  For each kind of object of the cluster and for lists of them, the copy that
  \<open>DeepCopy\<close> returns has the value of the original, making it does not change the original, and from
      then on neither
  sees what is written to the other: no pointer, slice or array of a nested struct is shared.  This is why the rest of
  this library may treat the objects it reads from the client as values.
\<close>

theorem deep_copies_isolated:
  assumes "lawful L"
  shows "isolated (ptrVal (theClaim \<circ> theObject) (claimVal L)) (ptrRefs (theClaim \<circ> theObject) (claimRefs
      L))
      (BoilerhouseClaim_DeepCopy L) \<and>
    isolated (ptrVal (theClaimList \<circ> theObject) (claimListVal L)) (ptrRefs (theClaimList \<circ> theObject)
        (claimListRefs L))
      (BoilerhouseClaimList_DeepCopy L) \<and>
    isolated (ptrVal (thePool \<circ> theObject) (poolVal L)) (ptrRefs (thePool \<circ> theObject) (poolRefs L))
      (BoilerhousePool_DeepCopy L) \<and>
    isolated (ptrVal (thePoolList \<circ> theObject) (poolListVal L)) (ptrRefs (thePoolList \<circ> theObject)
        (poolListRefs L))
      (BoilerhousePoolList_DeepCopy L) \<and>
    isolated (ptrVal (theTrigger \<circ> theObject) (triggerVal L)) (ptrRefs (theTrigger \<circ> theObject)
        (triggerRefs L))
      (BoilerhouseTrigger_DeepCopy L) \<and>
    isolated (ptrVal (theTriggerList \<circ> theObject) (triggerListVal L)) (ptrRefs (theTriggerList \<circ>
        theObject) (triggerListRefs L))
      (BoilerhouseTriggerList_DeepCopy L) \<and>
    isolated (ptrVal (theWorkload \<circ> theObject) (workloadVal L)) (ptrRefs (theWorkload \<circ> theObject)
        (workloadRefs L))
      (BoilerhouseWorkload_DeepCopy L) \<and>
    isolated (ptrVal (theWorkloadList \<circ> theObject) (workloadListVal L)) (ptrRefs (theWorkloadList \<circ>
        theObject) (workloadListRefs L))
      (BoilerhouseWorkloadList_DeepCopy L)"
proof -
  note facts = 
    deep_isolated [OF claimCell.deep_ptr [OF deep_BoilerhouseClaim [OF assms]]]
    deep_isolated [OF claimListCell.deep_ptr [OF deep_BoilerhouseClaimList [OF assms]]]
    deep_isolated [OF poolCell.deep_ptr [OF deep_BoilerhousePool [OF assms]]]
    deep_isolated [OF poolListCell.deep_ptr [OF deep_BoilerhousePoolList [OF assms]]]
    deep_isolated [OF triggerCell.deep_ptr [OF deep_BoilerhouseTrigger [OF assms]]]
    deep_isolated [OF triggerListCell.deep_ptr [OF deep_BoilerhouseTriggerList [OF assms]]]
    deep_isolated [OF workloadCell.deep_ptr [OF deep_BoilerhouseWorkload [OF assms]]]
    deep_isolated [OF workloadListCell.deep_ptr [OF deep_BoilerhouseWorkloadList [OF assms]]]
  show ?thesis
    unfolding BoilerhouseClaim_DeepCopy_def BoilerhouseClaimList_DeepCopy_def BoilerhousePool_DeepCopy_def
        BoilerhousePoolList_DeepCopy_def BoilerhouseTrigger_DeepCopy_def BoilerhouseTriggerList_DeepCopy_def
            BoilerhouseWorkload_DeepCopy_def BoilerhouseWorkloadList_DeepCopy_def by (intro conjI facts)
qed

text \<open>A library whose structs are values, with a \<open>Time\<close> behind a pointer.\<close>

definition valueLibrary :: "(ObjectMeta \<times> ListMeta \<times> RawExtension) library" where
  "valueLibrary = \<lparr>metaVal = \<lambda>h. fst, metaRefs = noRefs, metaCopy = giving,
     listMetaVal = \<lambda>h. fst \<circ> snd, listMetaRefs = noRefs, listMetaCopy = giving,
     rawVal = \<lambda>h. snd \<circ> snd, rawRefs = noRefs, rawCopy = giving,
     timeVal = \<lambda>h a. theInt (theScalar (store h a)), timeRefs = \<lambda>h a. {a},
     timeCopy = \<lambda>a. do { x \<leftarrow> load (theInt \<circ> theScalar) a; alloc (Scalar (IntCell x))
         }\<rparr>"

lemma deep_values: "deep (\<lambda>h. f) noRefs giving"
  by (auto simp: noRefs_def intro!: deepI framedI copiesI)

lemma lawful_valueLibrary: "lawful valueLibrary"
proof -
  have "deep (timeVal valueLibrary) (timeRefs valueLibrary) (timeCopy valueLibrary)"
    by (auto simp: valueLibrary_def agree_def intro!: deepI framedI copiesI)
  then show ?thesis by (simp add: lawful_def valueLibrary_def deep_values)
qed

text \<open>A claim at address 0 with \<open>resume\<close> at address 1 and the time it was claimed at address
    2.\<close>

definition libStruct :: "ObjectMeta \<times> ListMeta \<times> RawExtension" where
  "libStruct = (zeroMeta, \<lparr>listResourceVersion = [], Continue = [], RemainingItemCount = None\<rparr>,
      \<lparr>Raw = None\<rparr>)"

definition claimHeap :: "(ObjectMeta \<times> ListMeta \<times> RawExtension) cell heap" where
  "claimHeap = \<lparr>store = (\<lambda>_. Scalar (IntCell 0))
     (0 := Object (ClaimCell \<lparr>claimObjType = \<lparr>Kind = ''BoilerhouseClaim'', APIVersion = ''v1''\<rparr>,
        claimObjMeta = libStruct,
        claimObjSpec = \<lparr>coTenantId = ''t'', coWorkloadRef = ''w'', coResume = Some 1\<rparr>,
        claimObjStatus = \<lparr>coPhase = ''Active'', coInstanceId = ''i'', coEndpoint = None, coSource = ''cold'',
          coClaimedAt = Some 2, coDetail = []\<rparr>\<rparr>),
      1 := Scalar (BoolCell True), 2 := Scalar (IntCell 7)), unused = 3\<rparr>"

text \<open>The copy is at address 5, its \<open>resume\<close> at address 3; clearing that leaves the original as it
    was.\<close>

theorem deep_copies_isolated_witness:
  "fst (run_state (BoilerhouseClaim_DeepCopy valueLibrary (Some 0)) claimHeap) = Some 5 \<and>
   (let h = snd (run_state (BoilerhouseClaim_DeepCopy valueLibrary (Some 0)) claimHeap);
        k = h\<lparr>store := (store h)(3 := Scalar (BoolCell False))\<rparr>;
        v = ptrVal (theClaim \<circ> theObject) (claimVal valueLibrary)
    in v k (Some 5) \<noteq> v claimHeap (Some 0) \<and> v k (Some 0) = v claimHeap (Some 0))"
proof -
  let ?val = "ptrVal (theClaim \<circ> theObject) (claimVal valueLibrary)"
  let ?refs = "ptrRefs (theClaim \<circ> theObject) (claimRefs valueLibrary)"
  note copy = BoilerhouseClaim_DeepCopy_def copyPtr_def BoilerhouseClaim_DeepCopyInto_def valueLibrary_def
      claimHeap_def
    BoilerhouseClaimSpec_DeepCopyInto_def BoilerhouseClaimStatus_DeepCopyInto_def copyOpt_def
  note reads = claimVal_def claimSpecVal_def claimStatusVal_def ptrVal_def plain_def optVal_def
  note reaches = claimRefs_def claimSpecRefs_def claimStatusRefs_def ptrRefs_def noRefs_def optRefs_def
  obtain p h where run: "run_state (BoilerhouseClaim_DeepCopy valueLibrary (Some 0)) claimHeap = (p, h)"
    by fastforce
  then have p: "p = Some 5" and at5: "?val (h\<lparr>store := (store h)(3 := Scalar (BoolCell False))\<rparr>) p
      \<noteq> ?val claimHeap (Some 0)"
    and at3: "3 \<in> ?refs h p"
    by (auto simp: copy reads reaches)
  have old: "?refs claimHeap (Some 0) \<subseteq> {..<unused claimHeap}"
    by (auto simp: reaches claimHeap_def valueLibrary_def)
  from conjunct1 [OF deep_copies_isolated [OF lawful_valueLibrary]] old run
  have "agree (- ?refs h p) h k \<longrightarrow> ?val k (Some 0) = ?val claimHeap (Some 0)" for k
    unfolding isolated_def by blast
  moreover have "agree (- ?refs h p) h (h\<lparr>store := (store h)(3 := Scalar (BoolCell False))\<rparr>)"
    using at3 by (auto simp: agree_def)
  ultimately show ?thesis using run p at5 by (simp add: Let_def)
qed

end
