(* ===== verification/Spec2Isabelle.thy ===== *)
theory Spec2Isabelle
  imports Claim_Controller Pool_Controller Workload_Controller Trigger_Controller Translated_Objects Hibernation
    Api_Debug Api_Socket Trigger_Sync Cluster_Claims Http_Shutdown Deep_Copy
begin

text \<open>
  Boilerhouse runs one agent pod per tenant and workload on Kubernetes.  A \<open>BoilerhouseClaim\<close> asks for
  a pod; an operator serves it from a warm pool or by a cold boot and saves the pod's overlay to a
  snapshot when it is released; an API server creates claims and triggers for admins and for the agents
  themselves; a trigger gateway turns cron, webhook and Telegram events into requests to claimed pods.
  This library models the Go code of these processes, under \<open>src/go\<close>.

  The modelling.  The API server of Kubernetes, pod exec, processes, HTTP and WebSocket peers, the clock,
  random numbers and X.509 are not part of the repository: they are the fields of the record \<open>env\<close>
  (World), functions from the trace of everything observed so far to an answer, so no assumption about
  them is built in; a property that needs one names it as a hypothesis.  A handler is a
  computation in the state monad over that trace; Go's \<open>(value, error)\<close> is a sum whose left side is the
  error.  Properties of handlers are of two kinds: what the result is, and that
  every event of the trace is \<open>guarded\<close> by the events before it, as in
  "a pod is deleted only after its overlay was stored".  The relation \<open>wp\<close> and the
  collections \<open>wp_simps\<close>, \<open>emits_intros\<close> and \<open>api_defs\<close> of World carry these proofs.

  The theories, in the order of the code.
  \<^item> Go_Prelude, Go_Strings: options and sums as Go uses them, durations, wrap-around of int32 and
    int64, the \<open>strings\<close>, \<open>strconv\<close> and \<open>path\<close> functions the code calls, sorted map keys.
  \<^item> Kube_Types, Crd_Types, Scope: the Kubernetes objects, the custom resources
    (\<open>api/v1alpha1\<close>) and the token scopes (\<open>internal/scope\<close>).
  \<^item> Go_Heap, Deep_Copy (\<open>zz_generated.deepcopy.go\<close>): the generated deep copies on a store of addresses.  A copy has the
    value of the original and shares nothing with it, so in the other theories objects are values.  The law of a
    cell is the locale \<open>cell_kind\<close>, extended by \<open>array_kind\<close> for slices, and interpreted on every type of cell.
  \<^item> World: the environment, the trace monad, client calls, \<open>guarded\<close>, \<open>wp\<close>.
  \<^item> Envoy_Config, Sidecar, Translator (\<open>internal/envoy\<close>, \<open>operator/sidecar.go\<close>,
    \<open>translator.go\<close>): from a workload's specification to pod, Service, NetworkPolicy and proxy ConfigMap.
    Their lemmas show the hardening of every pod, the mounts, the environment and the egress rules.
  \<^item> Translated_Objects: how the pod, the Service and the ConfigMap of one translation refer to each other.
  \<^item> Snapshots (\<open>operator/snapshots.go\<close>): the snapshot store, its interface as the locale
    \<open>overlay_storage\<close>, interpreted on \<open>SnapshotManager\<close>, and the write script step by step.  Snapshot_Volume
    adds time: with a helper pod whose write scripts and reads of checksums work on a volume (\<open>servesVolume\<close>, which
    holds of the cluster \<open>helperEnv\<close>) only what was extracted is injected later, whatever happened to other
    tenants and workloads.
  \<^item> Claim_Token, Claim_Activate, Claim_Pods, Claim_Release, Claim_Controller (\<open>operator/claim_*.go\<close>,
    \<open>internal/claimtoken\<close>): the life cycle of a claim.  \<open>claim_step\<close> is the relation of its status
    writes; the lemmas show an invariant of the status, the order of every destructive call,
    the bound on retries and when a claim is idle.
  \<^item> Hibernation: the release of a claim and the claim that takes a pool pod later, put on the volume of
    Snapshot_Volume: the acquired pod, and no other, gets an archive with the checksum of what was read from the deleted pod.
  \<^item> Pool_Controller, Workload_Controller, Trigger_Controller (\<open>operator/\<close>): the other reconcilers, with the
    bounds of a pool pass and what each status means.
  \<^item> Api_Auth, Api_Claims, Api_Triggers (\<open>internal/api\<close>): tokens and their index (locale
    \<open>token_index\<close>), the protection of each route, claims and triggers over HTTP.
  \<^item> Api_Server (\<open>internal/api/server.go\<close>): the server's configuration and a request on its way through the
    middlewares to a handler, for the trigger routes with the handlers put in; what a caller with a token can make it do
    (\<open>agentGuard\<close>) and is told (\<open>agentReply\<close>).
  \<^item> Api_Resources, Api_Debug, Api_Websocket (\<open>internal/api/routes_*.go\<close>, \<open>websocket.go\<close>): the admin routes, the
    listing of the whole namespace with its redaction of Secrets, and the messages of the dashboard, whose two
    watch loops are instances of the locale \<open>watch_loop\<close>: a loop that keeps the last value of every name agrees
    with a reference that looks it up in the history.
  \<^item> Api_Socket (\<open>handleWebSocket\<close>): the connection as a step relation of its four goroutines over the channel of
    100 messages; the lemmas show that each loop's messages arrive complete and in order, that nothing blocks while
    the handler runs, and that a loop can be left behind when it returned.
  \<^item> Go_Json: \<open>encoding/json\<close> into \<open>any\<close>, float64 numbers and \<open>url.QueryEscape\<close>, as the drivers and adapters use them.
  \<^item> Trigger_Guards, Trigger_Gateway (\<open>internal/trigger\<close>): tenant resolution, guards (locale
    \<open>event_guard\<close>, interpreted on both guards), and the pipeline from an event to the driver.
  \<^item> Trigger_Drivers (\<open>driver*.go\<close>): how an event is sent to an instance; the exchange of the claude-code and the pi
    driver is the locale \<open>conversation\<close>, interpreted on both.
  \<^item> Trigger_Adapters (\<open>adapter_*.go\<close>): the cron loop, the webhook handler, the Telegram adapter, over any handler; what
    the Telegram adapter needs of one is the locale \<open>event_handler\<close>, interpreted on the gateway's in Trigger_Sync.
  \<^item> Trigger_Sync (\<open>gateway.go\<close>): which adapters run and with what, the loop that keeps them in step with the
    triggers, and the handlers of the gateway put into the adapters; \<open>stopReturns\<close> says when an adapter's
    \<open>Stop\<close> returns.
  \<^item> Entry_Points (\<open>cmd\<close>): the three processes' configuration and start; as the manifests start them, they
    agree on the namespace and on little else.
  \<^item> Http_Shutdown: how the HTTP servers of the API process and of a webhook adapter end, as a step relation; the laws
    both keep are the locale \<open>stoppable_server\<close>, and \<open>patient_server\<close> adds what only the adapter keeps, that its
    \<open>Stop\<close> waits for every request.
  \<^item> Cluster: passes of several claim and pool reconcilers, interleaved call by call in one history against a
    store of pods.  What is used of the API server is its documented behaviour (\<open>podStore\<close>): an update is
    accepted only with the version stored, a version is not used twice, lists show stored pods that match the
    selector, and labels change by updates.  With it a pool pod is acquired by one tenant only.  Cluster_Claims
    does the same for the statuses of claims (\<open>claimStore\<close>): a stored claim keeps its invariant and moves along
    the steps of a pass; it also shows that the API server, the gateway and the other controllers are
    the bystanders of such a history.
  \<^item> This theory: properties across components, on tokens, tenants, claim names and labels.

  Bounds and fuel.  The loops that poll a claim, read a conversation, tick, poll Telegram or synchronize the adapters
  take their number of rounds as fuel and answer
  \<open>None\<close> when it runs out.  Api_Claims and Trigger_Gateway show that one round more than waits
  fit into the timeout is enough; Trigger_Drivers that one round more than the reads before the deadline
  (\<open>readsEnd\<close>) is; Trigger_Adapters and Trigger_Sync that one round more than the waits before the context ends
  (\<open>contextEnds\<close>) is.  The sync loop returns under two more hypotheses, since \<open>Stop\<close> can block: the requests in
  progress of a webhook server that is shut down end (\<open>hooksDrain\<close>), and no Secret holds an empty value
  (\<open>secretsFilled\<close>).  Every other recursion is structural.

  Platforms.  Where Go leaves a result to the platform it is a parameter: the conversion to int64 of a float64 that does not
  fit (\<open>int64_beyond\<close>; amd64 and arm64, for both of which the images are built, differ).

  Not modelled.  Scheme and watch registration, logging and metrics have no
  logic of their own.  Goroutines are interleaved in Api_Socket, Http_Shutdown and, call by call, in Cluster;
  elsewhere an adapter and the sync loop is a computation of its own.  What the libraries' HTTP and WebSocket servers do
  around the handlers (parsing, upgrading, encoding) is theirs.
\<close>

section \<open>Tokens, from the operator to the API server\<close>

lemma TrimSpace_csvSafe: "csvSafe s \<Longrightarrow> TrimSpace s = s"
  by (simp add: csvSafe_def TrimSpace_id)

lemma parseScopeCSV_Join:
  assumes "list_all csvSafe scopes"
  shows "parseScopeCSV (Join scopes '','') = scopes"
proof (cases "scopes = []")
  case False
  have "Split (Join scopes [CHR '','']) (CHR '','') = scopes"
    by (rule Split_Join [OF False]) (use assms in \<open>auto simp: list_all_iff csvSafe_def\<close>)
  moreover have "map TrimSpace scopes = scopes"
    using assms by (auto simp: list_all_iff TrimSpace_csvSafe intro: map_idI)
  moreover have "filter (\<lambda>p. p \<noteq> []) scopes = scopes"
    using assms by (auto simp: list_all_iff csvSafe_def filter_id_conv)
  moreover have "Join scopes '','' \<noteq> []"
    using False assms by (cases scopes; cases "tl scopes") (auto simp: csvSafe_def)
  ultimately show ?thesis by (simp add: parseScopeCSV_def)
qed (simp add: parseScopeCSV_def)

definition tokenCaller :: "BoilerhouseClaim \<Rightarrow> string list \<Rightarrow> AuthContext" where
  "tokenCaller claim scopes = \<lparr>acKind = AuthScoped, acTenantID = claimTenantId (claimSpec claim),
     acWorkload = claimWorkloadRef (claimSpec claim), acClaimID = Name (claimMeta claim), acScopes = scopes\<rparr>"

lemma secretToAuth_tokenSecret:
  assumes "list_all csvSafe scopes" and "format_rfc3339 E expiry \<noteq> []"
    and "parse_rfc3339 E (format_rfc3339 E expiry) = Some t"
  shows "secretToAuth E (tokenSecret E claim scopes token expiry) = (tokenCaller claim scopes, t)"
  using assms token_keys_distinct
  by (simp add: secretToAuth_def tokenSecret_def tokenCaller_def lookupS_def parseScopeCSV_Join Let_def)

lemma token_data [simp]: "secretData (tokenSecret E claim scopes token expiry) DataKey = Some token"
  by (simp add: tokenSecret_def)

text \<open>
  C13. The token Secret the operator writes means to the API server what the operator meant: its tenant,
  workload, claim and scopes are read back, and with the Secret in the index a request with the token is
  admitted to a route that asks for a scope exactly when the scope is one of them, and the clock
  has not passed the expiry.
\<close>

theorem token_authorizes:
  assumes "list_all csvSafe scopes" and "format_rfc3339 E expiry \<noteq> []"
    and "parse_rfc3339 E (format_rfc3339 E expiry) = Some t" and "\<not> isZeroTime t"
    and "apiKey s \<noteq> []" and "token \<noteq> []" and "token \<noteq> apiKey s"
  shows "fst (result (admitRoute E s (Some (onInformer E (SecretAdded (tokenSecret E claim scopes token expiry)) ts))
      (Scoped sc) (''Bearer '' @ token)) tr) =
    (if time_now E tr > t then Reject 401 ''invalid API key''
     else if sc \<in> set scopes then Pass (Some (tokenCaller claim scopes))
     else Reject 403 (''missing scope: '' @ sc))"
  using assms
  by (simp add: result_def admitRoute_def authMiddleware_def Lookup_def tokenExpired_def timeNow_def
      onInformer_def onAddOrUpdate_def putToken_def secretToAuth_tokenSecret trim_bearer Let_def
      requireScope_def HasScope_def tokenCaller_def)

definition tokenServiceEnv :: env where
  "tokenServiceEnv = offlineEnv\<lparr>format_rfc3339 := \<lambda>_. ''t'', parse_rfc3339 := \<lambda>_. Some 100\<rparr>"

theorem token_authorizes_witness:
  "fst (result (admitRoute tokenServiceEnv demoServer (Some (onInformer tokenServiceEnv
      (SecretAdded (tokenSecret tokenServiceEnv demoClaim DefaultAgentScopeStrings ''tok'' 100)) demoStore))
      (Scoped AgentTriggersWrite) (''Bearer '' @ ''tok'')) []) =
   Pass (Some (tokenCaller demoClaim DefaultAgentScopeStrings))"
  using token_authorizes [OF csvSafe_defaults, of tokenServiceEnv 100 100 demoServer "''tok''" demoClaim
      demoStore AgentTriggersWrite "[]"]
  by (simp add: tokenServiceEnv_def offlineEnv_def demoServer_def isZeroTime_def zeroTime_def second_def
      DefaultAgentScopeStrings_def DefaultAgentScopes_def)

text \<open>
  C7. What an agent can do with its token, end to end, with the operator's Secret in the index.  A request with the token
  to a trigger route does nothing but read the clock, create a cron trigger that names the agent's workload and has its
  tenant as the static tenant, list the triggers with the agent's labels, get a trigger of the namespace, and delete one
  that a Get showed to be the agent's own in the same sense.  The answer shows a trigger that was asked for by name only
  when its specification is the agent's own; any other is answered as an error.  A list is the one the API server
  gave for the labels, which are not compared with the specifications.  And on an admin route no handler runs.  A prefix
  of the tenant is not looked at: what it makes of the confinement is the property on prefixes below.
\<close>

theorem agent_confined:
  fixes handler :: "AuthContext option \<Rightarrow> 'a reply io"
  assumes "list_all csvSafe scopes" and "format_rfc3339 E expiry \<noteq> []"
    and "parse_rfc3339 E (format_rfc3339 E expiry) = Some t"
    and "apiKey s \<noteq> []" and "token \<noteq> []" and "token \<noteq> apiKey s"
    and "index = onInformer E (SecretAdded (tokenSecret E claim scopes token expiry)) ts"
    and "hdAuthorization req = ''Bearer '' @ token"
  shows "guarded (agentGuard s (tokenCaller claim scopes)) [] (appended (serveTrigger E s (Some index) req c) tr) \<and>
    pred_option (agentReply s (tokenCaller claim scopes) (appended (serveTrigger E s (Some index) req c) tr) c)
      (respBody (fst (result (serveTrigger E s (Some index) req c) tr))) \<and>
    respStatus (fst (result (serveRoute E s (Some index) AdminOnly req handler) tr)) \<in> {204, 401, 403} \<and>
    list_all (\<lambda>e. \<exists>t. e = TimeEv t) (appended (serveRoute E s (Some index) AdminOnly req handler) tr)"
proof -
  let ?e = "\<lparr>teContext = tokenCaller claim scopes, teExpiresAt = t\<rparr>"
  have e: "findEntry E index token = Some ?e" "acKind (teContext ?e) = AuthScoped"
    using assms(1-3,7) by (simp_all add: findEntry_def onInformer_def onAddOrUpdate_def putToken_def
        secretToAuth_tokenSecret tokenCaller_def)
  note serve = wp_serve_indexed [OF e assms(4-6)]
  from e(2) have "ordered (agentGuard s (tokenCaller claim scopes)) (triggerHandler E s c (Some (tokenCaller claim scopes)))"
    by (intro ordered_triggerHandler) simp
  then have "wp (serveTrigger E s (Some index) req c)
      (\<lambda>_ tr'. guarded (agentGuard s (tokenCaller claim scopes)) [] (drop (length tr) tr')) tr"
    unfolding serveTrigger_def
    by (intro wp_mono [OF serve [of "triggerRoute c" req]]) (use triggerRoute_scoped [of c] assms(8) in auto)
  moreover have "wp (serveTrigger E s (Some index) req c)
      (\<lambda>r tr'. pred_option (agentReply s (tokenCaller claim scopes) (drop (length tr) tr') c) (respBody (fst r))) tr"
    unfolding serveTrigger_def
    by (rule wp_mono [OF wp_serve_reply [OF e assms(4-6), where P = "\<lambda>b evs. agentReply s (tokenCaller claim scopes) evs c b"]])
      (use e(2) triggerRoute_scoped [of c] assms(8) in \<open>auto intro: agentReply_later wp_triggerHandler\<close>)
  moreover have "wp (serveRoute E s (Some index) AdminOnly req handler) (\<lambda>r tr'. respStatus (fst r) \<in> {204, 401, 403} \<and>
      list_all (\<lambda>e. \<exists>t. e = TimeEv t) (drop (length tr) tr')) tr"
    by (rule wp_mono [OF serve [of AdminOnly req]]) (use assms(8) in auto)
  ultimately show ?thesis
    by (simp only: guarded_appendedI wp_appended [where Q = "\<lambda>r evs. pred_option
      (agentReply s (tokenCaller claim scopes) evs c) (respBody (fst r))"] wp_appended [where Q = "\<lambda>r evs. respStatus (fst r) \<in> {204, 401, 403} \<and>
      list_all (\<lambda>e. \<exists>t. e = TimeEv t) evs"] simp_thms)
qed

definition agentRequest :: httpHead where
  "agentRequest = \<lparr>hdMethod = ''POST'', hdOrigin = [], hdAuthorization = ''Bearer '' @ ''tok''\<rparr>"

definition agentEnv :: env where
  "agentEnv = tokenServiceEnv\<lparr>triggers := offlineKind\<lparr>k_get := \<lambda>_ _. Inr demoTrigger, k_delete := \<lambda>_ _. None\<rparr>\<rparr>"

definition agentIndex :: TokenStore where
  "agentIndex = onInformer agentEnv
     (SecretAdded (tokenSecret agentEnv demoClaim DefaultAgentScopeStrings ''tok'' 100)) demoStore"

theorem agent_confined_witness:
  "guarded (agentGuard demoServer (tokenCaller demoClaim DefaultAgentScopeStrings)) []
     (appended (serveTrigger agentEnv demoServer (Some agentIndex) agentRequest (DeleteTrigger ''x'')) []) \<and>
   pred_option (agentReply demoServer (tokenCaller demoClaim DefaultAgentScopeStrings)
       (appended (serveTrigger agentEnv demoServer (Some agentIndex) agentRequest (DeleteTrigger ''x'')) [])
       (DeleteTrigger ''x''))
     (respBody (fst (result (serveTrigger agentEnv demoServer (Some agentIndex) agentRequest (DeleteTrigger ''x'')) []))) \<and>
   respStatus (fst (result (serveRoute agentEnv demoServer (Some agentIndex) AdminOnly agentRequest
     (\<lambda>_. ret (Done 200 ()))) [])) \<in> {204, 401, 403}"
  using agent_confined [OF csvSafe_defaults, of agentEnv 100 100 demoServer "''tok''" agentIndex demoClaim demoStore
      agentRequest "DeleteTrigger ''x''" "[]" "\<lambda>_. ret (Done 200 ())"]
  by (simp add: agentEnv_def tokenServiceEnv_def offlineEnv_def demoServer_def agentRequest_def agentIndex_def)

section \<open>Tenants of triggers\<close>

text \<open>
  C39. A scoped token reaches other tenants through a trigger: for every prefix, a cron trigger with the
  caller's own static tenant and that prefix passes the checks and is created, and its events
  resolve to the tenant with the prefix in front.
\<close>

theorem scoped_prefix_escalation:
  assumes "acKind ac = AuthScoped" and "acTenantID ac \<noteq> []" and "name \<noteq> []"
    and "triggerType spec = ''cron''" and "triggerWorkloadRef spec = acWorkload ac"
    and "triggerTenant spec = Some \<lparr>Static = acTenantID ac, From = [], Prefix = pfx\<rparr>"
  shows "appended (createTrigger E s (Some ac) (Inr \<lparr>trName = name, trSpec = spec\<rparr>)) tr =
      [TriggerEv (CreateEv (newTrigger s \<lparr>trName = name, trSpec = spec\<rparr>)
         (k_create (triggers E) tr (newTrigger s \<lparr>trName = name, trSpec = spec\<rparr>)))] \<and>
    ResolveTenantId (triggerTenant (triggerSpec (newTrigger s \<lparr>trName = name, trSpec = spec\<rparr>))) payload =
      Inr (pfx @ acTenantID ac)"
proof -
  have "scopedRefusal ac spec = None"
    using assms by (simp add: scopedRefusal_None ownTenant_def)
  moreover have "triggerSpec (newTrigger s \<lparr>trName = name, trSpec = spec\<rparr>) = spec"
    by (simp add: newTrigger_def)
  ultimately show ?thesis
    using assms by (simp add: createTrigger_def createObj_def ResolveTenantId_def appended_def)
qed

theorem scoped_prefix_escalation_witness:
  "ResolveTenantId (triggerTenant (triggerSpec (newTrigger demoServer \<lparr>trName = ''x'',
      trSpec = (triggerSpec demoTrigger)\<lparr>triggerTenant := Some \<lparr>Static = ''t'', From = [], Prefix = ''other-''\<rparr>\<rparr>\<rparr>)))
     demoPayload = Inr ''other-t''"
  using scoped_prefix_escalation [of demoCaller "''x''"
      "(triggerSpec demoTrigger)\<lparr>triggerTenant := Some \<lparr>Static = ''t'', From = [], Prefix = ''other-''\<rparr>\<rparr>"
      "''other-''" offlineEnv demoServer "[]" demoPayload]
  by (simp add: demoCaller_def demoTrigger_def)

section \<open>Claim names\<close>

lemma split_dash:
  "CHR ''-'' \<notin> set a \<Longrightarrow> CHR ''-'' \<notin> set b \<Longrightarrow> a @ CHR ''-'' # x = b @ CHR ''-'' # y \<longleftrightarrow> a = b \<and> x = y"
proof (induction a arbitrary: b)
  case Nil
  then show ?case by (cases b) auto
next
  case (Cons c a)
  then show ?case by (cases b) auto
qed

text \<open>
  The API server and the gateway give a tenant's claim the same name.  It determines tenant and workload
  among tenants without a dash; in general it does not: a part of the workload's name can move
  into the tenant's.
\<close>

theorem claim_names:
  "claimNameFor t w = apiClaimName t w \<and>
   claimNameFor t (v @ ''-'' @ w) = claimNameFor (t @ ''-'' @ v) w \<and>
   (CHR ''-'' \<notin> set t \<and> CHR ''-'' \<notin> set t' \<longrightarrow>
     (claimNameFor t w = claimNameFor t' w' \<longleftrightarrow> t = t' \<and> w = w'))"
  by (auto simp: claimNameFor_def apiClaimName_def split_dash)

theorem claim_names_witness:
  "claimNameFor ''a'' ''b-c'' \<noteq> claimNameFor ''b'' ''b-c''"
proof -
  have "CHR ''-'' \<notin> set ''a''" "CHR ''-'' \<notin> set ''b''" "''a'' \<noteq> ''b''" by simp_all
  with claim_names [of "''a''" "''b-c''" "[]" "''b''" "''b-c''"] show ?thesis by blast
qed

text \<open>
  The gateway hands out the endpoint of whatever Active claim has the name, without looking at its
  tenant: an event for tenant \<open>t\<close> and workload \<open>v-w\<close> goes to the pod of tenant \<open>t-v\<close> when
  that tenant has an active claim on \<open>w\<close>.
\<close>

theorem endpoint_of_other_tenant:
  assumes "k_get (claims E) tr (nsName (gwNamespace g) (claimNameFor (t @ ''-'' @ v) w)) = Inr c"
    and "activeEndpoint c = Some ep"
  shows "result (ensureClaim E g t (v @ ''-'' @ w) n) tr = Some (Inr (formatEndpoint ep))"
proof -
  have "claimNameFor t (v @ ''-'' @ w) = claimNameFor (t @ ''-'' @ v) w"
    by (simp add: claimNameFor_def)
  with assms show ?thesis by (simp add: result_def ensureClaim_def getObj_def Let_def)
qed

theorem endpoint_of_other_tenant_witness:
  "result (ensureClaim gatewayEnv \<lparr>gwNamespace = ''ns''\<rparr> ''a'' (''b'' @ ''-'' @ ''c'') 3) [] =
     Some (Inr (formatEndpoint \<lparr>Host = ''10.0.0.7'', Port = 80\<rparr>))"
  by (rule endpoint_of_other_tenant [where c = activeGatewayClaim])
    (simp_all add: gatewayEnv_def activeGatewayClaim_def activeEndpoint_def)

section \<open>Labels and selectors\<close>

lemma pool_not_ready [simp]: "''warming'' \<noteq> ''ready''" "''acquired'' \<noteq> ''ready''"
  by simp_all

text \<open>
  The labels the operator writes are the ones it selects by: the pod of a cold boot is found as the
  tenant's pod and never as a ready pool pod; a new pool pod is found as neither; marked ready it is
  a ready pool pod; and once acquired it is the tenant's pod and no longer a ready one.
\<close>

theorem pod_selectors:
  assumes "Translate (wlSpec wl) ((tenantOpts R claim wl sfx n)\<lparr>optProxyConfig := proxy\<rparr>) = Inr cold"
    and "Translate (wlSpec wl') (poolOpts pool wl' proxy' sfx') = Inr warm"
    and "claimTenantId (claimSpec claim) \<noteq> []"
    and "poolWorkloadRef (poolSpec pool) = claimWorkloadRef (claimSpec claim)"
  shows "matchesLabels (tenantSelector (claimTenantId (claimSpec claim)) (claimWorkloadRef (claimSpec claim)))
      (podMeta (resPod cold)) \<and>
    \<not> matchesLabels (readySelector (claimWorkloadRef (claimSpec claim))) (podMeta (resPod cold)) \<and>
    \<not> matchesLabels (tenantSelector (claimTenantId (claimSpec claim)) (claimWorkloadRef (claimSpec claim)))
      (podMeta (resPod warm)) \<and>
    \<not> matchesLabels (readySelector (claimWorkloadRef (claimSpec claim))) (podMeta (resPod warm)) \<and>
    matchesLabels (readySelector (claimWorkloadRef (claimSpec claim))) (podMeta (markReady (resPod warm))) \<and>
    matchesLabels (tenantSelector (claimTenantId (claimSpec claim)) (claimWorkloadRef (claimSpec claim)))
      (podMeta (acquiredPod (markReady (resPod warm)) (claimTenantId (claimSpec claim)))) \<and>
    \<not> matchesLabels (readySelector (claimWorkloadRef (claimSpec claim)))
      (podMeta (acquiredPod (markReady (resPod warm)) (claimTenantId (claimSpec claim))))"
  using Translate_identity(3) [OF assms(1)] Translate_identity(3) [OF assms(2)] assms(3,4)
  by (simp add: matchesLabels_def tenantSelector_def readySelector_def tenantOpts_def poolOpts_def
      markReady_def acquiredPod_def)

lemma demo_translates:
  "Translate (wlSpec demoWorkload) ((tenantOpts demoReconciler demoClaim demoWorkload ''1'' [])\<lparr>optProxyConfig := None\<rparr>) =
     Inr (projr (Translate (wlSpec demoWorkload)
       ((tenantOpts demoReconciler demoClaim demoWorkload ''1'' [])\<lparr>optProxyConfig := None\<rparr>)))"
  "Translate (wlSpec demoWorkload) (poolOpts demoPool demoWorkload None ''1'') =
     Inr (projr (Translate (wlSpec demoWorkload) (poolOpts demoPool demoWorkload None ''1'')))"
  by (simp_all add: Translate_def buildPod_def buildContainer_def applyEntrypoint_def demoWorkload_def
      tenantOpts_def poolOpts_def zeroWorkload_def zeroWorkloadSpec_def Let_def)

theorem pod_selectors_witness:
  "matchesLabels (readySelector ''w'') (podMeta (markReady
     (resPod (projr (Translate (wlSpec demoWorkload) (poolOpts demoPool demoWorkload None ''1''))))))"
  using pod_selectors [OF demo_translates] by (simp add: demoClaim_def demoPool_def)

end
